(* ===== verification/Prelude.thy ===== *)
theory Prelude
  imports Main "HOL-Library.Word" "HOL-Library.Option_ord" "HOL-Library.Product_Lexorder"
    "HOL-Library.List_Lexorder" "HOL-Library.Char_ord"
begin

text \<open>
  Shared vocabulary of the development: instants and durations, Python truthiness, and the part of
  the relational database the repositories rely on. A table is the list of its rows in the order in
  which the engine scans them; every theorem quantifies over that list, so nothing depends on a
  particular scan order. \<open>db_get\<close>, \<open>db_update\<close>, \<open>db_insert\<close> and \<open>db_delete\<close> are
  \<open>session.get\<close>, an in-place change of a fetched row, \<open>session.add\<close> with \<open>commit\<close>, and
  \<open>session.delete\<close>; \<open>ORDER BY\<close> is a stable sort of the scan order, \<open>LIMIT\<close> is \<open>take\<close>.
\<close>

named_theorems row_simps \<open>field-level behaviour of row operations\<close>
named_theorems repo_defs \<open>definitions of repository operations\<close>

section \<open>Definitions\<close>

text \<open>Instants are microseconds on the UTC time line (Python's datetime resolution).\<close>

type_synonym time = int
type_synonym bytes = "8 word list"

definition seconds :: "int \<Rightarrow> time" where
  "seconds n = n * 1000000"

definition days :: "int \<Rightarrow> time" where
  "days n = seconds (n * 86400)"

text \<open>Truthiness of a \<open>str | None\<close> value.\<close>

fun truthy :: "string option \<Rightarrow> bool" where
  "truthy None = False"
| "truthy (Some s) = (s \<noteq> [])"

text \<open>\<open>a or b\<close> on \<open>str | None\<close>.\<close>

definition py_or :: "string option \<Rightarrow> string option \<Rightarrow> string option" where
  "py_or a b = (if truthy a then a else b)"

text \<open>\<open>a or b\<close> on an optional string with a string to fall back to.\<close>

definition text_or :: "string option \<Rightarrow> string \<Rightarrow> string" where
  "text_or a b = (case a of Some s \<Rightarrow> if s \<noteq> [] then s else b | None \<Rightarrow> b)"

text \<open>A step that may raise, followed by another one.\<close>

definition chain :: "'e + 'a \<Rightarrow> ('a \<Rightarrow> 'e + 'b) \<Rightarrow> 'e + 'b" where
  "chain m f = (case m of Inl e \<Rightarrow> Inl e | Inr x \<Rightarrow> f x)"

text \<open>Python indexing: a negative index counts from the end, \<open>None\<close> is \<open>IndexError\<close>.\<close>

definition py_nth :: "'a list \<Rightarrow> int \<Rightarrow> 'a option" where
  "py_nth xs i = (let n = int (length xs); j = (if i < 0 then n + i else i)
     in if 0 \<le> j \<and> j < n then Some (xs ! nat j) else None)"

text \<open>Python dictionaries as association lists in insertion order.\<close>

fun dict_set :: "'k \<Rightarrow> 'v \<Rightarrow> ('k \<times> 'v) list \<Rightarrow> ('k \<times> 'v) list" where
  "dict_set k v [] = [(k, v)]"
| "dict_set k v ((k', v') # d) = (if k = k' then (k, v) # d else (k', v') # dict_set k v d)"

datatype db_error = IntegrityError

definition db_get :: "('r \<Rightarrow> string) \<Rightarrow> string \<Rightarrow> 'r list \<Rightarrow> 'r option" where
  "db_get key k rows = find (\<lambda>r. key r = k) rows"

definition db_update :: "('r \<Rightarrow> string) \<Rightarrow> string \<Rightarrow> ('r \<Rightarrow> 'r) \<Rightarrow> 'r list \<Rightarrow> 'r list" where
  "db_update key k f rows = map (\<lambda>r. if key r = k then f r else r) rows"

definition db_update_where :: "('r \<Rightarrow> bool) \<Rightarrow> ('r \<Rightarrow> 'r) \<Rightarrow> 'r list \<Rightarrow> 'r list" where
  "db_update_where P f rows = map (\<lambda>r. if P r then f r else r) rows"

definition db_insert :: "('r \<Rightarrow> string) \<Rightarrow> 'r \<Rightarrow> 'r list \<Rightarrow> db_error + 'r list" where
  "db_insert key r rows =
     (if key r \<in> set (map key rows) then Inl IntegrityError else Inr (rows @ [r]))"

definition db_delete :: "('r \<Rightarrow> string) \<Rightarrow> string \<Rightarrow> 'r list \<Rightarrow> 'r list" where
  "db_delete key k rows = filter (\<lambda>r. key r \<noteq> k) rows"

definition db_count :: "('r \<Rightarrow> bool) \<Rightarrow> 'r list \<Rightarrow> nat" where
  "db_count P rows = length (filter P rows)"

text \<open>\<open>SELECT \<dots> WHERE P ORDER BY ord LIMIT n\<close>.\<close>

definition db_select :: "('r \<Rightarrow> bool) \<Rightarrow> ('r \<Rightarrow> 'o::linorder) \<Rightarrow> nat \<Rightarrow> 'r list \<Rightarrow> 'r list" where
  "db_select P ord n rows = take n (sort_key ord (filter P rows))"

text \<open>A query without \<open>ORDER BY\<close>: the rows in scan order.\<close>

definition db_find :: "('r \<Rightarrow> bool) \<Rightarrow> 'r list \<Rightarrow> 'r option" where
  "db_find P rows = find P rows"

text \<open>\<open>\<dots> LIMIT 1\<close> read with \<open>scalar_one_or_none\<close> or \<open>first\<close>.\<close>

definition db_first :: "('r \<Rightarrow> bool) \<Rightarrow> ('r \<Rightarrow> 'o::linorder) \<Rightarrow> 'r list \<Rightarrow> 'r option" where
  "db_first P ord rows =
     (case sort_key ord (filter P rows) of [] \<Rightarrow> None | r # _ \<Rightarrow> Some r)"

section \<open>The table interface\<close>

text \<open>
  What the repositories rely on of a keyed table: a well-formed table has unique primary keys,
  every operation keeps that, and a read after a write sees the write and nothing else.
\<close>

locale keyed_table =
  fixes key :: "'r \<Rightarrow> string"
    and get :: "string \<Rightarrow> 'r list \<Rightarrow> 'r option"
    and upd :: "string \<Rightarrow> ('r \<Rightarrow> 'r) \<Rightarrow> 'r list \<Rightarrow> 'r list"
    and ins :: "'r \<Rightarrow> 'r list \<Rightarrow> db_error + 'r list"
    and del :: "string \<Rightarrow> 'r list \<Rightarrow> 'r list"
    and wf :: "'r list \<Rightarrow> bool"
  assumes wf_empty: "wf []"
    and get_mem: "get k rows = Some r \<Longrightarrow> r \<in> set rows \<and> key r = k"
    and mem_get: "wf rows \<Longrightarrow> r \<in> set rows \<Longrightarrow> get (key r) rows = Some r"
    and wf_upd: "wf rows \<Longrightarrow> (\<And>r. key (f r) = key r) \<Longrightarrow> wf (upd k f rows)"
    and get_upd: "(\<And>r. key (f r) = key r) \<Longrightarrow>
           get k' (upd k f rows) = (if k' = k then map_option f (get k rows) else get k' rows)"
    and ins_result: "ins r rows =
           (if get (key r) rows \<noteq> None then Inl IntegrityError else Inr (rows @ [r]))"
    and wf_ins: "wf rows \<Longrightarrow> ins r rows = Inr rows' \<Longrightarrow> wf rows'"
    and get_ins: "ins r rows = Inr rows' \<Longrightarrow>
           get k rows' = (if k = key r then Some r else get k rows)"
    and wf_del: "wf rows \<Longrightarrow> wf (del k rows)"
    and get_del: "get k' (del k rows) = (if k' = k then None else get k' rows)"
begin

lemma upd_read_back: "(\<And>r. key (f r) = key r) \<Longrightarrow> get k rows = Some r \<Longrightarrow> get k (upd k f rows) = Some (f r)"
  by (simp add: get_upd)

lemma upd_frame: "(\<And>r. key (f r) = key r) \<Longrightarrow> k' \<noteq> k \<Longrightarrow> get k' (upd k f rows) = get k' rows"
  by (simp add: get_upd)

lemma ins_fresh: "get (key r) rows = None \<Longrightarrow> ins r rows = Inr (rows @ [r])"
  by (simp add: ins_result)

lemma ins_duplicate: "get (key r) rows = Some r' \<Longrightarrow> ins r rows = Inl IntegrityError"
  by (simp add: ins_result)

lemma mem_unique: "wf rows \<Longrightarrow> r \<in> set rows \<Longrightarrow> r' \<in> set rows \<Longrightarrow> key r = key r' \<Longrightarrow> r = r'"
  by (metis mem_get option.inject)

end

text \<open>What one operation may change is a relation between the states before and after it. When doing
  nothing is allowed and two allowed changes in a row are allowed, so is a loop over a list. An
  invariant \<open>I\<close> that the changes keep may be used along the way.\<close>

locale step_relation =
  fixes R :: "'a \<Rightarrow> 'a \<Rightarrow> bool"
  assumes step_refl: "R s s"
    and step_trans: "R s s' \<Longrightarrow> R s' s'' \<Longrightarrow> R s s''"
begin

lemma fold_inv_step:
  assumes "I s" and "\<And>x s. x \<in> set xs \<Longrightarrow> I s \<Longrightarrow> R s (f x s) \<and> I (f x s)"
  shows "R s (fold f xs s) \<and> I (fold f xs s)"
  using assms
proof (induction xs arbitrary: s)
  case (Cons x xs)
  have first: "R s (f x s) \<and> I (f x s)" using Cons.prems by simp
  then have "R (f x s) (fold f xs (f x s)) \<and> I (fold f xs (f x s))" using Cons by simp
  with first show ?case using step_trans by auto
qed (simp add: step_refl)

lemma fold_step: "(\<And>x s. x \<in> set xs \<Longrightarrow> R s (f x s)) \<Longrightarrow> R s (fold f xs s)"
  by (rule conjunct1 [OF fold_inv_step [where I = "\<lambda>_. True"]]) simp_all

end

section \<open>Lemmas on tables and queries\<close>

lemma seconds_mono [simp]: "seconds a \<le> seconds b \<longleftrightarrow> a \<le> b"
  by (simp add: seconds_def)

lemma seconds_pos [simp]: "0 < seconds a \<longleftrightarrow> 0 < a"
  by (simp add: seconds_def)

lemma truthy_Some: "truthy x \<longleftrightarrow> (\<exists>s. x = Some s \<and> s \<noteq> [])"
  by (cases x) auto

lemma chain_Inr [simp]: "chain m f = Inr y \<longleftrightarrow> (\<exists>x. m = Inr x \<and> f x = Inr y)"
  by (cases m) (simp_all add: chain_def)

lemma dict_set_lookup: "map_of (dict_set k v d) k' = (if k' = k then Some v else map_of d k')"
  by (induction k v d rule: dict_set.induct) auto

lemma db_get_Some: "db_get key k rows = Some r \<Longrightarrow> r \<in> set rows \<and> key r = k"
  by (auto simp: db_get_def find_Some_iff)

lemma db_get_None: "db_get key k rows = None \<longleftrightarrow> k \<notin> key ` set rows"
  by (auto simp: db_get_def find_None_iff)

lemma db_get_mem:
  assumes "distinct (map key rows)" and "r \<in> set rows"
  shows "db_get key (key r) rows = Some r"
  using assms by (induction rows) (auto simp: db_get_def rev_image_eqI)

lemma db_update_keys [simp]:
  assumes "\<And>r. key (f r) = key r"
  shows "map key (db_update key k f rows) = map key rows"
  using assms by (auto simp: db_update_def)

lemma db_get_update:
  assumes "\<And>r. key (f r) = key r"
  shows "db_get key k' (db_update key k f rows) =
    (if k' = k then map_option f (db_get key k rows) else db_get key k' rows)"
  using assms by (induction rows) (auto simp: db_get_def db_update_def)

lemma db_get_append: "db_get key k (rows @ [r]) =
    (case db_get key k rows of Some r' \<Rightarrow> Some r' | None \<Rightarrow> (if key r = k then Some r else None))"
  by (induction rows) (auto simp: db_get_def)

lemma db_get_delete: "db_get key k' (db_delete key k rows) = (if k' = k then None else db_get key k' rows)"
  by (induction rows) (auto simp: db_get_def db_delete_def)

lemma db_insert_result: "db_insert key r rows =
    (if db_get key (key r) rows \<noteq> None then Inl IntegrityError else Inr (rows @ [r]))"
  by (auto simp: db_insert_def db_get_None)

lemma db_delete_distinct: "distinct (map key rows) \<Longrightarrow> distinct (map key (db_delete key k rows))"
  by (induction rows) (auto simp: db_delete_def)

lemma keyed_table_db:
  "keyed_table key (db_get key) (db_update key) (db_insert key) (db_delete key)
     (\<lambda>rows. distinct (map key rows))"
proof (unfold_locales, goal_cases)
  case (8 r rows rows')
  then show ?case by (auto simp: db_get_append db_insert_result split: option.splits if_splits)
next
  case (7 rows r rows')
  then show ?case by (auto simp: db_insert_def split: if_splits)
qed (auto simp: db_get_Some db_get_mem db_get_update db_get_delete db_insert_result
        db_delete_distinct dest: db_get_Some)

lemma db_select_set: "r \<in> set (db_select P ord n rows) \<Longrightarrow> r \<in> set rows \<and> P r"
  by (auto simp: db_select_def dest: in_set_takeD)

lemma db_select_length: "length (db_select P ord n rows) \<le> n"
  by (simp add: db_select_def)

lemma db_select_sorted: "sorted (map ord (db_select P ord n rows))"
  by (simp add: db_select_def take_map [symmetric] sorted_wrt_take)

lemma db_select_all:
  assumes "db_count P rows \<le> n"
  shows "set (db_select P ord n rows) = {r \<in> set rows. P r}"
  using assms by (auto simp: db_select_def db_count_def)

lemma db_first_Some:
  assumes "db_first P ord rows = Some r"
  shows "r \<in> set rows" and "P r" and "\<And>r'. r' \<in> set rows \<Longrightarrow> P r' \<Longrightarrow> ord r \<le> ord r'"
proof -
  from assms obtain rs where rs: "sort_key ord (filter P rows) = r # rs"
    by (auto simp: db_first_def split: list.splits)
  then have "set (r # rs) = {r \<in> set rows. P r}" by (metis set_filter set_sort)
  then show "r \<in> set rows" and "P r" by auto
  have "sorted (map ord (r # rs))" by (metis rs sorted_sort_key)
  then have "\<forall>r' \<in> set (r # rs). ord r \<le> ord r'" by auto
  then show "ord r \<le> ord r'" if "r' \<in> set rows" "P r'" for r'
    using that \<open>set (r # rs) = {r \<in> set rows. P r}\<close> by blast
qed

lemma db_first_None: "db_first P ord rows = None \<longleftrightarrow> (\<forall>r \<in> set rows. \<not> P r)"
proof -
  have "sort_key ord (filter P rows) = [] \<longleftrightarrow> filter P rows = []"
    by (metis length_0_conv length_sort)
  then show ?thesis
    by (auto simp: db_first_def filter_empty_conv split: list.splits)
qed

lemma db_find_Some: "db_find P rows = Some r \<Longrightarrow> r \<in> set rows \<and> P r"
  by (auto simp: db_find_def find_Some_iff)

lemma db_find_None: "db_find P rows = None \<longleftrightarrow> (\<forall>r \<in> set rows. \<not> P r)"
  by (auto simp: db_find_def find_None_iff)

lemma db_count_0: "db_count P rows = 0 \<longleftrightarrow> (\<forall>r \<in> set rows. \<not> P r)"
  by (auto simp: db_count_def filter_empty_conv)

lemma db_count_mono:
  assumes "\<And>r. r \<in> set rows \<Longrightarrow> P r \<Longrightarrow> Q r"
  shows "db_count P rows \<le> db_count Q rows"
  using assms by (induction rows) (auto simp: db_count_def)

lemma db_count_map_le:
  assumes "\<And>r. r \<in> set rows \<Longrightarrow> P (f r) \<Longrightarrow> Q r"
  shows "db_count P (map f rows) \<le> db_count Q rows"
  using assms by (induction rows) (auto simp: db_count_def)

lemma db_count_append [simp]: "db_count P (xs @ ys) = db_count P xs + db_count P ys"
  by (simp add: db_count_def)

lemma db_count_Cons: "db_count P (x # xs) = (if P x then Suc (db_count P xs) else db_count P xs)"
  by (simp add: db_count_def)

lemma db_count_Nil [simp]: "db_count P [] = 0"
  by (simp add: db_count_def)

lemma db_update_absent: "k \<notin> key ` set rows \<Longrightarrow> db_update key k f rows = rows"
  unfolding db_update_def by (rule map_idI) auto

lemma db_update_Cons: "db_update key k f (r # rows) = (if key r = k then f r else r) # db_update key k f rows"
  by (simp add: db_update_def)

lemma db_update_Nil [simp]: "db_update key k f [] = []"
  by (simp add: db_update_def)

lemma db_count_update_one:
  assumes "distinct (map key rows)"
  shows "db_count P (db_update key k f rows) \<le> Suc (db_count P rows)"
  using assms
proof (induction rows)
  case (Cons r rows)
  then show ?case
    by (cases "key r = k") (auto simp: db_update_Cons db_count_Cons db_update_absent)
qed simp

lemma db_count_update_eq:
  assumes "distinct (map key rows)" and "db_get key k rows = Some r"
  shows "db_count P (db_update key k f rows) + of_bool (P r) = db_count P rows + of_bool (P (f r))"
  using assms
proof (induction rows)
  case (Cons x rows)
  show ?case
  proof (cases "key x = k")
    case True
    then have "x = r" "k \<notin> key ` set rows" using Cons.prems by (auto simp: db_get_def)
    with True show ?thesis by (auto simp: db_update_Cons db_count_Cons db_update_absent)
  next
    case False
    with Cons show ?thesis by (auto simp: db_update_Cons db_count_Cons db_get_def)
  qed
qed (simp add: db_get_def)

lemma db_update_all2:
  assumes "\<And>r. R r r" and "\<And>r. r \<in> set rows \<Longrightarrow> key r = k \<Longrightarrow> R r (f r)"
  shows "list_all2 R rows (db_update key k f rows)"
  using assms by (auto simp: db_update_def list_all2_conv_all_nth)

lemma db_update_where_all2:
  assumes "\<And>r. R r r" and "\<And>r. r \<in> set rows \<Longrightarrow> P r \<Longrightarrow> R r (f r)"
  shows "list_all2 R rows (db_update_where P f rows)"
  using assms by (auto simp: db_update_where_def list_all2_conv_all_nth)

lemma db_update_mem:
  assumes "x \<in> set (db_update key k f rows)"
  obtains "x \<in> set rows" "key x \<noteq> k" | r where "r \<in> set rows" "key r = k" "x = f r"
  using assms by (auto simp: db_update_def split: if_splits)

lemma db_update_where_mem:
  assumes "x \<in> set (db_update_where P f rows)"
  obtains "x \<in> set rows" "\<not> P x" | r where "r \<in> set rows" "P r" "x = f r"
  using assms by (auto simp: db_update_where_def split: if_splits)

lemma db_update_where_keys:
  "(\<And>r. key (f r) = key r) \<Longrightarrow> map key (db_update_where P f rows) = map key rows"
  by (auto simp: db_update_where_def)

lemma db_count_update_where_le:
  assumes "\<And>r. r \<in> set rows \<Longrightarrow> P r \<Longrightarrow> Q (f r) \<Longrightarrow> Q r"
  shows "db_count Q (db_update_where P f rows) \<le> db_count Q rows"
  unfolding db_update_where_def by (rule db_count_map_le) (use assms in \<open>auto split: if_splits\<close>)

end
