(* ===== verification/Status.thy ===== *)
theory Status
  imports Prelude
begin

text \<open>
  Task statuses (\<^verbatim>\<open>tasks/status.py\<close>) and the dispatch error taxonomy (\<^verbatim>\<open>tasks/errors.py\<close>).
  The status column only ever holds the seven constants of the module, so it is a datatype with
  \<open>status_text\<close> giving the stored string; a status reported by a worker is an arbitrary string.
  An upstream status payload is a JSON object whose four keys of interest may be absent: the outer
  option is presence of the key, the inner one \<open>null\<close>.
\<close>

section \<open>Definitions\<close>

datatype task_status =
    TASK_QUEUED | TASK_DISPATCHING | TASK_PROCESSING | TASK_STORING_RESULT
  | TASK_COMPLETED | TASK_FAILED | TASK_EXPIRED

fun status_text :: "task_status \<Rightarrow> string" where
  "status_text TASK_QUEUED = ''queued''"
| "status_text TASK_DISPATCHING = ''dispatching''"
| "status_text TASK_PROCESSING = ''processing''"
| "status_text TASK_STORING_RESULT = ''storing_result''"
| "status_text TASK_COMPLETED = ''completed''"
| "status_text TASK_FAILED = ''failed''"
| "status_text TASK_EXPIRED = ''expired''"

definition TASK_STATUSES_TERMINAL :: "task_status set" where
  "TASK_STATUSES_TERMINAL = {TASK_COMPLETED, TASK_FAILED, TASK_EXPIRED}"

definition TASK_STATUSES_AUTOSCALE_DEMAND :: "task_status set" where
  "TASK_STATUSES_AUTOSCALE_DEMAND = {TASK_QUEUED, TASK_DISPATCHING, TASK_PROCESSING}"

definition TASK_STATUSES_COMPUTE_CAPACITY :: "task_status set" where
  "TASK_STATUSES_COMPUTE_CAPACITY = {TASK_DISPATCHING, TASK_PROCESSING}"

definition TASK_STATUSES_DRAIN_BLOCKERS :: "task_status set" where
  "TASK_STATUSES_DRAIN_BLOCKERS = {TASK_DISPATCHING, TASK_PROCESSING, TASK_STORING_RESULT}"

definition UPSTREAM_ACCEPTED_NONTERMINAL :: "string set" where
  "UPSTREAM_ACCEPTED_NONTERMINAL = {''queued'', ''pending'', ''processing''}"

definition UPSTREAM_TO_INTERNAL :: "(string \<times> task_status) list" where
  "UPSTREAM_TO_INTERNAL =
    [(''completed'', TASK_COMPLETED),
     (''failed'', TASK_FAILED),
     (''expired'', TASK_EXPIRED),
     (status_text TASK_DISPATCHING, TASK_DISPATCHING),
     (status_text TASK_PROCESSING, TASK_PROCESSING),
     (status_text TASK_STORING_RESULT, TASK_STORING_RESULT)]"

definition normalize_upstream_status :: "string option \<Rightarrow> task_status \<Rightarrow> task_status" where
  "normalize_upstream_status status current =
    (case status of
       None \<Rightarrow> current
     | Some s \<Rightarrow>
         (case (if s \<in> UPSTREAM_ACCEPTED_NONTERMINAL then Some TASK_PROCESSING
                else map_of UPSTREAM_TO_INTERNAL s) of
            None \<Rightarrow> current
          | Some mapped \<Rightarrow>
              if current \<in> {TASK_PROCESSING, TASK_DISPATCHING, TASK_STORING_RESULT}
                 \<and> mapped \<in> {TASK_QUEUED, TASK_DISPATCHING}
              then current else mapped))"

record upstream_payload =
  p_status :: "string option option"
  p_backend :: "string option"
  p_file_names :: "string list option"
  p_error :: "string option option"

record task_updates =
  u_status :: "task_status option"
  u_backend :: "string option"
  u_file_names :: "string list option"
  u_error :: "string option option"

definition apply_upstream_payload :: "task_status \<Rightarrow> upstream_payload \<Rightarrow> task_updates" where
  "apply_upstream_payload row_status payload =
    \<lparr>u_status = map_option (\<lambda>s. normalize_upstream_status s row_status) (p_status payload),
     u_backend = p_backend payload,
     u_file_names = p_file_names payload,
     u_error = p_error payload\<rparr>"

text \<open>
  Exceptions as far as the code distinguishes them, with the text \<open>str(exc)\<close> shows: an HTTP status
  error, a transport error (timeout, connect, remote protocol, OS), a missing key, a classified
  cloud error (\<^verbatim>\<open>cloud/errors.py\<close>), and any other exception with its \<open>status_code\<close>
  attribute, if it has one.
\<close>

datatype CloudErrorCategory =
    CAT_RETRYABLE | CAT_NOT_FOUND | CAT_AUTH | CAT_QUOTA | CAT_INVALID_ID | CAT_TERMINAL | CAT_UNKNOWN

fun category_text :: "CloudErrorCategory \<Rightarrow> string" where
  "category_text CAT_RETRYABLE = ''retryable''"
| "category_text CAT_NOT_FOUND = ''not_found''"
| "category_text CAT_AUTH = ''auth''"
| "category_text CAT_QUOTA = ''quota''"
| "category_text CAT_INVALID_ID = ''invalid_id''"
| "category_text CAT_TERMINAL = ''terminal''"
| "category_text CAT_UNKNOWN = ''unknown''"

datatype exc =
    HTTPStatusError int string
  | TransportError string
  | KeyError string
  | CloudError CloudErrorCategory string string bool
  | OtherException "int option" string

fun exc_str :: "exc \<Rightarrow> string" where
  "exc_str (HTTPStatusError _ msg) = msg"
| "exc_str (TransportError msg) = msg"
| "exc_str (KeyError msg) = msg"
| "exc_str (CloudError category code msg _) = category_text category @ '':'' @ code @ '': '' @ msg"
| "exc_str (OtherException _ msg) = msg"

datatype ErrorClass = INFRA | CONTENT

definition status_class :: "int \<Rightarrow> ErrorClass" where
  "status_class status = (if 400 \<le> status \<and> status < 500 \<and> status \<noteq> 429 then CONTENT else INFRA)"

fun classify_error :: "exc \<Rightarrow> ErrorClass" where
  "classify_error (HTTPStatusError status _) = status_class status"
| "classify_error (TransportError _) = INFRA"
| "classify_error (OtherException (Some status_code) _) = status_class status_code"
| "classify_error (OtherException None _) = INFRA"
| "classify_error (KeyError _) = INFRA"
| "classify_error (CloudError _ _ _ _) = INFRA"

definition should_retry :: "exc \<Rightarrow> bool" where
  "should_retry e \<longleftrightarrow> classify_error e = INFRA"

section \<open>Lemmas\<close>

lemmas status_sets =
  TASK_STATUSES_TERMINAL_def TASK_STATUSES_AUTOSCALE_DEMAND_def
  TASK_STATUSES_COMPUTE_CAPACITY_def TASK_STATUSES_DRAIN_BLOCKERS_def

lemma status_text_inj: "status_text a = status_text b \<Longrightarrow> a = b"
  by (cases a; cases b) simp_all

lemma normalize_None [simp]: "normalize_upstream_status None current = current"
  by (simp add: normalize_upstream_status_def)

lemma normalize_cases:
  "normalize_upstream_status s current \<in>
     {current, TASK_PROCESSING, TASK_COMPLETED, TASK_FAILED, TASK_EXPIRED, TASK_STORING_RESULT,
      TASK_DISPATCHING}"
  by (auto simp: normalize_upstream_status_def UPSTREAM_TO_INTERNAL_def
      split: option.splits if_splits)

lemma normalize_not_queued:
  "current \<noteq> TASK_QUEUED \<Longrightarrow> normalize_upstream_status s current \<noteq> TASK_QUEUED"
  using normalize_cases [of s current] by auto

lemma normalize_dispatching:
  "current \<in> TASK_STATUSES_DRAIN_BLOCKERS \<Longrightarrow> normalize_upstream_status s current = TASK_DISPATCHING \<Longrightarrow>
   current = TASK_DISPATCHING"
  by (auto simp: normalize_upstream_status_def status_sets split: option.splits if_splits)

text \<open>A status reported by a worker never moves a task that has been handed to a worker back
  towards the queue: the normalised status is never queued, and it is dispatching only if the task
  was already dispatching.\<close>

lemma normalize_no_regression:
  assumes "current \<in> TASK_STATUSES_DRAIN_BLOCKERS"
  shows "normalize_upstream_status s current \<noteq> TASK_QUEUED
    \<and> (normalize_upstream_status s current = TASK_DISPATCHING \<longleftrightarrow>
       current = TASK_DISPATCHING \<and> (s = None \<or>
         (\<exists>t. s = Some t \<and> (t = ''dispatching'' \<or>
            t \<notin> {''queued'', ''pending'', ''processing'', ''completed'', ''failed'', ''expired'', ''storing_result''}))))"
  using assms
  by (auto simp: normalize_upstream_status_def UPSTREAM_TO_INTERNAL_def
      UPSTREAM_ACCEPTED_NONTERMINAL_def status_sets split: option.splits if_splits)

text \<open>A failed submission is retried on another worker exactly unless the upstream answered with
  a client error other than 429: every other HTTP status, every transport error and every exception
  without a status code is treated as an infrastructure error.\<close>

lemma should_retry_iff:
  "should_retry e \<longleftrightarrow>
     \<not> (\<exists>c m. (e = HTTPStatusError c m \<or> e = OtherException (Some c) m) \<and> c \<in> {400..499} - {429})"
proof (cases e)
  case (OtherException c m)
  then show ?thesis by (cases c) (auto simp: should_retry_def status_class_def)
qed (auto simp: should_retry_def status_class_def)

end
