(* ===== verification/Scaling.thy ===== *)
theory Scaling
  imports Prelude
begin

text \<open>
  The pure capacity calculation of \<^verbatim>\<open>scheduler/scaling.py\<close>. Counts are Python integers. The
  code's \<open>math.ceil(queue_depth / target_per_worker)\<close> goes through a double, which is exact for
  depths below \<open>2^53\<close>; \<open>ceil_div\<close> is the exact ceiling.
\<close>

section \<open>Definitions\<close>

record ScalingInputs =
  in_queue_depth :: int
  in_serviceable_workers :: int
  in_starting_workers :: int
  in_draining_workers :: int
  in_stopping_workers :: int

record ScalingSignal =
  queue_depth :: int
  serviceable_workers :: int
  starting_workers :: int
  draining_workers :: int
  stopping_workers :: int
  desired_workers :: int
  sg_target :: int

definition scaling_in_progress :: "ScalingSignal \<Rightarrow> bool" where
  "scaling_in_progress s \<longleftrightarrow>
     starting_workers s > 0 \<or> draining_workers s > 0 \<or> stopping_workers s > 0"

definition should_scale_up :: "ScalingSignal \<Rightarrow> bool" where
  "should_scale_up s \<longleftrightarrow> serviceable_workers s + starting_workers s < desired_workers s"

definition should_scale_down :: "ScalingSignal \<Rightarrow> bool" where
  "should_scale_down s \<longleftrightarrow> serviceable_workers s > desired_workers s \<and> \<not> scaling_in_progress s"

definition ceil_div :: "int \<Rightarrow> int \<Rightarrow> int" where
  "ceil_div a b = - ((- a) div b)"

definition compute_scaling_signal :: "ScalingInputs \<Rightarrow> int \<Rightarrow> int \<Rightarrow> int \<Rightarrow> ScalingSignal" where
  "compute_scaling_signal inputs target_per_worker min_workers max_workers =
    (let queue_desired = (if in_queue_depth inputs = 0 then 0
                          else ceil_div (in_queue_depth inputs) target_per_worker);
         floor = max queue_desired (if in_queue_depth inputs > 0 then 1 else 0);
         desired = max min_workers (min floor max_workers)
     in \<lparr>queue_depth = in_queue_depth inputs,
         serviceable_workers = in_serviceable_workers inputs,
         starting_workers = in_starting_workers inputs,
         draining_workers = in_draining_workers inputs,
         stopping_workers = in_stopping_workers inputs,
         desired_workers = desired,
         sg_target = target_per_worker\<rparr>)"

section \<open>Lemmas\<close>

lemma ceil_div_bounds:
  assumes "0 < b"
  shows "a \<le> ceil_div a b * b" and "(ceil_div a b - 1) * b < a"
proof -
  define c where "c = (- a) div b"
  have "b * c + (- a) mod b = - a" unfolding c_def by (rule mult_div_mod_eq)
  moreover have "0 \<le> (- a) mod b" "(- a) mod b < b" using assms by simp_all
  ultimately show "a \<le> ceil_div a b * b" and "(ceil_div a b - 1) * b < a"
    unfolding ceil_div_def c_def [symmetric] by (simp_all add: algebra_simps)
qed

lemma ceil_div_pos:
  assumes "0 < b" "0 < a"
  shows "0 < ceil_div a b"
proof (rule ccontr)
  assume "\<not> 0 < ceil_div a b"
  then have "ceil_div a b * b \<le> 0" using assms by (simp add: mult_nonpos_nonneg)
  then show False using ceil_div_bounds(1) [OF assms(1), of a] assms by linarith
qed

lemma desired_workers_eq:
  assumes "0 < t" and "0 \<le> in_queue_depth i"
  shows "desired_workers (compute_scaling_signal i t lo hi) =
           max lo (min (ceil_div (in_queue_depth i) t) hi)"
  using assms ceil_div_pos [of t "in_queue_depth i"]
  by (auto simp: compute_scaling_signal_def Let_def ceil_div_def)

lemma scale_directions_exclusive:
  "0 \<le> starting_workers s \<Longrightarrow> should_scale_up s \<Longrightarrow> \<not> should_scale_down s"
  by (auto simp: should_scale_up_def should_scale_down_def)

text \<open>C38: With a valid scaling configuration the desired capacity stays within the configured bounds,
  it is enough for the queue unless the upper bound caps it, and it is the least such number: one
  worker fewer would already leave more than \<open>target_per_worker\<close> tasks for some worker, unless the
  lower bound holds it up.\<close>

theorem desired_workers_optimal:
  assumes "0 < t" and "lo \<le> hi" and "0 \<le> in_queue_depth i"
  shows "let d = desired_workers (compute_scaling_signal i t lo hi) in
    lo \<le> d \<and> d \<le> hi
    \<and> (d < hi \<longrightarrow> in_queue_depth i \<le> d * t)
    \<and> (lo < d \<longrightarrow> (d - 1) * t < in_queue_depth i)"
proof -
  define q where "q = in_queue_depth i"
  define c where "c = ceil_div q t"
  have d: "desired_workers (compute_scaling_signal i t lo hi) = max lo (min c hi)"
    using assms by (simp add: desired_workers_eq c_def q_def)
  have up: "q \<le> c * t" and low: "(c - 1) * t < q"
    using ceil_div_bounds [OF assms(1), of q] by (simp_all add: c_def)
  have "q \<le> max lo (min c hi) * t" if "max lo (min c hi) < hi"
  proof -
    have "c \<le> max lo (min c hi)" using that by auto
    then have "c * t \<le> max lo (min c hi) * t" using assms(1) by simp
    then show ?thesis using up by linarith
  qed
  moreover have "(max lo (min c hi) - 1) * t < q" if "lo < max lo (min c hi)"
  proof -
    have "max lo (min c hi) - 1 \<le> c - 1" using that by auto
    then have "(max lo (min c hi) - 1) * t \<le> (c - 1) * t" using assms(1) by simp
    then show ?thesis using low by linarith
  qed
  ultimately show ?thesis
    using assms(2) unfolding Let_def d q_def by auto
qed

theorem desired_workers_optimal_witness:
  "let d = desired_workers (compute_scaling_signal
       \<lparr>in_queue_depth = 9, in_serviceable_workers = 1, in_starting_workers = 0,
        in_draining_workers = 0, in_stopping_workers = 0\<rparr> 4 0 12) in
    0 \<le> d \<and> d \<le> 12 \<and> 9 \<le> d * 4 \<and> (d - 1) * 4 < 9 \<and> d = 3"
  using desired_workers_optimal [of 4 0 12 "\<lparr>in_queue_depth = 9, in_serviceable_workers = 1,
      in_starting_workers = 0, in_draining_workers = 0, in_stopping_workers = 0\<rparr>"]
  by (simp add: compute_scaling_signal_def ceil_div_def)

end
