(* ===== verification/Config.thy ===== *)
theory Config
  imports Prelude
begin

text \<open>
  The settings tree of \<^verbatim>\<open>config.py\<close>: one record per nested pydantic model with the source's
  defaults, and its \<open>model_validator\<close> as a function to an error message or the settings.
  Integer fields are Python integers; the float fields that become a \<open>timedelta\<close> are kept as a
  duration in microseconds. A value of \<open>gateway_settings\<close> here is what the sources of the theory
  \<open>Settings\<close> (command line, environment, YAML, defaults) deliver to the validators.
\<close>

section \<open>Definitions\<close>

text \<open>Strings are sequences of code points below 256; white space as \<open>str.strip\<close> sees it.\<close>

definition py_isspace :: "char \<Rightarrow> bool" where
  "py_isspace c \<longleftrightarrow> (let n = (of_char c :: nat) in
     (9 \<le> n \<and> n \<le> 13) \<or> (28 \<le> n \<and> n \<le> 32) \<or> n = 133 \<or> n = 160)"

definition py_strip :: "string \<Rightarrow> string" where
  "py_strip s = rev (dropWhile py_isspace (rev (dropWhile py_isspace s)))"

definition py_lower_char :: "char \<Rightarrow> char" where
  "py_lower_char c = (let n = (of_char c :: nat) in
     if (65 \<le> n \<and> n \<le> 90) \<or> (192 \<le> n \<and> n \<le> 222 \<and> n \<noteq> 215) then char_of (n + 32) else c)"

definition py_lower :: "string \<Rightarrow> string" where
  "py_lower s = map py_lower_char s"

definition MAX_FILE_SIZE_HARD_BYTES :: int where
  "MAX_FILE_SIZE_HARD_BYTES = 1024 * 1024 * 1024"

record aws_cloud_config =
  aws_region :: string
  aws_launch_template_id :: "string option"
  aws_launch_template_version :: string
  aws_bucket :: string
  aws_endpoint_url :: "string option"
  aws_ec2_endpoint_url :: "string option"

record scaling_config =
  target_per_worker :: int
  min_workers :: int
  max_workers :: int
  idle_cooldown_seconds :: int
  scale_up_cooldown_seconds :: int

record reconciliation_config =
  launch_readiness_timeout_seconds :: int
  max_failure_count :: int
  stalled_worker_grace_seconds :: int

record retention_config =
  retention_days :: int
  cleanup_interval :: time

record cache_config =
  cache_enabled :: bool
  cache_ttl_seconds :: int
  sweeper_interval_seconds :: int

record rotation_config =
  rotation_interval_seconds :: int
  readiness_timeout_seconds :: int

record scheduler_config =
  dispatch_poll_interval :: time
  reconcile_poll_interval :: time

record cloud_config =
  cloud_provider :: string
  cloud_aws :: aws_cloud_config

record attribution_config =
  attribution_enabled :: bool
  powered_by_header :: string
  version_header :: string

record auth_config =
  auth_enabled :: bool
  auth_api_key :: "string option"

record otel_config =
  otel_enabled :: bool
  otel_endpoint :: "string option"
  service_name :: string
  scheduler_service_name :: string
  metrics_export_interval_seconds :: int

record gateway_settings =
  deployment_id :: string
  database_url :: string
  host :: string
  port :: int
  log_level :: string
  max_file_size_bytes :: int
  task_sla_seconds :: int
  cloud_workers_enabled :: bool
  scaling :: scaling_config
  reconciliation :: reconciliation_config
  retention :: retention_config
  cache :: cache_config
  cloud :: cloud_config
  rotation :: rotation_config
  scheduler :: scheduler_config
  attribution :: attribution_config
  auth :: auth_config
  otel :: otel_config

definition default_aws :: aws_cloud_config where
  "default_aws = \<lparr>aws_region = ''us-east-1'', aws_launch_template_id = None,
     aws_launch_template_version = ''$Latest'', aws_bucket = ''mineru-results'',
     aws_endpoint_url = None, aws_ec2_endpoint_url = None\<rparr>"

definition default_scaling :: scaling_config where
  "default_scaling = \<lparr>target_per_worker = 4, min_workers = 0, max_workers = 12,
     idle_cooldown_seconds = 300, scale_up_cooldown_seconds = 60\<rparr>"

definition default_reconciliation :: reconciliation_config where
  "default_reconciliation = \<lparr>launch_readiness_timeout_seconds = 1800, max_failure_count = 8,
     stalled_worker_grace_seconds = 900\<rparr>"

definition default_retention :: retention_config where
  "default_retention = \<lparr>retention_days = 30, cleanup_interval = seconds 3600\<rparr>"

definition default_cache :: cache_config where
  "default_cache = \<lparr>cache_enabled = True, cache_ttl_seconds = 604800, sweeper_interval_seconds = 600\<rparr>"

definition default_rotation :: rotation_config where
  "default_rotation = \<lparr>rotation_interval_seconds = 604800, readiness_timeout_seconds = 1800\<rparr>"

definition default_scheduler :: scheduler_config where
  "default_scheduler = \<lparr>dispatch_poll_interval = 500000, reconcile_poll_interval = seconds 15\<rparr>"

definition default_attribution :: attribution_config where
  "default_attribution = \<lparr>attribution_enabled = True, powered_by_header = ''MinerU'',
     version_header = ''MinerU-Version''\<rparr>"

definition default_otel :: otel_config where
  "default_otel = \<lparr>otel_enabled = False, otel_endpoint = None, service_name = ''mineru-gateway'',
     scheduler_service_name = ''mineru-scheduler'', metrics_export_interval_seconds = 60\<rparr>"

definition default_settings :: gateway_settings where
  "default_settings = \<lparr>deployment_id = ''dev-local'',
     database_url = ''sqlite+aiosqlite:///./gateway.db'', host = ''127.0.0.1'',
     port = 8000, log_level = ''INFO'',
     max_file_size_bytes = 0, task_sla_seconds = 3600, cloud_workers_enabled = False,
     scaling = default_scaling, reconciliation = default_reconciliation,
     retention = default_retention, cache = default_cache,
     cloud = \<lparr>cloud_provider = ''aws'', cloud_aws = default_aws\<rparr>,
     rotation = default_rotation, scheduler = default_scheduler,
     attribution = default_attribution,
     auth = \<lparr>auth_enabled = False, auth_api_key = None\<rparr>,
     otel = default_otel\<rparr>"

definition validate_scaling :: "scaling_config \<Rightarrow> string + scaling_config" where
  "validate_scaling c =
    (if target_per_worker c \<le> 0 then Inl ''scaling.target_per_worker must be > 0''
     else if min_workers c < 0 then Inl ''scaling.min_workers must be >= 0''
     else if max_workers c < 0 then Inl ''scaling.max_workers must be >= 0''
     else if min_workers c > max_workers c then Inl ''scaling.min_workers must be <= max_workers''
     else Inr c)"

definition validate_reconciliation :: "reconciliation_config \<Rightarrow> string + reconciliation_config" where
  "validate_reconciliation c =
    (if launch_readiness_timeout_seconds c \<le> 0
     then Inl ''reconciliation.launch_readiness_timeout_seconds must be > 0''
     else if max_failure_count c \<le> 0 then Inl ''reconciliation.max_failure_count must be > 0''
     else if stalled_worker_grace_seconds c \<le> 0
     then Inl ''reconciliation.stalled_worker_grace_seconds must be > 0''
     else Inr c)"

definition validate_retention :: "retention_config \<Rightarrow> string + retention_config" where
  "validate_retention c =
    (if retention_days c \<le> 0 then Inl ''retention.retention_days must be > 0''
     else if cleanup_interval c \<le> 0 then Inl ''retention.cleanup_interval_seconds must be > 0''
     else Inr c)"

definition validate_rotation :: "rotation_config \<Rightarrow> string + rotation_config" where
  "validate_rotation c =
    (if rotation_interval_seconds c \<le> 0 then Inl ''rotation.interval_seconds must be > 0''
     else if readiness_timeout_seconds c \<le> 0
     then Inl ''rotation.readiness_timeout_seconds must be > 0''
     else Inr c)"

definition validate_scheduler :: "scheduler_config \<Rightarrow> string + scheduler_config" where
  "validate_scheduler c =
    (if dispatch_poll_interval c \<le> 0
     then Inl ''scheduler.dispatch_poll_interval_seconds must be > 0''
     else if reconcile_poll_interval c \<le> 0
     then Inl ''scheduler.reconcile_poll_interval_seconds must be > 0''
     else Inr c)"

definition normalize_provider :: "string option \<Rightarrow> string + string" where
  "normalize_provider v =
    (case v of
       None \<Rightarrow> Inr ''aws''
     | Some p \<Rightarrow> (let provider = py_lower p in
         if provider \<noteq> ''aws'' then Inl ''Only cloud.provider='aws' is supported''
         else Inr provider))"

definition object_store_bucket :: "cloud_config \<Rightarrow> string option" where
  "object_store_bucket c = (if aws_bucket (cloud_aws c) \<noteq> [] then Some (aws_bucket (cloud_aws c)) else None)"

definition is_object_store_configured :: "cloud_config \<Rightarrow> bool" where
  "is_object_store_configured c = truthy (object_store_bucket c)"

definition launch_template :: "cloud_config \<Rightarrow> string option \<times> string \<times> string" where
  "launch_template c =
    (aws_launch_template_id (cloud_aws c), aws_launch_template_version (cloud_aws c),
     aws_region (cloud_aws c))"

definition validate_auth :: "auth_config \<Rightarrow> string + auth_config" where
  "validate_auth c =
    (if auth_enabled c \<and> \<not> truthy (auth_api_key c)
     then Inl ''auth.api_key is required when auth.enabled is true'' else Inr c)"

definition resolved_keys :: "auth_config \<Rightarrow> string list" where
  "resolved_keys c = (case auth_api_key c of Some k \<Rightarrow> (if k \<noteq> [] then [k] else []) | None \<Rightarrow> [])"

definition validate_deployment_and_cloud :: "gateway_settings \<Rightarrow> string + gateway_settings" where
  "validate_deployment_and_cloud s =
    (if py_strip (deployment_id s) = [] then Inl ''deployment_id is required''
     else if max_file_size_bytes s < 0 then Inl ''max_file_size_bytes must be >= 0''
     else if max_file_size_bytes s > MAX_FILE_SIZE_HARD_BYTES
     then Inl ''max_file_size_bytes cannot exceed hard limit of 1073741824''
     else if cloud_workers_enabled s \<and> cloud_provider (cloud s) = ''aws''
             \<and> \<not> truthy (aws_launch_template_id (cloud_aws (cloud s)))
     then Inl ''cloud.aws.launch_template_id is required when cloud workers are enabled''
     else if \<not> truthy (object_store_bucket (cloud s))
     then Inl (''cloud.'' @ cloud_provider (cloud s) @ '' bucket/container name is required'')
     else Inr s)"

text \<open>Pydantic validates the nested models before the model that holds them; the first failing
  validator rejects the settings.\<close>

definition validate_settings :: "gateway_settings \<Rightarrow> string + gateway_settings" where
  "validate_settings s =
    (case validate_scaling (scaling s) of Inl e \<Rightarrow> Inl e | Inr _ \<Rightarrow>
     (case validate_reconciliation (reconciliation s) of Inl e \<Rightarrow> Inl e | Inr _ \<Rightarrow>
     (case validate_retention (retention s) of Inl e \<Rightarrow> Inl e | Inr _ \<Rightarrow>
     (case normalize_provider (Some (cloud_provider (cloud s))) of Inl e \<Rightarrow> Inl e | Inr p \<Rightarrow>
     (case validate_rotation (rotation s) of Inl e \<Rightarrow> Inl e | Inr _ \<Rightarrow>
     (case validate_scheduler (scheduler s) of Inl e \<Rightarrow> Inl e | Inr _ \<Rightarrow>
     (case validate_auth (auth s) of Inl e \<Rightarrow> Inl e | Inr _ \<Rightarrow>
        validate_deployment_and_cloud (s\<lparr>cloud := (cloud s)\<lparr>cloud_provider := p\<rparr>\<rparr>))))))))"

section \<open>Lemmas\<close>

lemmas validators =
  validate_scaling_def validate_reconciliation_def validate_retention_def validate_rotation_def
  validate_scheduler_def validate_auth_def validate_deployment_and_cloud_def normalize_provider_def

lemma validate_scaling_ok:
  "validate_scaling c = Inr c' \<longleftrightarrow>
     c' = c \<and> 0 < target_per_worker c \<and> 0 \<le> min_workers c \<and> min_workers c \<le> max_workers c"
  by (auto simp: validate_scaling_def)

lemma validate_settings_scaling:
  assumes "validate_settings s = Inr s'"
  shows "0 < target_per_worker (scaling s')" "0 \<le> min_workers (scaling s')"
    "min_workers (scaling s') \<le> max_workers (scaling s')"
  using assms
  by (auto simp: validate_settings_def validate_deployment_and_cloud_def validate_scaling_ok
      split: sum.splits if_splits)

lemma validate_settings_reconciliation:
  assumes "validate_settings s = Inr s'"
  shows "0 < max_failure_count (reconciliation s')"
  using assms
  by (auto simp: validate_settings_def validate_deployment_and_cloud_def validate_reconciliation_def
      split: sum.splits if_splits)

text \<open>Settings that pass validation are usable by every component: the scaling bounds are ordered
  with a positive target, every interval and limit is positive, the upload limit lies within the
  hard cap, the provider is the supported one, a bucket is named, an enabled authentication has a
  key, and enabled cloud workers have a launch template.\<close>

lemma validate_settings_sound:
  assumes "validate_settings s = Inr s'"
  shows "0 < target_per_worker (scaling s') \<and> 0 \<le> min_workers (scaling s')
      \<and> min_workers (scaling s') \<le> max_workers (scaling s')
      \<and> 0 < max_failure_count (reconciliation s')
      \<and> 0 < launch_readiness_timeout_seconds (reconciliation s')
      \<and> 0 < stalled_worker_grace_seconds (reconciliation s')
      \<and> 0 < retention_days (retention s') \<and> 0 < cleanup_interval (retention s')
      \<and> 0 < rotation_interval_seconds (rotation s') \<and> 0 < readiness_timeout_seconds (rotation s')
      \<and> 0 < dispatch_poll_interval (scheduler s') \<and> 0 < reconcile_poll_interval (scheduler s')
      \<and> 0 \<le> max_file_size_bytes s' \<and> max_file_size_bytes s' \<le> MAX_FILE_SIZE_HARD_BYTES
      \<and> cloud_provider (cloud s') = ''aws'' \<and> is_object_store_configured (cloud s')
      \<and> (auth_enabled (auth s') \<longrightarrow> resolved_keys (auth s') \<noteq> [])
      \<and> (cloud_workers_enabled s' \<longrightarrow> truthy (fst (launch_template (cloud s'))))"
proof -
  from assms obtain p where p: "p = ''aws''"
    and s': "validate_deployment_and_cloud (s\<lparr>cloud := (cloud s)\<lparr>cloud_provider := p\<rparr>\<rparr>) = Inr s'"
    and nested: "validate_scaling (scaling s) = Inr (scaling s)"
      "validate_reconciliation (reconciliation s) = Inr (reconciliation s)"
      "validate_retention (retention s) = Inr (retention s)"
      "validate_rotation (rotation s) = Inr (rotation s)"
      "validate_scheduler (scheduler s) = Inr (scheduler s)"
      "validate_auth (auth s) = Inr (auth s)"
    by (auto simp: validate_settings_def validators Let_def split: sum.splits if_splits)
  from s' have eq: "s' = s\<lparr>cloud := (cloud s)\<lparr>cloud_provider := p\<rparr>\<rparr>"
    by (auto simp: validate_deployment_and_cloud_def split: if_splits)
  from s' have top: "0 \<le> max_file_size_bytes s'" "max_file_size_bytes s' \<le> MAX_FILE_SIZE_HARD_BYTES"
      "is_object_store_configured (cloud s')"
      "cloud_workers_enabled s' \<longrightarrow> truthy (fst (launch_template (cloud s')))"
    using p eq by (auto simp: validate_deployment_and_cloud_def is_object_store_configured_def
        launch_template_def split: if_splits)
  have "auth_enabled (auth s') \<longrightarrow> resolved_keys (auth s') \<noteq> []"
    using nested(6) eq
    by (auto simp: validate_auth_def resolved_keys_def truthy_Some split: if_splits option.splits)
  with top nested p eq show ?thesis
    by (auto simp: validate_scaling_def validate_reconciliation_def validate_retention_def
        validate_rotation_def validate_scheduler_def split: if_splits)
qed

end
