(* ===== verification/Models.thy ===== *)
theory Models
  imports Status Config
begin

text \<open>
  The ORM models of \<^verbatim>\<open>db/models.py\<close> and the vendor-neutral cloud types of
  \<^verbatim>\<open>cloud/types.py\<close>. A record per table, columns in the order of the source with a table prefix;
  a nullable column is an option. \<open>new_task\<close>, \<open>new_worker\<close> and \<open>new_cache_entry\<close> are a
  constructor call with only the primary key given, so they carry the column defaults.
  \<open>save_task\<close> and \<open>save_worker\<close> are an ORM flush: a row whose columns changed is written with
  \<open>updated_at\<close> renewed (\<open>onupdate\<close>), an unchanged row is not written.
  All clock readings inside one repository operation are the operation's argument \<open>now\<close>.
\<close>

section \<open>Definitions\<close>

datatype InstanceState = RUNNING | SUSPENDED | STARTING | STOPPING | TERMINATING | TERMINATED | UNKNOWN

datatype cloud_state =
    CLOUD_STATE_PENDING | CLOUD_STATE_RUNNING | CLOUD_STATE_STOPPING | CLOUD_STATE_TERMINATING
  | CLOUD_STATE_STOPPED | CLOUD_STATE_TERMINATED | CLOUD_STATE_UNKNOWN

fun cloud_state_from_instance :: "InstanceState \<Rightarrow> cloud_state" where
  "cloud_state_from_instance RUNNING = CLOUD_STATE_RUNNING"
| "cloud_state_from_instance SUSPENDED = CLOUD_STATE_STOPPED"
| "cloud_state_from_instance STARTING = CLOUD_STATE_PENDING"
| "cloud_state_from_instance STOPPING = CLOUD_STATE_STOPPING"
| "cloud_state_from_instance TERMINATING = CLOUD_STATE_TERMINATING"
| "cloud_state_from_instance TERMINATED = CLOUD_STATE_TERMINATED"
| "cloud_state_from_instance UNKNOWN = CLOUD_STATE_UNKNOWN"

definition TAG_MANAGED :: string where "TAG_MANAGED = ''mineru-gateway-managed''"
definition TAG_DEPLOYMENT :: string where "TAG_DEPLOYMENT = ''mineru-gateway-deployment''"
definition TAG_WORKER_ID :: string where "TAG_WORKER_ID = ''mineru-gateway-worker-id''"
definition TAG_ROLE :: string where "TAG_ROLE = ''mineru-gateway-role''"
definition TAG_ROLE_WORKER :: string where "TAG_ROLE_WORKER = ''worker''"

record DiscoveredInstance =
  di_instance_id :: string
  di_worker_id :: "string option"
  di_state :: InstanceState
  di_tags :: "(string \<times> string) list"

text \<open>A form option is a string or, for repeated fields, a list of strings.\<close>

datatype opt_value = OStr string | OList "string list"

record worker =
  w_id :: string
  w_provider :: string
  w_deployment_id :: string
  w_instance_id :: "string option"
  w_base_url :: "string option"
  w_generation :: int
  w_desired_state :: cloud_state
  w_cloud_state :: cloud_state
  w_healthy :: bool
  w_draining :: bool
  w_drain_target :: "cloud_state option"
  w_replacement_for :: "string option"
  w_rotation_requested :: bool
  w_failure_count :: int
  w_retry_after :: "time option"
  w_stalled_at :: "time option"
  w_last_error :: "string option"
  w_provisioning_detail :: "string option"
  w_ready_at :: "time option"
  w_start_requested_at :: "time option"
  w_last_active_at :: "time option"
  w_last_health_checked_at :: "time option"
  w_terminated_at :: "time option"
  w_created_at :: time
  w_updated_at :: time

record task =
  t_task_id :: string
  t_worker_id :: "string option"
  t_upstream_task_id :: "string option"
  t_upstream_base_url :: "string option"
  t_backend :: string
  t_parse_method :: string
  t_file_names :: "string list"
  t_source :: string
  t_status :: task_status
  t_payload_key :: "string option"
  t_result_key :: "string option"
  t_result_format :: "string option"
  t_cache_key :: "string option"
  t_error :: "string option"
  t_options_blob :: "(string \<times> opt_value) list option"
  t_dispatch_started_at :: "time option"
  t_next_poll_at :: "time option"
  t_client_expired_at :: "time option"
  t_created_at :: time
  t_started_at :: "time option"
  t_completed_at :: "time option"
  t_updated_at :: time

record cache_entry =
  c_cache_key :: string
  c_content_sha256 :: string
  c_options_hash :: string
  c_backend :: string
  c_parse_method :: string
  c_effort :: string
  c_object_key :: "string option"
  c_object_generation :: int
  c_result_format :: "string option"
  c_size_bytes :: "int option"
  c_hit_count :: int
  c_expires_at :: "time option"
  c_created_at :: time

record scaling_event =
  ev_worker_id :: "string option"
  ev_action :: string
  ev_reason :: string
  ev_triggered_by :: string
  ev_requester :: "string option"
  ev_created_at :: time

text \<open>The database: the four tables. Scaling events are append-only; their autoincrement key is the
  position in the list.\<close>

record db =
  db_workers :: "worker list"
  db_tasks :: "task list"
  db_cache :: "cache_entry list"
  db_events :: "scaling_event list"

definition empty_db :: db where
  "empty_db = \<lparr>db_workers = [], db_tasks = [], db_cache = [], db_events = []\<rparr>"

definition new_worker :: "string \<Rightarrow> string \<Rightarrow> string \<Rightarrow> time \<Rightarrow> worker" where
  "new_worker wid provider deployment now = \<lparr>
     w_id = wid, w_provider = provider, w_deployment_id = deployment,
     w_instance_id = None, w_base_url = None, w_generation = 0,
     w_desired_state = CLOUD_STATE_STOPPED, w_cloud_state = CLOUD_STATE_UNKNOWN,
     w_healthy = False, w_draining = False, w_drain_target = None, w_replacement_for = None,
     w_rotation_requested = False, w_failure_count = 0, w_retry_after = None, w_stalled_at = None,
     w_last_error = None, w_provisioning_detail = None, w_ready_at = None,
     w_start_requested_at = None, w_last_active_at = None, w_last_health_checked_at = None,
     w_terminated_at = None, w_created_at = now, w_updated_at = now\<rparr>"

definition new_task :: "string \<Rightarrow> time \<Rightarrow> task" where
  "new_task tid now = \<lparr>
     t_task_id = tid, t_worker_id = None, t_upstream_task_id = None, t_upstream_base_url = None,
     t_backend = ''hybrid-engine'', t_parse_method = ''auto'', t_file_names = [],
     t_source = ''tasks'', t_status = TASK_QUEUED, t_payload_key = None, t_result_key = None,
     t_result_format = None, t_cache_key = None, t_error = None, t_options_blob = None,
     t_dispatch_started_at = None, t_next_poll_at = None, t_client_expired_at = None,
     t_created_at = now, t_started_at = None, t_completed_at = None, t_updated_at = now\<rparr>"

definition save_task :: "time \<Rightarrow> (task \<Rightarrow> task) \<Rightarrow> task \<Rightarrow> task" where
  "save_task now f r = (let r' = f r in if r' = r then r else r'\<lparr>t_updated_at := now\<rparr>)"

definition save_worker :: "time \<Rightarrow> (worker \<Rightarrow> worker) \<Rightarrow> worker \<Rightarrow> worker" where
  "save_worker now f r = (let r' = f r in if r' = r then r else r'\<lparr>w_updated_at := now\<rparr>)"

definition get_task :: "string \<Rightarrow> db \<Rightarrow> task option" where
  "get_task tid d = db_get t_task_id tid (db_tasks d)"

definition get_worker_row :: "string \<Rightarrow> db \<Rightarrow> worker option" where
  "get_worker_row wid d = db_get w_id wid (db_workers d)"

definition get_cache_row :: "string \<Rightarrow> db \<Rightarrow> cache_entry option" where
  "get_cache_row ck d = db_get c_cache_key ck (db_cache d)"

definition upd_task :: "time \<Rightarrow> string \<Rightarrow> (task \<Rightarrow> task) \<Rightarrow> db \<Rightarrow> db" where
  "upd_task now tid f d = d\<lparr>db_tasks := db_update t_task_id tid (save_task now f) (db_tasks d)\<rparr>"

definition upd_worker :: "time \<Rightarrow> string \<Rightarrow> (worker \<Rightarrow> worker) \<Rightarrow> db \<Rightarrow> db" where
  "upd_worker now wid f d = d\<lparr>db_workers := db_update w_id wid (save_worker now f) (db_workers d)\<rparr>"

definition upd_cache :: "string \<Rightarrow> (cache_entry \<Rightarrow> cache_entry) \<Rightarrow> db \<Rightarrow> db" where
  "upd_cache ck f d = d\<lparr>db_cache := db_update c_cache_key ck f (db_cache d)\<rparr>"

definition add_event :: "scaling_event \<Rightarrow> db \<Rightarrow> db" where
  "add_event e d = d\<lparr>db_events := db_events d @ [e]\<rparr>"

text \<open>Well-formed database: primary keys are unique.\<close>

definition db_wf :: "db \<Rightarrow> bool" where
  "db_wf d \<longleftrightarrow> distinct (map w_id (db_workers d)) \<and> distinct (map t_task_id (db_tasks d))
     \<and> distinct (map c_cache_key (db_cache d))"

section \<open>Interpretations and lemmas\<close>

interpretation task_table: keyed_table t_task_id "db_get t_task_id" "db_update t_task_id"
  "db_insert t_task_id" "db_delete t_task_id" "\<lambda>rows. distinct (map t_task_id rows)"
  by (rule keyed_table_db)

interpretation worker_table: keyed_table w_id "db_get w_id" "db_update w_id"
  "db_insert w_id" "db_delete w_id" "\<lambda>rows. distinct (map w_id rows)"
  by (rule keyed_table_db)

interpretation cache_table: keyed_table c_cache_key "db_get c_cache_key" "db_update c_cache_key"
  "db_insert c_cache_key" "db_delete c_cache_key" "\<lambda>rows. distinct (map c_cache_key rows)"
  by (rule keyed_table_db)

lemma save_task_fields [simp, row_simps]:
  "t_task_id (save_task now f r) = t_task_id (f r)"
  "t_worker_id (save_task now f r) = t_worker_id (f r)"
  "t_upstream_task_id (save_task now f r) = t_upstream_task_id (f r)"
  "t_upstream_base_url (save_task now f r) = t_upstream_base_url (f r)"
  "t_backend (save_task now f r) = t_backend (f r)"
  "t_parse_method (save_task now f r) = t_parse_method (f r)"
  "t_file_names (save_task now f r) = t_file_names (f r)"
  "t_source (save_task now f r) = t_source (f r)"
  "t_status (save_task now f r) = t_status (f r)"
  "t_payload_key (save_task now f r) = t_payload_key (f r)"
  "t_result_key (save_task now f r) = t_result_key (f r)"
  "t_result_format (save_task now f r) = t_result_format (f r)"
  "t_cache_key (save_task now f r) = t_cache_key (f r)"
  "t_error (save_task now f r) = t_error (f r)"
  "t_options_blob (save_task now f r) = t_options_blob (f r)"
  "t_dispatch_started_at (save_task now f r) = t_dispatch_started_at (f r)"
  "t_next_poll_at (save_task now f r) = t_next_poll_at (f r)"
  "t_client_expired_at (save_task now f r) = t_client_expired_at (f r)"
  "t_created_at (save_task now f r) = t_created_at (f r)"
  "t_started_at (save_task now f r) = t_started_at (f r)"
  "t_completed_at (save_task now f r) = t_completed_at (f r)"
  by (simp_all add: save_task_def Let_def)

lemma save_worker_fields [simp, row_simps]:
  "w_id (save_worker now f r) = w_id (f r)"
  "w_provider (save_worker now f r) = w_provider (f r)"
  "w_deployment_id (save_worker now f r) = w_deployment_id (f r)"
  "w_instance_id (save_worker now f r) = w_instance_id (f r)"
  "w_base_url (save_worker now f r) = w_base_url (f r)"
  "w_generation (save_worker now f r) = w_generation (f r)"
  "w_desired_state (save_worker now f r) = w_desired_state (f r)"
  "w_cloud_state (save_worker now f r) = w_cloud_state (f r)"
  "w_healthy (save_worker now f r) = w_healthy (f r)"
  "w_draining (save_worker now f r) = w_draining (f r)"
  "w_drain_target (save_worker now f r) = w_drain_target (f r)"
  "w_replacement_for (save_worker now f r) = w_replacement_for (f r)"
  "w_rotation_requested (save_worker now f r) = w_rotation_requested (f r)"
  "w_failure_count (save_worker now f r) = w_failure_count (f r)"
  "w_retry_after (save_worker now f r) = w_retry_after (f r)"
  "w_stalled_at (save_worker now f r) = w_stalled_at (f r)"
  "w_last_error (save_worker now f r) = w_last_error (f r)"
  "w_provisioning_detail (save_worker now f r) = w_provisioning_detail (f r)"
  "w_ready_at (save_worker now f r) = w_ready_at (f r)"
  "w_start_requested_at (save_worker now f r) = w_start_requested_at (f r)"
  "w_last_active_at (save_worker now f r) = w_last_active_at (f r)"
  "w_last_health_checked_at (save_worker now f r) = w_last_health_checked_at (f r)"
  "w_terminated_at (save_worker now f r) = w_terminated_at (f r)"
  "w_created_at (save_worker now f r) = w_created_at (f r)"
  by (simp_all add: save_worker_def Let_def)

lemma upd_task_tables [simp]:
  "db_workers (upd_task now k f d) = db_workers d"
  "db_cache (upd_task now k f d) = db_cache d"
  "db_events (upd_task now k f d) = db_events d"
  "db_tasks (upd_task now k f d) = db_update t_task_id k (save_task now f) (db_tasks d)"
  by (simp_all add: upd_task_def)

lemma upd_worker_tables [simp]:
  "db_tasks (upd_worker now k f d) = db_tasks d"
  "db_cache (upd_worker now k f d) = db_cache d"
  "db_events (upd_worker now k f d) = db_events d"
  "db_workers (upd_worker now k f d) = db_update w_id k (save_worker now f) (db_workers d)"
  by (simp_all add: upd_worker_def)

lemma upd_cache_tables [simp]:
  "db_tasks (upd_cache k f d) = db_tasks d"
  "db_workers (upd_cache k f d) = db_workers d"
  "db_events (upd_cache k f d) = db_events d"
  "db_cache (upd_cache k f d) = db_update c_cache_key k f (db_cache d)"
  by (simp_all add: upd_cache_def)

lemma add_event_tables [simp]:
  "db_tasks (add_event e d) = db_tasks d"
  "db_workers (add_event e d) = db_workers d"
  "db_cache (add_event e d) = db_cache d"
  "db_events (add_event e d) = db_events d @ [e]"
  by (simp_all add: add_event_def)

lemma get_task_upd:
  assumes "\<And>r. t_task_id (f r) = t_task_id r"
  shows "get_task k' (upd_task now k f d) =
    (if k' = k then map_option (save_task now f) (get_task k d) else get_task k' d)"
  using assms by (simp add: get_task_def task_table.get_upd)

lemma get_worker_row_upd:
  assumes "\<And>r. w_id (f r) = w_id r"
  shows "get_worker_row k' (upd_worker now k f d) =
    (if k' = k then map_option (save_worker now f) (get_worker_row k d) else get_worker_row k' d)"
  using assms by (simp add: get_worker_row_def worker_table.get_upd)

lemma get_cache_row_upd:
  assumes "\<And>r. c_cache_key (f r) = c_cache_key r"
  shows "get_cache_row k' (upd_cache k f d) =
    (if k' = k then map_option f (get_cache_row k d) else get_cache_row k' d)"
  using assms by (simp add: get_cache_row_def cache_table.get_upd)

lemma get_frames [simp]:
  "get_task k (upd_worker now k' g d) = get_task k d"
  "get_task k (upd_cache k' h d) = get_task k d"
  "get_task k (add_event e d) = get_task k d"
  "get_worker_row k (upd_task now k' f d) = get_worker_row k d"
  "get_worker_row k (upd_cache k' h d) = get_worker_row k d"
  "get_worker_row k (add_event e d) = get_worker_row k d"
  "get_cache_row k (upd_task now k' f d) = get_cache_row k d"
  "get_cache_row k (upd_worker now k' g d) = get_cache_row k d"
  "get_cache_row k (add_event e d) = get_cache_row k d"
  by (simp_all add: get_task_def get_worker_row_def get_cache_row_def)

lemma get_task_Some: "get_task k d = Some r \<Longrightarrow> r \<in> set (db_tasks d) \<and> t_task_id r = k"
  unfolding get_task_def by (rule task_table.get_mem)

lemma get_worker_row_Some: "get_worker_row k d = Some r \<Longrightarrow> r \<in> set (db_workers d) \<and> w_id r = k"
  unfolding get_worker_row_def by (rule worker_table.get_mem)

lemma get_cache_row_Some: "get_cache_row k d = Some r \<Longrightarrow> r \<in> set (db_cache d) \<and> c_cache_key r = k"
  unfolding get_cache_row_def by (rule cache_table.get_mem)

lemma get_task_mem: "db_wf d \<Longrightarrow> r \<in> set (db_tasks d) \<Longrightarrow> get_task (t_task_id r) d = Some r"
  unfolding get_task_def by (rule task_table.mem_get) (simp add: db_wf_def)

lemma get_worker_row_mem: "db_wf d \<Longrightarrow> r \<in> set (db_workers d) \<Longrightarrow> get_worker_row (w_id r) d = Some r"
  unfolding get_worker_row_def by (rule worker_table.mem_get) (simp add: db_wf_def)

lemma db_wf_upd_task [intro]:
  "db_wf d \<Longrightarrow> (\<And>r. t_task_id (f r) = t_task_id r) \<Longrightarrow> db_wf (upd_task now k f d)"
  by (simp add: db_wf_def)

lemma db_wf_upd_worker [intro]:
  "db_wf d \<Longrightarrow> (\<And>r. w_id (f r) = w_id r) \<Longrightarrow> db_wf (upd_worker now k f d)"
  by (simp add: db_wf_def)

lemma db_wf_upd_cache [intro]:
  "db_wf d \<Longrightarrow> (\<And>r. c_cache_key (f r) = c_cache_key r) \<Longrightarrow> db_wf (upd_cache k f d)"
  by (simp add: db_wf_def)

lemma db_wf_add_event [simp]: "db_wf (add_event e d) = db_wf d"
  by (simp add: db_wf_def)

lemma db_wf_empty: "db_wf empty_db"
  by (simp add: db_wf_def empty_db_def)

end
