(* ===== verification/Worker_Repo.thy ===== *)
theory Worker_Repo
  imports Models Scaling
begin

text \<open>
  \<^verbatim>\<open>scheduler/worker_repository.py\<close>: the SQL clauses as predicates on a worker row, the queries
  built from them, and every write to the workers table. The random identifier a new worker gets
  (\<open>worker_id()\<close>) is an argument. \<open>locked\<close> says which rows another transaction holds, so that
  \<open>FOR UPDATE SKIP LOCKED\<close> passes over them.
\<close>

section \<open>Definitions\<close>

definition RETRY_SECONDS :: "int list" where
  "RETRY_SECONDS = [5, 15, 30, 60, 120]"

definition RETRY_CAP_SECONDS :: int where
  "RETRY_CAP_SECONDS = 300"

text \<open>\<open>None\<close> is the \<open>IndexError\<close> of a count far below zero.\<close>

definition retry_delay :: "int \<Rightarrow> int option" where
  "retry_delay failure_count =
    (if failure_count \<le> int (length RETRY_SECONDS) then py_nth RETRY_SECONDS (failure_count - 1)
     else Some RETRY_CAP_SECONDS)"

abbreviation max_failures :: "gateway_settings \<Rightarrow> int" where
  "max_failures cfg \<equiv> max_failure_count (reconciliation cfg)"

subsection \<open>Clauses\<close>

definition deployment_clause :: "gateway_settings \<Rightarrow> worker \<Rightarrow> bool" where
  "deployment_clause cfg w \<longleftrightarrow> w_deployment_id w = deployment_id cfg
     \<and> w_provider w = cloud_provider (cloud cfg) \<and> w_terminated_at w = None"

definition stalled_clause :: "gateway_settings \<Rightarrow> worker \<Rightarrow> bool" where
  "stalled_clause cfg w \<longleftrightarrow> w_failure_count w \<ge> max_failures cfg"

definition serviceable_clause :: "gateway_settings \<Rightarrow> worker \<Rightarrow> bool" where
  "serviceable_clause cfg w \<longleftrightarrow> deployment_clause cfg w
     \<and> w_desired_state w = CLOUD_STATE_RUNNING \<and> w_cloud_state w = CLOUD_STATE_RUNNING
     \<and> w_healthy w \<and> w_base_url w \<noteq> None \<and> \<not> w_draining w
     \<and> w_failure_count w < max_failures cfg"

definition health_check_clause :: "gateway_settings \<Rightarrow> worker \<Rightarrow> bool" where
  "health_check_clause cfg w \<longleftrightarrow> deployment_clause cfg w \<and> w_terminated_at w = None
     \<and> w_base_url w \<noteq> None \<and> w_desired_state w = CLOUD_STATE_RUNNING
     \<and> w_cloud_state w \<in> {CLOUD_STATE_RUNNING, CLOUD_STATE_PENDING} \<and> \<not> w_draining w"

definition ready_serviceable_clause :: "gateway_settings \<Rightarrow> worker \<Rightarrow> bool" where
  "ready_serviceable_clause cfg w \<longleftrightarrow> serviceable_clause cfg w \<and> w_ready_at w \<noteq> None"

text \<open>The correlated subquery counting a worker's tasks in the given statuses.\<close>

definition task_count :: "task_status set \<Rightarrow> db \<Rightarrow> string \<Rightarrow> nat" where
  "task_count statuses d wid =
     db_count (\<lambda>t. t_worker_id t = Some wid \<and> t_status t \<in> statuses) (db_tasks d)"

abbreviation compute_load :: "db \<Rightarrow> string \<Rightarrow> nat" where
  "compute_load d wid \<equiv> task_count TASK_STATUSES_COMPUTE_CAPACITY d wid"

definition compute_capacity_subquery :: "db \<Rightarrow> worker \<Rightarrow> nat" where
  "compute_capacity_subquery d w = task_count TASK_STATUSES_COMPUTE_CAPACITY d (w_id w)"

definition drain_blocker_subquery :: "db \<Rightarrow> worker \<Rightarrow> nat" where
  "drain_blocker_subquery d w = task_count TASK_STATUSES_DRAIN_BLOCKERS d (w_id w)"

definition dispatchable_clause :: "gateway_settings \<Rightarrow> db \<Rightarrow> worker \<Rightarrow> bool" where
  "dispatchable_clause cfg d w \<longleftrightarrow> serviceable_clause cfg w
     \<and> int (compute_load d (w_id w)) < target_per_worker (scaling cfg)"

text \<open>The code's third launching value, the literal \<open>starting\<close>, is not among the persisted cloud
  states, so no row carries it.\<close>

definition provisioning_clause :: "gateway_settings \<Rightarrow> worker \<Rightarrow> bool" where
  "provisioning_clause cfg w \<longleftrightarrow> deployment_clause cfg w
     \<and> (w_desired_state w = CLOUD_STATE_RUNNING
          \<and> w_cloud_state w \<in> {CLOUD_STATE_PENDING, CLOUD_STATE_UNKNOWN}
        \<or> w_desired_state w = CLOUD_STATE_RUNNING \<and> w_cloud_state w = CLOUD_STATE_RUNNING
          \<and> \<not> w_healthy w \<and> w_ready_at w = None)
     \<and> \<not> w_draining w \<and> w_failure_count w < max_failures cfg"

definition draining_clause :: "gateway_settings \<Rightarrow> worker \<Rightarrow> bool" where
  "draining_clause cfg w \<longleftrightarrow> deployment_clause cfg w \<and> w_draining w
     \<and> w_desired_state w \<noteq> CLOUD_STATE_TERMINATED \<and> w_terminated_at w = None"

definition stopping_clause :: "gateway_settings \<Rightarrow> worker \<Rightarrow> bool" where
  "stopping_clause cfg w \<longleftrightarrow> deployment_clause cfg w \<and> w_terminated_at w = None
     \<and> (w_cloud_state w \<in> {CLOUD_STATE_STOPPING, CLOUD_STATE_TERMINATING}
        \<or> w_desired_state w \<in> {CLOUD_STATE_STOPPED, CLOUD_STATE_TERMINATED}
          \<and> w_cloud_state w \<notin> {CLOUD_STATE_STOPPED, CLOUD_STATE_TERMINATED})"

definition stalled_and_active_clauses :: "gateway_settings \<Rightarrow> worker \<Rightarrow> bool" where
  "stalled_and_active_clauses cfg w \<longleftrightarrow> deployment_clause cfg w \<and> stalled_clause cfg w
     \<and> w_desired_state w \<noteq> CLOUD_STATE_TERMINATED"

definition rotation_eligible_clause :: "gateway_settings \<Rightarrow> worker \<Rightarrow> bool" where
  "rotation_eligible_clause cfg w \<longleftrightarrow> deployment_clause cfg w
     \<and> w_desired_state w = CLOUD_STATE_RUNNING \<and> w_cloud_state w = CLOUD_STATE_RUNNING
     \<and> w_healthy w \<and> \<not> w_draining w \<and> w_replacement_for w = None \<and> w_instance_id w \<noteq> None"

text \<open>The in-memory check of the admin operations.\<close>

definition row_in_deployment :: "gateway_settings \<Rightarrow> worker \<Rightarrow> bool" where
  "row_in_deployment cfg w \<longleftrightarrow> w_deployment_id w = deployment_id cfg
     \<and> w_provider w = cloud_provider (cloud cfg)"

subsection \<open>Queries\<close>

definition list_where :: "(worker \<Rightarrow> bool) \<Rightarrow> (worker \<Rightarrow> 'o::linorder) option \<Rightarrow> nat option \<Rightarrow> db \<Rightarrow> worker list" where
  "list_where clauses order_by limit d =
    (let rows = filter clauses (db_workers d);
         rows = (case order_by of None \<Rightarrow> rows | Some ord \<Rightarrow> sort_key ord rows)
     in case limit of None \<Rightarrow> rows | Some n \<Rightarrow> take n rows)"

definition get_one_where :: "(worker \<Rightarrow> bool) \<Rightarrow> (worker \<Rightarrow> 'o::linorder) option \<Rightarrow> db \<Rightarrow> worker option" where
  "get_one_where clauses order_by d =
    (case list_where clauses order_by (Some 1) d of [] \<Rightarrow> None | w # _ \<Rightarrow> Some w)"

definition list_deployment_workers :: "gateway_settings \<Rightarrow> db \<Rightarrow> worker list" where
  "list_deployment_workers cfg d = filter (deployment_clause cfg) (db_workers d)"

definition count_where :: "(worker \<Rightarrow> bool) \<Rightarrow> db \<Rightarrow> int" where
  "count_where P d = int (db_count P (db_workers d))"

definition count_workers :: "gateway_settings \<Rightarrow> db \<Rightarrow> int" where
  "count_workers cfg d = count_where (deployment_clause cfg) d"

definition count_serviceable_workers :: "gateway_settings \<Rightarrow> db \<Rightarrow> int" where
  "count_serviceable_workers cfg d = count_where (serviceable_clause cfg) d"

definition count_starting_workers :: "gateway_settings \<Rightarrow> db \<Rightarrow> int" where
  "count_starting_workers cfg d = count_where (provisioning_clause cfg) d"

definition count_draining_workers :: "gateway_settings \<Rightarrow> db \<Rightarrow> int" where
  "count_draining_workers cfg d = count_where (draining_clause cfg) d"

definition count_stopping_workers :: "gateway_settings \<Rightarrow> db \<Rightarrow> int" where
  "count_stopping_workers cfg d = count_where (stopping_clause cfg) d"

definition find_stalled_workers :: "gateway_settings \<Rightarrow> db \<Rightarrow> worker list" where
  "find_stalled_workers cfg d = filter (stalled_and_active_clauses cfg) (db_workers d)"

definition count_stalled_workers :: "gateway_settings \<Rightarrow> db \<Rightarrow> int" where
  "count_stalled_workers cfg d = count_where (stalled_and_active_clauses cfg) d"

definition count_queue_depth :: "db \<Rightarrow> int" where
  "count_queue_depth d = int (db_count (\<lambda>t. t_status t \<in> TASK_STATUSES_AUTOSCALE_DEMAND) (db_tasks d))"

definition count_recoverable_workers :: "gateway_settings \<Rightarrow> db \<Rightarrow> int" where
  "count_recoverable_workers cfg d = count_serviceable_workers cfg d + count_starting_workers cfg d"

definition collect_scaling_inputs :: "gateway_settings \<Rightarrow> db \<Rightarrow> ScalingInputs" where
  "collect_scaling_inputs cfg d =
    \<lparr>in_queue_depth = count_queue_depth d,
     in_serviceable_workers = count_serviceable_workers cfg d,
     in_starting_workers = count_starting_workers cfg d,
     in_draining_workers = count_draining_workers cfg d,
     in_stopping_workers = count_stopping_workers cfg d\<rparr>"

definition find_stopped_worker :: "gateway_settings \<Rightarrow> db \<Rightarrow> worker option" where
  "find_stopped_worker cfg d = db_find (\<lambda>w. deployment_clause cfg w
     \<and> w_desired_state w = CLOUD_STATE_STOPPED \<and> w_cloud_state w = CLOUD_STATE_STOPPED
     \<and> w_instance_id w \<noteq> None \<and> \<not> w_draining w) (db_workers d)"

definition find_idle_worker :: "gateway_settings \<Rightarrow> time \<Rightarrow> db \<Rightarrow> worker option" where
  "find_idle_worker cfg idle_before d = db_first (\<lambda>w. deployment_clause cfg w
     \<and> w_desired_state w = CLOUD_STATE_RUNNING \<and> w_cloud_state w = CLOUD_STATE_RUNNING
     \<and> w_healthy w \<and> \<not> w_draining w \<and> w_replacement_for w = None
     \<and> (case w_ready_at w of None \<Rightarrow> False | Some r \<Rightarrow> r < idle_before)
     \<and> task_count TASK_STATUSES_DRAIN_BLOCKERS d (w_id w) = 0
     \<and> (case w_last_active_at w of None \<Rightarrow> True | Some a \<Rightarrow> a < idle_before))
     (\<lambda>w. case w_last_active_at w of Some a \<Rightarrow> Some a | None \<Rightarrow> w_ready_at w)
     (db_workers d)"

definition find_draining_workers :: "gateway_settings \<Rightarrow> db \<Rightarrow> worker list" where
  "find_draining_workers cfg d = filter (draining_clause cfg) (db_workers d)"

definition count_inflight_tasks :: "string \<Rightarrow> db \<Rightarrow> int" where
  "count_inflight_tasks wid d = int (task_count TASK_STATUSES_DRAIN_BLOCKERS d wid)"

definition count_unstored_results :: "string \<Rightarrow> db \<Rightarrow> int" where
  "count_unstored_results wid d = int (db_count (\<lambda>t. t_worker_id t = Some wid
     \<and> t_status t = TASK_STORING_RESULT \<and> (t_result_key t = None \<or> t_result_key t = Some []))
     (db_tasks d))"

definition get_ready_replacement_for :: "gateway_settings \<Rightarrow> string \<Rightarrow> db \<Rightarrow> worker option" where
  "get_ready_replacement_for cfg wid d =
     db_first (\<lambda>w. ready_serviceable_clause cfg w \<and> w_replacement_for w = Some wid) w_created_at
       (db_workers d)"

definition has_active_replacement_for :: "gateway_settings \<Rightarrow> string \<Rightarrow> db \<Rightarrow> bool" where
  "has_active_replacement_for cfg wid d \<longleftrightarrow> count_where (\<lambda>w. deployment_clause cfg w
     \<and> w_replacement_for w = Some wid \<and> w_desired_state w \<noteq> CLOUD_STATE_TERMINATED) d > 0"

definition count_active_replacements :: "gateway_settings \<Rightarrow> db \<Rightarrow> int" where
  "count_active_replacements cfg d = count_where (\<lambda>w. deployment_clause cfg w
     \<and> w_replacement_for w \<noteq> None \<and> w_desired_state w \<noteq> CLOUD_STATE_TERMINATED) d"

definition find_replacement_workers :: "gateway_settings \<Rightarrow> db \<Rightarrow> worker list" where
  "find_replacement_workers cfg d =
     filter (\<lambda>w. deployment_clause cfg w \<and> w_replacement_for w \<noteq> None) (db_workers d)"

definition find_emergency_rotation_target :: "gateway_settings \<Rightarrow> db \<Rightarrow> worker option" where
  "find_emergency_rotation_target cfg d =
     db_first (\<lambda>w. rotation_eligible_clause cfg w \<and> w_rotation_requested w) w_created_at (db_workers d)"

definition find_scheduled_rotation_target :: "gateway_settings \<Rightarrow> time \<Rightarrow> db \<Rightarrow> worker option" where
  "find_scheduled_rotation_target cfg created_before d =
     db_first (\<lambda>w. rotation_eligible_clause cfg w \<and> w_created_at w < created_before) w_created_at
       (db_workers d)"

definition find_workers_pending_termination_finalize :: "gateway_settings \<Rightarrow> db \<Rightarrow> worker list" where
  "find_workers_pending_termination_finalize cfg d = filter (\<lambda>w. deployment_clause cfg w
     \<and> w_desired_state w = CLOUD_STATE_TERMINATED \<and> w_cloud_state w = CLOUD_STATE_TERMINATED)
     (db_workers d)"

definition list_health_check_candidates :: "gateway_settings \<Rightarrow> nat \<Rightarrow> db \<Rightarrow> worker list" where
  "list_health_check_candidates cfg lim d =
     db_select (health_check_clause cfg) (\<lambda>w. (w_last_health_checked_at w, w_id w)) lim (db_workers d)"

definition get_worker :: "gateway_settings \<Rightarrow> string \<Rightarrow> db \<Rightarrow> worker option" where
  "get_worker cfg wid d =
    (case get_worker_row wid d of
       None \<Rightarrow> None
     | Some row \<Rightarrow>
         if w_terminated_at row \<noteq> None then None
         else if w_deployment_id row \<noteq> deployment_id cfg \<or> w_provider row \<noteq> cloud_provider (cloud cfg)
         then None else Some row)"

definition list_workers :: "gateway_settings \<Rightarrow> db \<Rightarrow> worker list" where
  "list_workers cfg d = sort_key w_created_at (filter (deployment_clause cfg) (db_workers d))"

subsection \<open>Writes\<close>

definition commit_fields :: "time \<Rightarrow> string \<Rightarrow> (worker \<Rightarrow> worker) \<Rightarrow> db \<Rightarrow> db" where
  "commit_fields now wid setattrs d = upd_worker now wid (\<lambda>r. (setattrs r)\<lparr>w_updated_at := now\<rparr>) d"

definition acquire_dispatchable ::
    "gateway_settings \<Rightarrow> time \<Rightarrow> (string \<Rightarrow> bool) \<Rightarrow> string set \<Rightarrow> db \<Rightarrow> (worker \<times> db) option" where
  "acquire_dispatchable cfg now locked excluded_ids d =
    (case db_first (\<lambda>w. dispatchable_clause cfg d w \<and> w_id w \<notin> excluded_ids \<and> \<not> locked (w_id w))
            (\<lambda>w. (compute_load d (w_id w), w_last_active_at w, w_id w)) (db_workers d) of
       None \<Rightarrow> None
     | Some w \<Rightarrow> Some (save_worker now (\<lambda>r. r\<lparr>w_last_active_at := Some now\<rparr>) w,
                       upd_worker now (w_id w) (\<lambda>r. r\<lparr>w_last_active_at := Some now\<rparr>) d))"

text \<open>\<open>_record_scaling_event\<close> adds the row to a session; \<open>commit\<close> tells whether it is written now or with the
  session's other changes.\<close>

definition record_scaling_event ::
    "time \<Rightarrow> string \<Rightarrow> string \<Rightarrow> string option \<Rightarrow> string \<Rightarrow> string option \<Rightarrow> bool
      \<Rightarrow> scaling_event list \<times> db \<Rightarrow> scaling_event list \<times> db" where
  "record_scaling_event now action reason wid triggered_by requester commit = (\<lambda>(pending, d).
    (let pending = pending @ [\<lparr>ev_worker_id = wid, ev_action = action, ev_reason = reason,
           ev_triggered_by = triggered_by, ev_requester = requester, ev_created_at = now\<rparr>]
     in if commit then ([], fold add_event pending d) else (pending, d)))"

definition record_scaling_event_now ::
    "time \<Rightarrow> string \<Rightarrow> string \<Rightarrow> string option \<Rightarrow> string \<Rightarrow> string option \<Rightarrow> db \<Rightarrow> db" where
  "record_scaling_event_now now action reason wid triggered_by requester d =
     add_event \<lparr>ev_worker_id = wid, ev_action = action, ev_reason = reason,
       ev_triggered_by = triggered_by, ev_requester = requester, ev_created_at = now\<rparr> d"

text \<open>The row after a recorded failure; \<open>None\<close> when the back-off lookup raises.\<close>

definition failed_row :: "gateway_settings \<Rightarrow> time \<Rightarrow> string \<Rightarrow> bool \<Rightarrow> worker \<Rightarrow> worker option" where
  "failed_row cfg now err retryable row =
    (let row = row\<lparr>w_failure_count := w_failure_count row + 1, w_last_error := Some err\<rparr> in
     if w_failure_count row \<ge> max_failures cfg then
       Some (row\<lparr>w_healthy := False, w_retry_after := None,
         w_stalled_at := (case w_stalled_at row of None \<Rightarrow> Some now | Some t \<Rightarrow> Some t),
         w_draining := True, w_drain_target := Some CLOUD_STATE_TERMINATED\<rparr>)
     else if retryable then
       map_option (\<lambda>delay. row\<lparr>w_retry_after := Some (now + seconds delay)\<rparr>)
         (retry_delay (w_failure_count row))
     else Some row)"

definition record_failure ::
    "gateway_settings \<Rightarrow> time \<Rightarrow> string \<Rightarrow> string \<Rightarrow> bool \<Rightarrow> db \<Rightarrow> exc + db" where
  "record_failure cfg now wid err retryable d =
    (case get_worker_row wid d of
       None \<Rightarrow> Inr d
     | Some row \<Rightarrow>
         (case failed_row cfg now err retryable row of
            None \<Rightarrow> Inl (OtherException None ''tuple index out of range'')
          | Some _ \<Rightarrow> Inr (upd_worker now wid
              (\<lambda>r. case failed_row cfg now err retryable r of Some r' \<Rightarrow> r' | None \<Rightarrow> r) d)))"

definition health_checked_row :: "time \<Rightarrow> bool \<Rightarrow> string option \<Rightarrow> bool \<Rightarrow> worker \<Rightarrow> worker" where
  "health_checked_row now ok err provisioning row =
    (let row = row\<lparr>w_last_health_checked_at := Some now\<rparr> in
     if ok then
       (let row = row\<lparr>w_healthy := True, w_last_error := None, w_provisioning_detail := None\<rparr> in
        if w_desired_state row = CLOUD_STATE_RUNNING \<and> w_cloud_state row = CLOUD_STATE_RUNNING
           \<and> w_ready_at row = None
        then row\<lparr>w_ready_at := Some now, w_start_requested_at := None\<rparr> else row)
     else if provisioning then row\<lparr>w_healthy := False, w_provisioning_detail := err\<rparr>
     else row\<lparr>w_healthy := False, w_last_error := err\<rparr>)"

fun apply_health_checks ::
    "time \<Rightarrow> (string \<times> bool \<times> string option \<times> bool) list \<Rightarrow> db \<Rightarrow> nat \<times> db" where
  "apply_health_checks now [] d = (0, d)"
| "apply_health_checks now ((wid, ok, err, provisioning) # results) d =
    (case get_worker_row wid d of
       None \<Rightarrow> apply_health_checks now results d
     | Some _ \<Rightarrow>
         (let (n, d') = apply_health_checks now results
                (upd_worker now wid (health_checked_row now ok err provisioning) d)
          in ((if ok then Suc n else n), d')))"

definition create_cloud_worker ::
    "gateway_settings \<Rightarrow> time \<Rightarrow> string \<Rightarrow> db \<Rightarrow> db_error + string \<times> db" where
  "create_cloud_worker cfg now new_worker_id d =
    (let w = (new_worker new_worker_id (cloud_provider (cloud cfg)) (deployment_id cfg) now)
               \<lparr>w_desired_state := CLOUD_STATE_RUNNING, w_cloud_state := CLOUD_STATE_PENDING,
                w_start_requested_at := Some now\<rparr>
     in case db_insert w_id w (db_workers d) of
          Inl e \<Rightarrow> Inl e
        | Inr rows \<Rightarrow> Inr (new_worker_id, d\<lparr>db_workers := rows\<rparr>))"

definition reset_cloud_failures :: "time \<Rightarrow> string \<Rightarrow> db \<Rightarrow> db" where
  "reset_cloud_failures now wid d =
     upd_worker now wid (\<lambda>row. row\<lparr>w_failure_count := 0, w_retry_after := None,
       w_last_error := (if w_healthy row then None else w_last_error row)\<rparr>) d"

definition reset_worker_failures :: "time \<Rightarrow> string \<Rightarrow> db \<Rightarrow> db" where
  "reset_worker_failures now wid d = reset_cloud_failures now wid d"

definition finalize_disappeared_instance :: "time \<Rightarrow> string \<Rightarrow> string \<Rightarrow> db \<Rightarrow> db" where
  "finalize_disappeared_instance now wid reason d =
     commit_fields now wid (\<lambda>r. r\<lparr>w_desired_state := CLOUD_STATE_TERMINATED,
       w_cloud_state := CLOUD_STATE_TERMINATED, w_instance_id := None, w_base_url := None,
       w_ready_at := None, w_healthy := False, w_retry_after := None,
       w_last_error := Some reason, w_terminated_at := Some now\<rparr>) d"

definition finalize_terminated_worker :: "time \<Rightarrow> string \<Rightarrow> db \<Rightarrow> db" where
  "finalize_terminated_worker now wid d =
    (let d' = d\<lparr>db_workers := db_update_where (\<lambda>w. w_replacement_for w = Some wid)
                (save_worker now (\<lambda>r. r\<lparr>w_replacement_for := None\<rparr>)) (db_workers d)\<rparr>
     in upd_worker now wid (\<lambda>r. r\<lparr>w_terminated_at := Some now\<rparr>) d')"

definition start_rotation_replacement ::
    "gateway_settings \<Rightarrow> time \<Rightarrow> string \<Rightarrow> worker \<Rightarrow> db \<Rightarrow> db_error + string \<times> db" where
  "start_rotation_replacement cfg now replacement_id old d =
    (let w = (new_worker replacement_id (cloud_provider (cloud cfg)) (deployment_id cfg) now)
               \<lparr>w_desired_state := CLOUD_STATE_RUNNING, w_cloud_state := CLOUD_STATE_PENDING,
                w_replacement_for := Some (w_id old), w_generation := w_generation old + 1,
                w_start_requested_at := Some now\<rparr>
     in case db_insert w_id w (db_workers d) of
          Inl e \<Rightarrow> Inl e
        | Inr rows \<Rightarrow> Inr (replacement_id,
            upd_worker now (w_id old) (\<lambda>r. r\<lparr>w_rotation_requested := False\<rparr>) (d\<lparr>db_workers := rows\<rparr>)))"

text \<open>The shared shape of the three admin commands: reject an unknown row, change it, write an audit
  event, return the row as stored.\<close>

definition admin_update ::
    "gateway_settings \<Rightarrow> time \<Rightarrow> string \<Rightarrow> (worker \<Rightarrow> worker) \<Rightarrow> string \<Rightarrow> string \<Rightarrow> string option \<Rightarrow> db
      \<Rightarrow> worker option \<times> db" where
  "admin_update cfg now wid f action reason requester d =
    (case get_worker_row wid d of
       None \<Rightarrow> (None, d)
     | Some row \<Rightarrow>
         if \<not> row_in_deployment cfg row then (None, d)
         else (let d' = record_scaling_event_now now action reason (Some wid) ''admin'' requester
                          (upd_worker now wid f d)
               in (get_worker_row wid d', d')))"

definition set_drain_intent ::
    "gateway_settings \<Rightarrow> time \<Rightarrow> string \<Rightarrow> cloud_state \<Rightarrow> string \<Rightarrow> string option \<Rightarrow> db \<Rightarrow> worker option \<times> db" where
  "set_drain_intent cfg now wid drain_target reason requester d =
     admin_update cfg now wid (\<lambda>r. r\<lparr>w_draining := True, w_drain_target := Some drain_target\<rparr>)
       ''drain'' reason requester d"

definition set_rotation_requested ::
    "gateway_settings \<Rightarrow> time \<Rightarrow> string \<Rightarrow> string \<Rightarrow> string option \<Rightarrow> db \<Rightarrow> worker option \<times> db" where
  "set_rotation_requested cfg now wid reason requester d =
     admin_update cfg now wid (\<lambda>r. r\<lparr>w_rotation_requested := True\<rparr>) ''rotate'' reason requester d"

definition recover_worker ::
    "gateway_settings \<Rightarrow> time \<Rightarrow> string \<Rightarrow> string \<Rightarrow> string option \<Rightarrow> db \<Rightarrow> worker option \<times> db" where
  "recover_worker cfg now wid reason requester d =
     admin_update cfg now wid (\<lambda>r. let r = r\<lparr>w_failure_count := 0, w_retry_after := None\<rparr> in
       if w_stalled_at r \<noteq> None
       then r\<lparr>w_stalled_at := None, w_draining := False, w_drain_target := None\<rparr> else r)
       ''recover'' reason requester d"

section \<open>Lemmas\<close>

lemmas clause_defs = deployment_clause_def serviceable_clause_def provisioning_clause_def
  draining_clause_def stopping_clause_def stalled_clause_def stalled_and_active_clauses_def
  health_check_clause_def ready_serviceable_clause_def rotation_eligible_clause_def

text \<open>The queries of this theory are calls of \<open>_list_where\<close> and \<open>_get_one_where\<close>.\<close>

lemma list_where_select: "list_where P (Some ord) (Some n) d = db_select P ord n (db_workers d)"
  by (simp add: list_where_def db_select_def)

lemma get_one_where_first: "get_one_where P (Some ord) d = db_first P ord (db_workers d)"
  by (simp add: get_one_where_def list_where_def db_first_def split: list.splits)

lemma get_one_where_find: "get_one_where P (None :: (worker \<Rightarrow> int) option) d = db_find P (db_workers d)"
proof -
  have "(case take 1 (filter P rows) of [] \<Rightarrow> None | w # _ \<Rightarrow> Some w) = find P rows" for rows :: "worker list"
    by (induction rows) auto
  then show ?thesis by (simp add: get_one_where_def list_where_def db_find_def)
qed

lemma dispatchable_capacity:
  "dispatchable_clause cfg d w \<longleftrightarrow> serviceable_clause cfg w
     \<and> int (compute_capacity_subquery d w) < target_per_worker (scaling cfg)"
  by (simp add: dispatchable_clause_def compute_capacity_subquery_def)

lemma record_scaling_event_commit:
  "record_scaling_event now action reason wid triggered_by requester True ([], d) =
     ([], record_scaling_event_now now action reason wid triggered_by requester d)"
  by (simp add: record_scaling_event_def record_scaling_event_now_def)

lemma db_count_disjoint2:
  assumes "\<And>r. r \<in> set rows \<Longrightarrow> P r \<Longrightarrow> R r" "\<And>r. r \<in> set rows \<Longrightarrow> Q r \<Longrightarrow> R r"
    and "\<And>r. r \<in> set rows \<Longrightarrow> \<not> (P r \<and> Q r)"
  shows "db_count P rows + db_count Q rows \<le> db_count R rows"
  using assms by (induction rows) (auto simp: db_count_Cons)

lemma db_count_or: "(\<And>r. \<not> (P r \<and> Q r)) \<Longrightarrow> db_count (\<lambda>r. P r \<or> Q r) rows = db_count P rows + db_count Q rows"
  by (induction rows) (auto simp: db_count_Cons)

lemma retry_delay_table:
  "1 \<le> n \<Longrightarrow> retry_delay n = Some (if n = 1 then 5 else if n = 2 then 15 else if n = 3 then 30
     else if n = 4 then 60 else if n = 5 then 120 else 300)"
proof -
  assume "1 \<le> n"
  then consider "n = 1" | "n = 2" | "n = 3" | "n = 4" | "n = 5" | "n > 5" by linarith
  then show ?thesis
    by cases (auto simp: retry_delay_def RETRY_SECONDS_def RETRY_CAP_SECONDS_def py_nth_def Let_def)
qed

lemma retry_delay_bounds: "1 \<le> n \<Longrightarrow> \<exists>k. retry_delay n = Some k \<and> 5 \<le> k \<and> k \<le> 300"
  by (simp add: retry_delay_table)

lemma failed_row_id: "failed_row cfg now err retryable r = Some r' \<Longrightarrow> w_id r' = w_id r"
  by (auto simp: failed_row_def Let_def split: if_splits)

lemma failed_row_total: "0 \<le> w_failure_count r \<Longrightarrow> failed_row cfg now err retryable r \<noteq> None"
  using retry_delay_bounds [of "w_failure_count r + 1"]
  by (auto simp: failed_row_def Let_def)

lemma health_checked_row_id [simp]: "w_id (health_checked_row now ok err p r) = w_id r"
  by (simp add: health_checked_row_def Let_def)

lemma record_failure_Inr:
  assumes "record_failure cfg now wid err retryable d = Inr d'"
  obtains "get_worker_row wid d = None" "d' = d"
  | row row' where "get_worker_row wid d = Some row" "failed_row cfg now err retryable row = Some row'"
      "d' = upd_worker now wid (\<lambda>r. case failed_row cfg now err retryable r of Some r' \<Rightarrow> r' | None \<Rightarrow> r) d"
  using assms by (auto simp: record_failure_def split: option.splits)

lemma record_failure_tables:
  assumes "record_failure cfg now wid err retryable d = Inr d'"
  shows "db_tasks d' = db_tasks d" "db_cache d' = db_cache d" "db_events d' = db_events d"
  by (rule record_failure_Inr [OF assms]; simp)+

lemma commit_fields_tables [simp]:
  "db_tasks (commit_fields now wid f d) = db_tasks d"
  "db_cache (commit_fields now wid f d) = db_cache d"
  "db_events (commit_fields now wid f d) = db_events d"
  by (simp_all add: commit_fields_def)

lemma commit_fields_get:
  assumes "\<And>r. w_id (f r) = w_id r"
  shows "get_worker_row k (commit_fields now wid f d) =
    (if k = wid then map_option (save_worker now (\<lambda>r. (f r)\<lparr>w_updated_at := now\<rparr>)) (get_worker_row wid d)
     else get_worker_row k d)"
  unfolding commit_fields_def by (rule get_worker_row_upd) (simp add: assms)

lemma event_tables [simp]:
  "db_tasks (record_scaling_event_now now a r w t q d) = db_tasks d"
  "db_workers (record_scaling_event_now now a r w t q d) = db_workers d"
  "db_cache (record_scaling_event_now now a r w t q d) = db_cache d"
  "get_worker_row k (record_scaling_event_now now a r w t q d) = get_worker_row k d"
  by (simp_all add: record_scaling_event_now_def)

lemma acquire_SomeD:
  assumes "acquire_dispatchable cfg now locked ex d = Some (w', d')"
  obtains w where "w \<in> set (db_workers d)" "dispatchable_clause cfg d w" "w_id w \<notin> ex" "\<not> locked (w_id w)"
    "w' = save_worker now (\<lambda>r. r\<lparr>w_last_active_at := Some now\<rparr>) w"
    "d' = upd_worker now (w_id w) (\<lambda>r. r\<lparr>w_last_active_at := Some now\<rparr>) d"
    "\<And>v. v \<in> set (db_workers d) \<Longrightarrow> dispatchable_clause cfg d v \<Longrightarrow> w_id v \<notin> ex \<Longrightarrow> \<not> locked (w_id v) \<Longrightarrow>
       compute_load d (w_id w) \<le> compute_load d (w_id v)"
proof -
  from assms obtain w where f: "db_first (\<lambda>w. dispatchable_clause cfg d w \<and> w_id w \<notin> ex \<and> \<not> locked (w_id w))
            (\<lambda>w. (compute_load d (w_id w), w_last_active_at w, w_id w)) (db_workers d) = Some w"
    and eqs: "w' = save_worker now (\<lambda>r. r\<lparr>w_last_active_at := Some now\<rparr>) w"
    "d' = upd_worker now (w_id w) (\<lambda>r. r\<lparr>w_last_active_at := Some now\<rparr>) d"
    by (auto simp: acquire_dispatchable_def split: option.splits)
  show ?thesis
  proof (rule that [OF _ _ _ _ eqs])
    fix v assume "v \<in> set (db_workers d)" "dispatchable_clause cfg d v" "w_id v \<notin> ex" "\<not> locked (w_id v)"
    then have "(compute_load d (w_id w), w_last_active_at w, w_id w)
                 \<le> (compute_load d (w_id v), w_last_active_at v, w_id v)"
      using db_first_Some(3) [OF f, of v] by blast
    then show "compute_load d (w_id w) \<le> compute_load d (w_id v)"
      by (auto simp: less_eq_prod_def)
  qed (use db_first_Some(1,2) [OF f] in auto)
qed

lemma acquire_None:
  "acquire_dispatchable cfg now locked ex d = None \<longleftrightarrow>
    (\<forall>w \<in> set (db_workers d). dispatchable_clause cfg d w \<longrightarrow> w_id w \<in> ex \<or> locked (w_id w))"
proof -
  have "acquire_dispatchable cfg now locked ex d = None \<longleftrightarrow>
      db_first (\<lambda>w. dispatchable_clause cfg d w \<and> w_id w \<notin> ex \<and> \<not> locked (w_id w))
        (\<lambda>w. (compute_load d (w_id w), w_last_active_at w, w_id w)) (db_workers d) = None"
    by (simp add: acquire_dispatchable_def split: option.splits)
  then show ?thesis by (auto simp: db_first_None)
qed

lemma acquire_tasks:
  "acquire_dispatchable cfg now locked ex d = Some (w, d') \<Longrightarrow> db_tasks d' = db_tasks d"
  by (auto elim: acquire_SomeD)

lemma acquire_wf:
  "acquire_dispatchable cfg now locked ex d = Some (w, d') \<Longrightarrow> db_wf d \<Longrightarrow> db_wf d'"
  by (elim acquire_SomeD) auto

lemma admin_update_hit:
  assumes "get_worker_row wid d = Some row" "row_in_deployment cfg row" "\<And>r. w_id (f r) = w_id r"
  shows "fst (admin_update cfg now wid f a reason q d) = Some (save_worker now f row)"
    and "db_tasks (snd (admin_update cfg now wid f a reason q d)) = db_tasks d"
    and "get_worker_row k (snd (admin_update cfg now wid f a reason q d)) =
      (if k = wid then Some (save_worker now f row) else get_worker_row k d)"
    and "length (db_events (snd (admin_update cfg now wid f a reason q d))) = Suc (length (db_events d))"
  using assms
  by (simp_all add: admin_update_def get_worker_row_upd Let_def record_scaling_event_now_def)

section \<open>Properties\<close>

text \<open>A worker is chosen for dispatch exactly when some worker of the deployment is serviceable,
  has a free slot, is not excluded and is not held by another transaction. The chosen one satisfies
  all of that, has the least load among the candidates, and acquiring it changes nothing but its
  last-active time.\<close>

lemma acquire_dispatchable_correct:
  "case acquire_dispatchable cfg now locked excluded d of
     None \<Rightarrow> {w \<in> set (db_workers d). dispatchable_clause cfg d w \<and> w_id w \<notin> excluded \<and> \<not> locked (w_id w)} = {}
   | Some (w', d') \<Rightarrow>
       (\<exists>w \<in> {w \<in> set (db_workers d). dispatchable_clause cfg d w \<and> w_id w \<notin> excluded \<and> \<not> locked (w_id w)}.
          w' = save_worker now (\<lambda>r. r\<lparr>w_last_active_at := Some now\<rparr>) w
          \<and> serviceable_clause cfg w \<and> \<not> w_draining w \<and> w_healthy w
          \<and> int (compute_load d (w_id w)) < target_per_worker (scaling cfg)
          \<and> d' = upd_worker now (w_id w) (\<lambda>r. r\<lparr>w_last_active_at := Some now\<rparr>) d
          \<and> {v \<in> set (db_workers d). dispatchable_clause cfg d v \<and> w_id v \<notin> excluded \<and> \<not> locked (w_id v)
               \<and> compute_load d (w_id v) < compute_load d (w_id w)} = {})"
proof (cases "acquire_dispatchable cfg now locked excluded d")
  case None
  moreover from None have "{w \<in> set (db_workers d). dispatchable_clause cfg d w \<and> w_id w \<notin> excluded
      \<and> \<not> locked (w_id w)} = {}"
    by (auto simp: acquire_None)
  ultimately show ?thesis by simp
next
  case (Some a)
  obtain w' d' where a: "a = (w', d')" by (cases a)
  with Some obtain w where w: "w \<in> set (db_workers d)" "dispatchable_clause cfg d w" "w_id w \<notin> excluded"
    "\<not> locked (w_id w)" "w' = save_worker now (\<lambda>r. r\<lparr>w_last_active_at := Some now\<rparr>) w"
    "d' = upd_worker now (w_id w) (\<lambda>r. r\<lparr>w_last_active_at := Some now\<rparr>) d"
    and least: "\<And>v. v \<in> set (db_workers d) \<Longrightarrow> dispatchable_clause cfg d v \<Longrightarrow> w_id v \<notin> excluded
      \<Longrightarrow> \<not> locked (w_id v) \<Longrightarrow> compute_load d (w_id w) \<le> compute_load d (w_id v)"
    by (auto elim: acquire_SomeD)
  have "{v \<in> set (db_workers d). dispatchable_clause cfg d v \<and> w_id v \<notin> excluded \<and> \<not> locked (w_id v)
               \<and> compute_load d (w_id v) < compute_load d (w_id w)} = {}"
    using least by force
  moreover have "serviceable_clause cfg w" "int (compute_load d (w_id w)) < target_per_worker (scaling cfg)"
      "\<not> w_draining w" "w_healthy w"
    using w(2) by (simp_all add: dispatchable_clause_def serviceable_clause_def)
  ultimately show ?thesis
    unfolding Some a using w by (simp only: option.case prod.case) blast
qed

text \<open>The retry back-off after the \<open>n\<close>-th failure always exists, lies between five seconds and
  five minutes, and never shrinks as failures accumulate.\<close>

lemma retry_delay_backoff:
  assumes "1 \<le> m" and "m \<le> n"
  shows "\<exists>a b. retry_delay m = Some a \<and> retry_delay n = Some b \<and> 5 \<le> a \<and> a \<le> b \<and> b \<le> 300"
  using assms by (auto simp: retry_delay_table)

text \<open>Recording a failure never raises for a worker with a non-negative count. It counts the
  failure; below the limit it only schedules the back-off of a retryable failure; at the limit it
  takes the worker out of service (unhealthy, draining towards termination, with the time of the
  first stall kept) so that it is no longer dispatchable. No other worker and no task changes.\<close>

lemma record_failure_correct:
  assumes "get_worker_row wid d = Some row" and "0 \<le> w_failure_count row"
  shows "\<exists>d' row'. record_failure cfg now wid err retryable d = Inr d'
    \<and> get_worker_row wid d' = Some row'
    \<and> w_failure_count row' = w_failure_count row + 1 \<and> w_last_error row' = Some err
    \<and> (if w_failure_count row + 1 \<ge> max_failures cfg
       then \<not> serviceable_clause cfg row' \<and> \<not> w_healthy row' \<and> w_draining row'
          \<and> w_drain_target row' = Some CLOUD_STATE_TERMINATED \<and> w_retry_after row' = None
          \<and> w_stalled_at row' = Some (case w_stalled_at row of None \<Rightarrow> now | Some t \<Rightarrow> t)
       else w_healthy row' = w_healthy row \<and> w_draining row' = w_draining row
          \<and> w_stalled_at row' = w_stalled_at row
          \<and> (if retryable
             then \<exists>k. w_retry_after row' = Some (now + seconds k) \<and> k \<in> {5..300}
             else w_retry_after row' = w_retry_after row))
    \<and> db_tasks d' = db_tasks d
    \<and> (\<forall>k. k \<noteq> wid \<longrightarrow> get_worker_row k d' = get_worker_row k d)"
proof -
  let ?f = "\<lambda>r. case failed_row cfg now err retryable r of Some r' \<Rightarrow> r' | None \<Rightarrow> r"
  obtain row1 where row1: "failed_row cfg now err retryable row = Some row1"
    using failed_row_total [OF assms(2)] by (meson not_Some_eq)
  have fr: "?f row = row1" by (simp add: row1)
  have id: "\<And>r. w_id (?f r) = w_id r" by (auto split: option.splits dest: failed_row_id)
  have rec: "record_failure cfg now wid err retryable d = Inr (upd_worker now wid ?f d)"
    by (simp add: record_failure_def assms(1) row1)
  have get: "get_worker_row wid (upd_worker now wid ?f d) = Some (save_worker now ?f row)"
    by (simp add: get_worker_row_upd [OF id] assms(1))
  have frame: "k \<noteq> wid \<Longrightarrow> get_worker_row k (upd_worker now wid ?f d) = get_worker_row k d" for k
    by (simp add: get_worker_row_upd [OF id])
  obtain k where delay: "retry_delay (w_failure_count row + 1) = Some k" "5 \<le> k" "k \<le> 300"
    using retry_delay_bounds [of "w_failure_count row + 1"] assms(2) by auto
  have "w_failure_count row1 = w_failure_count row + 1 \<and> w_last_error row1 = Some err
    \<and> (if w_failure_count row + 1 \<ge> max_failures cfg
       then \<not> w_healthy row1 \<and> w_draining row1
          \<and> w_drain_target row1 = Some CLOUD_STATE_TERMINATED \<and> w_retry_after row1 = None
          \<and> w_stalled_at row1 = Some (case w_stalled_at row of None \<Rightarrow> now | Some t \<Rightarrow> t)
       else w_healthy row1 = w_healthy row \<and> w_draining row1 = w_draining row
          \<and> w_stalled_at row1 = w_stalled_at row
          \<and> (if retryable
             then \<exists>k. w_retry_after row1 = Some (now + seconds k) \<and> k \<in> {5..300}
             else w_retry_after row1 = w_retry_after row))"
    using row1 delay by (auto simp: failed_row_def Let_def split: if_splits option.splits)
  moreover have "\<forall>k. k \<noteq> wid \<longrightarrow> get_worker_row k (upd_worker now wid ?f d) = get_worker_row k d"
    using frame by blast
  ultimately show ?thesis
    by (intro exI [of _ "upd_worker now wid ?f d"] exI [of _ "save_worker now ?f row"])
      (simp only: rec get fr save_worker_fields upd_worker_tables serviceable_clause_def simp_thms,
       simp split: if_splits)
qed

definition example_worker :: worker where
  "example_worker = (new_worker ''cloud-1'' ''aws'' ''dev-local'' 0)
     \<lparr>w_desired_state := CLOUD_STATE_RUNNING, w_cloud_state := CLOUD_STATE_RUNNING,
      w_healthy := True, w_base_url := Some ''http://10.0.0.1:8000'', w_ready_at := Some 0,
      w_instance_id := Some ''i-1'', w_failure_count := 7\<rparr>"

lemma example_worker_get: "get_worker_row ''cloud-1'' (empty_db\<lparr>db_workers := [example_worker]\<rparr>) = Some example_worker"
  by (simp add: get_worker_row_def db_get_def example_worker_def new_worker_def)

text \<open>The autoscaler's counters never count a worker twice: serviceable, starting and draining
  workers are disjoint subsets of the deployment's workers, so their sum is at most the number of
  workers.\<close>

lemma scaling_counters_disjoint:
  "count_serviceable_workers cfg d + count_starting_workers cfg d + count_draining_workers cfg d
     \<le> count_workers cfg d"
proof -
  let ?rows = "db_workers d"
  have "db_count (serviceable_clause cfg) ?rows + db_count (provisioning_clause cfg) ?rows
      = db_count (\<lambda>w. serviceable_clause cfg w \<or> provisioning_clause cfg w) ?rows"
    by (rule db_count_or [symmetric]) (auto simp: serviceable_clause_def provisioning_clause_def)
  moreover have "db_count (\<lambda>w. serviceable_clause cfg w \<or> provisioning_clause cfg w) ?rows
      + db_count (draining_clause cfg) ?rows \<le> db_count (deployment_clause cfg) ?rows"
    by (rule db_count_disjoint2)
      (auto simp: serviceable_clause_def provisioning_clause_def draining_clause_def)
  ultimately show ?thesis
    by (simp add: count_serviceable_workers_def count_starting_workers_def count_draining_workers_def
        count_workers_def count_where_def)
qed

text \<open>The admin commands accept a worker that is already terminated: such a worker is not found
  by the read endpoint, yet a drain request changes its row and writes an audit event. The check they
  use claims to mirror the deployment filter but lacks its not-terminated conjunct.\<close>

lemma admin_accepts_terminated:
  assumes "get_worker_row wid d = Some row" and "row_in_deployment cfg row"
    and "w_terminated_at row \<noteq> None"
  shows "\<not> deployment_clause cfg row \<and> get_worker cfg wid d = None
    \<and> (\<exists>row' d'. set_drain_intent cfg now wid drain_target reason requester d = (Some row', d')
         \<and> w_draining row' \<and> w_drain_target row' = Some drain_target \<and> w_terminated_at row' \<noteq> None
         \<and> get_worker_row wid d' = Some row' \<and> length (db_events d') = Suc (length (db_events d)))"
proof -
  let ?f = "\<lambda>r :: worker. r\<lparr>w_draining := True, w_drain_target := Some drain_target\<rparr>"
  let ?res = "set_drain_intent cfg now wid drain_target reason requester d"
  have hit: "fst ?res = Some (save_worker now ?f row)"
      "get_worker_row wid (snd ?res) = Some (save_worker now ?f row)"
      "length (db_events (snd ?res)) = Suc (length (db_events d))"
    unfolding set_drain_intent_def
    using admin_update_hit [OF assms(1,2), where f = ?f] by simp_all
  have "w_draining (save_worker now ?f row)"
      "w_drain_target (save_worker now ?f row) = Some drain_target"
      "w_terminated_at (save_worker now ?f row) \<noteq> None"
    using assms(3) by simp_all
  with hit have "\<exists>row' d'. ?res = (Some row', d')
         \<and> w_draining row' \<and> w_drain_target row' = Some drain_target \<and> w_terminated_at row' \<noteq> None
         \<and> get_worker_row wid d' = Some row' \<and> length (db_events d') = Suc (length (db_events d))"
    by (intro exI [of _ "save_worker now ?f row"] exI [of _ "snd ?res"]) (simp add: prod_eq_iff)
  moreover have "\<not> deployment_clause cfg row \<and> get_worker cfg wid d = None"
    using assms by (simp add: deployment_clause_def get_worker_def)
  ultimately show ?thesis by blast
qed

end
