(* ===== verification/Storage.thy ===== *)
theory Storage
  imports Status
begin

text \<open>
  Object storage. \<open>store_ops\<close> is the abstract class \<open>CloudStorageProvider\<close> of
  \<^verbatim>\<open>cloud/base.py\<close>: its methods on an opaque store state \<open>'s\<close>, each returning an exception or a
  value together with the next state. \<open>s3_put\<close> and its companions are \<open>S3ObjectStore\<close> of
  \<^verbatim>\<open>cloud/aws/s3.py\<close> over the S3 client, which is a parameter (\<open>s3_client\<close>). The key builders
  and \<open>safe_delete\<close> are those of \<^verbatim>\<open>tasks/storage.py\<close>.

  The locale \<open>object_store\<close> states what the rest of the program relies on; the locale
  \<open>s3_service\<close> states the documented behaviour of the S3 API, and the sublocale shows that
  \<open>S3ObjectStore\<close> turns the one into the other. An operation that fails may or may not have taken
  effect on its own key and touches no other key.
\<close>

section \<open>Definitions\<close>

record 's store_ops =
  os_put :: "string \<Rightarrow> bytes \<Rightarrow> string \<Rightarrow> (string \<times> string) list option \<Rightarrow> 's \<Rightarrow> (exc + int) \<times> 's"
  os_get :: "string \<Rightarrow> 's \<Rightarrow> (exc + bytes) \<times> 's"
  os_exists :: "string \<Rightarrow> 's \<Rightarrow> (exc + bool) \<times> 's"
  os_delete :: "string \<Rightarrow> 's \<Rightarrow> (exc + bool) \<times> 's"
  os_copy :: "string \<Rightarrow> string \<Rightarrow> 's \<Rightarrow> (exc + unit) \<times> 's"

subsection \<open>Keys\<close>

definition PAYLOAD_PREFIX :: string where "PAYLOAD_PREFIX = ''payloads''"
definition RESULT_PREFIX :: string where "RESULT_PREFIX = ''results''"
definition CACHE_PREFIX :: string where "CACHE_PREFIX = ''cache''"
definition RESULT_FORMAT_ZIP :: string where "RESULT_FORMAT_ZIP = ''zip''"
definition RESULT_FORMAT_MISTRAL_JSON :: string where "RESULT_FORMAT_MISTRAL_JSON = ''mistral_json''"

definition payload_key :: "string \<Rightarrow> string" where
  "payload_key tid = PAYLOAD_PREFIX @ ''/'' @ tid @ ''.bin''"

definition result_key :: "string \<Rightarrow> string \<Rightarrow> string" where
  "result_key tid result_format =
    (if result_format = RESULT_FORMAT_MISTRAL_JSON then RESULT_PREFIX @ ''/'' @ tid @ ''.json''
     else RESULT_PREFIX @ ''/'' @ tid @ ''.zip'')"

definition cache_object_key :: "string \<Rightarrow> string option \<Rightarrow> string" where
  "cache_object_key cache_key generation =
    (let base = CACHE_PREFIX @ ''/'' @ cache_key in
     case generation of
       Some g \<Rightarrow> if g \<noteq> [] then base @ ''/'' @ g else base
     | None \<Rightarrow> base)"

definition task_status_url :: "string \<Rightarrow> string" where
  "task_status_url tid = ''/tasks/'' @ tid"

definition task_result_url :: "string \<Rightarrow> string" where
  "task_result_url tid = ''/tasks/'' @ tid @ ''/result''"

definition safe_delete :: "'s store_ops \<Rightarrow> string option \<Rightarrow> 's \<Rightarrow> bool \<times> 's" where
  "safe_delete store key s =
    (case key of
       None \<Rightarrow> (True, s)
     | Some k \<Rightarrow>
         if k = [] then (True, s)
         else (case os_delete store k s of
                 (Inr _, s') \<Rightarrow> (True, s')
               | (Inl _, s') \<Rightarrow> (False, s')))"

subsection \<open>The S3 store\<close>

text \<open>What an S3 call raises: a service error with its code and message, or a transport error.\<close>

datatype s3_error = ClientError string string | S3TransportError string

text \<open>What \<open>head_object\<close> answers of an object; every key may be missing from the response.\<close>

record object_head =
  oh_size :: "int option"
  oh_content_type :: "string option"
  oh_metadata :: "(string \<times> string) list"
  oh_last_modified :: "time option"

record 's s3_client =
  s3_head_bucket :: "string \<Rightarrow> 's \<Rightarrow> (s3_error + unit) \<times> 's"
  s3_put_object :: "string \<Rightarrow> string \<Rightarrow> bytes \<Rightarrow> string \<Rightarrow> (string \<times> string) list \<Rightarrow> 's \<Rightarrow> (s3_error + unit) \<times> 's"
  s3_get_object :: "string \<Rightarrow> string \<Rightarrow> 's \<Rightarrow> (s3_error + bytes) \<times> 's"
  s3_head_object :: "string \<Rightarrow> string \<Rightarrow> 's \<Rightarrow> (s3_error + object_head) \<times> 's"
  s3_delete_object :: "string \<Rightarrow> string \<Rightarrow> 's \<Rightarrow> (s3_error + unit) \<times> 's"
  s3_copy_object :: "string \<Rightarrow> string \<Rightarrow> string \<Rightarrow> string \<Rightarrow> 's \<Rightarrow> (s3_error + unit) \<times> 's"

definition MISSING_OBJECT_CODES :: "string set" where
  "MISSING_OBJECT_CODES = {''404'', ''NoSuchKey''}"

definition MISSING_BUCKET_CODES :: "string set" where
  "MISSING_BUCKET_CODES = {''404'', ''NoSuchBucket''}"

definition AUTH_ERROR_CODES :: "string set" where
  "AUTH_ERROR_CODES = {''403'', ''AccessDenied''}"

text \<open>An S3 error re-raised unchanged, as the callers' exception type sees it.\<close>

fun reraise :: "s3_error \<Rightarrow> exc" where
  "reraise (ClientError code msg) = OtherException None msg"
| "reraise (S3TransportError msg) = TransportError msg"

text \<open>\<open>except ClientError\<close> of the reading methods: a missing object is a \<open>KeyError\<close>.\<close>

fun missing_to_key_error :: "string \<Rightarrow> s3_error \<Rightarrow> exc" where
  "missing_to_key_error key (ClientError code msg) =
     (if code \<in> MISSING_OBJECT_CODES then KeyError key else reraise (ClientError code msg))"
| "missing_to_key_error key (S3TransportError msg) = reraise (S3TransportError msg)"

fun classify_s3_prepare_error :: "s3_error \<Rightarrow> exc" where
  "classify_s3_prepare_error (ClientError code msg) =
    (if code \<in> AUTH_ERROR_CODES then CloudError CAT_AUTH code msg False
     else if code \<in> MISSING_BUCKET_CODES then CloudError CAT_NOT_FOUND code msg False
     else CloudError CAT_UNKNOWN code msg False)"
| "classify_s3_prepare_error (S3TransportError msg) = reraise (S3TransportError msg)"

definition s3_prepare :: "'s s3_client \<Rightarrow> string \<Rightarrow> 's \<Rightarrow> (exc + unit) \<times> 's" where
  "s3_prepare c bucket s = apfst (map_sum classify_s3_prepare_error id) (s3_head_bucket c bucket s)"

definition s3_put :: "'s s3_client \<Rightarrow> string \<Rightarrow> string \<Rightarrow> bytes \<Rightarrow> string \<Rightarrow> (string \<times> string) list option \<Rightarrow> 's
    \<Rightarrow> (exc + int) \<times> 's" where
  "s3_put c bucket key body content_type metadata s =
     apfst (map_sum reraise (\<lambda>_. int (length body)))
       (s3_put_object c bucket key body content_type (case metadata of None \<Rightarrow> [] | Some m \<Rightarrow> m) s)"

definition s3_get :: "'s s3_client \<Rightarrow> string \<Rightarrow> string \<Rightarrow> 's \<Rightarrow> (exc + bytes) \<times> 's" where
  "s3_get c bucket key s = apfst (map_sum (missing_to_key_error key) id) (s3_get_object c bucket key s)"

text \<open>The buffered read of \<open>stream\<close>: slices of \<open>chunk_size\<close> bytes.\<close>

function stream_chunks :: "nat \<Rightarrow> bytes \<Rightarrow> bytes list" where
  "stream_chunks n data = (if n = 0 \<or> data = [] then [] else take n data # stream_chunks n (drop n data))"
  by pat_completeness auto
termination by (relation "measure (\<lambda>(n, data). length data)") auto

declare stream_chunks.simps [simp del]

definition s3_stream :: "'s s3_client \<Rightarrow> string \<Rightarrow> string \<Rightarrow> nat \<Rightarrow> 's \<Rightarrow> (exc + bytes list) \<times> 's" where
  "s3_stream c bucket key chunk_size s =
     apfst (map_sum (missing_to_key_error key) (stream_chunks chunk_size)) (s3_get_object c bucket key s)"

definition s3_exists :: "'s s3_client \<Rightarrow> string \<Rightarrow> string \<Rightarrow> 's \<Rightarrow> (exc + bool) \<times> 's" where
  "s3_exists c bucket key s =
    (case s3_head_object c bucket key s of
       (Inr _, s') \<Rightarrow> (Inr True, s')
     | (Inl (ClientError code msg), s') \<Rightarrow>
         (if code \<in> MISSING_OBJECT_CODES then Inr False else Inl (reraise (ClientError code msg)), s')
     | (Inl (S3TransportError msg), s') \<Rightarrow> (Inl (reraise (S3TransportError msg)), s'))"

definition s3_delete :: "'s s3_client \<Rightarrow> string \<Rightarrow> string \<Rightarrow> 's \<Rightarrow> (exc + bool) \<times> 's" where
  "s3_delete c bucket key s = apfst (map_sum reraise (\<lambda>_. True)) (s3_delete_object c bucket key s)"

definition s3_copy :: "'s s3_client \<Rightarrow> string \<Rightarrow> string \<Rightarrow> string \<Rightarrow> 's \<Rightarrow> (exc + unit) \<times> 's" where
  "s3_copy c bucket source destination s =
     apfst (map_sum reraise id) (s3_copy_object c bucket destination bucket source s)"

definition s3_head :: "'s s3_client \<Rightarrow> string \<Rightarrow> string \<Rightarrow> 's \<Rightarrow> (exc + object_head) \<times> 's" where
  "s3_head c bucket key s = apfst (map_sum (missing_to_key_error key) id) (s3_head_object c bucket key s)"

definition S3ObjectStore :: "'s s3_client \<Rightarrow> string \<Rightarrow> 's store_ops" where
  "S3ObjectStore c bucket =
    \<lparr>os_put = s3_put c bucket, os_get = s3_get c bucket, os_exists = s3_exists c bucket,
     os_delete = s3_delete c bucket, os_copy = s3_copy c bucket\<rparr>"

section \<open>Interfaces\<close>

lemma apfst_sum_Inl: "apfst (map_sum f g) p = (Inl e, s) \<longleftrightarrow> (\<exists>e0. p = (Inl e0, s) \<and> e = f e0)"
  by (cases p; cases "fst p") (auto simp: apfst_def)

lemma apfst_sum_Inr: "apfst (map_sum f g) p = (Inr v, s) \<longleftrightarrow> (\<exists>v0. p = (Inr v0, s) \<and> v = g v0)"
  by (cases p; cases "fst p") (auto simp: apfst_def)

lemma apfst_snd: "apfst h p = (r, s) \<Longrightarrow> \<exists>r0. p = (r0, s)"
  by (cases p) (auto simp: apfst_def)

lemmas apfst_sum = apfst_sum_Inl apfst_sum_Inr

lemma key_error_missing:
  "missing_to_key_error k err = KeyError e \<Longrightarrow> \<exists>code msg. err = ClientError code msg \<and> code \<in> MISSING_OBJECT_CODES"
  by (cases err) (auto split: if_splits)

locale object_store =
  fixes store :: "'s store_ops"
    and contents :: "'s \<Rightarrow> string \<Rightarrow> bytes option"
  assumes put_ok: "os_put store k data ct md s = (Inr n, s') \<Longrightarrow>
            contents s' = (contents s)(k \<mapsto> data) \<and> n = int (length data)"
    and put_frame: "os_put store k data ct md s = (r, s') \<Longrightarrow> k' \<noteq> k \<Longrightarrow> contents s' k' = contents s k'"
    and get_ok: "os_get store k s = (Inr data, s') \<Longrightarrow> contents s k = Some data"
    and get_missing: "os_get store k s = (Inl (KeyError e), s') \<Longrightarrow> contents s k = None"
    and get_frame: "os_get store k s = (rg, s') \<Longrightarrow> contents s' = contents s"
    and delete_ok: "os_delete store k s = (Inr deleted, s') \<Longrightarrow> contents s' = (contents s)(k := None)"
    and delete_frame: "os_delete store k s = (rd, s') \<Longrightarrow> k' \<noteq> k \<Longrightarrow> contents s' k' = contents s k'"
    and delete_absent: "os_delete store k s = (rd, s') \<Longrightarrow> contents s k = None \<Longrightarrow> contents s' k = None"
    and copy_ok: "os_copy store a b s = (Inr u, s') \<Longrightarrow>
            contents s a \<noteq> None \<and> contents s' = (contents s)(b := contents s a)"
    and copy_frame: "os_copy store a b s = (rc, s') \<Longrightarrow> k' \<noteq> b \<Longrightarrow> contents s' k' = contents s k'"
begin

lemma put_get:
  assumes "os_put store k data ct md s = (Inr n, s1)" and "os_get store k s1 = (Inr data', s2)"
  shows "data' = data"
  using put_ok [OF assms(1)] get_ok [OF assms(2)] by simp

lemma safe_delete_frame:
  assumes "safe_delete store key s = (b, s')" and "key \<noteq> Some k"
  shows "contents s' k = contents s k"
  using assms delete_frame by (fastforce simp: safe_delete_def split: option.splits if_splits prod.splits sum.splits)

lemma safe_delete_deletes:
  assumes "safe_delete store key s = (True, s')" and "truthy key"
  shows "contents s' (the key) = None"
  using assms delete_ok
  by (fastforce simp: safe_delete_def truthy_Some split: option.splits if_splits prod.splits sum.splits)

lemma safe_delete_absent:
  assumes "safe_delete store key s = (b, s')" and "contents s k = None"
  shows "contents s' k = None"
proof (cases "key = Some k")
  case True
  then show ?thesis using assms delete_absent by (auto simp: safe_delete_def split: if_splits prod.splits sum.splits)
qed (use safe_delete_frame [OF assms(1)] assms(2) in simp)

lemma safe_delete_none:
  assumes "\<not> truthy key" shows "safe_delete store key s = (True, s)"
  using assms by (cases key) (auto simp: safe_delete_def)

end

text \<open>The documented behaviour of the S3 API, per bucket and key.\<close>

locale s3_service =
  fixes client :: "'s s3_client"
    and objects :: "'s \<Rightarrow> string \<Rightarrow> string \<Rightarrow> bytes option"
  assumes put_object_ok: "s3_put_object client b k data ct md s = (Inr u, s') \<Longrightarrow>
            objects s' b = (objects s b)(k \<mapsto> data)"
    and put_object_frame: "s3_put_object client b k data ct md s = (r, s') \<Longrightarrow> k' \<noteq> k \<Longrightarrow>
            objects s' b k' = objects s b k'"
    and get_object_ok: "s3_get_object client b k s = (Inr data, s') \<Longrightarrow> objects s b k = Some data"
    and get_object_missing: "s3_get_object client b k s = (Inl (ClientError code msg), s') \<Longrightarrow>
            code \<in> {''404'', ''NoSuchKey''} \<Longrightarrow> objects s b k = None"
    and get_object_frame: "s3_get_object client b k s = (rg, s') \<Longrightarrow> objects s' = objects s"
    and delete_object_ok: "s3_delete_object client b k s = (Inr u, s') \<Longrightarrow>
            objects s' b = (objects s b)(k := None)"
    and delete_object_frame: "s3_delete_object client b k s = (r, s') \<Longrightarrow> k' \<noteq> k \<Longrightarrow>
            objects s' b k' = objects s b k'"
    and delete_object_absent: "s3_delete_object client b k s = (r, s') \<Longrightarrow> objects s b k = None \<Longrightarrow>
            objects s' b k = None"
    and copy_object_ok: "s3_copy_object client b dst b src s = (Inr u, s') \<Longrightarrow>
            objects s b src \<noteq> None \<and> objects s' b = (objects s b)(dst := objects s b src)"
    and copy_object_frame: "s3_copy_object client b dst b src s = (r, s') \<Longrightarrow> k' \<noteq> dst \<Longrightarrow>
            objects s' b k' = objects s b k'"
begin

lemma s3_get_key_error:
  assumes "s3_get client bucket k s = (Inl (KeyError e), s')"
  shows "objects s bucket k = None"
proof -
  from assms obtain err where "s3_get_object client bucket k s = (Inl err, s')"
    "missing_to_key_error k err = KeyError e"
    by (auto simp: s3_get_def apfst_sum)
  then show ?thesis
    by (auto dest!: key_error_missing simp: MISSING_OBJECT_CODES_def dest: get_object_missing)
qed

end

sublocale s3_service \<subseteq> object_store "S3ObjectStore client bucket" "\<lambda>s. objects s bucket" for bucket
proof (unfold_locales, goal_cases)
  case (1 k data ct md s n s')
  then show ?case by (auto simp: S3ObjectStore_def s3_put_def apfst_sum dest: put_object_ok)
next
  case (2 k data ct md s r s' k')
  then show ?case by (auto simp: S3ObjectStore_def s3_put_def dest!: apfst_snd dest: put_object_frame)
next
  case (3 k s data s')
  then show ?case by (auto simp: S3ObjectStore_def s3_get_def apfst_sum dest: get_object_ok)
next
  case (4 k s e s')
  then show ?case by (auto simp: S3ObjectStore_def dest: s3_get_key_error)
next
  case (5 k s rg s')
  then show ?case by (auto simp: S3ObjectStore_def s3_get_def dest!: apfst_snd dest: get_object_frame)
next
  case (6 k s b s')
  then show ?case by (auto simp: S3ObjectStore_def s3_delete_def apfst_sum dest: delete_object_ok)
next
  case (7 k s rd s' k')
  then show ?case by (auto simp: S3ObjectStore_def s3_delete_def dest!: apfst_snd dest: delete_object_frame)
next
  case (8 k s rd s')
  then show ?case by (auto simp: S3ObjectStore_def s3_delete_def dest!: apfst_snd dest: delete_object_absent)
next
  case (9 a b s u s')
  then show ?case by (auto simp: S3ObjectStore_def s3_copy_def apfst_sum dest: copy_object_ok)
next
  case (10 a b s rc s' k')
  then show ?case by (auto simp: S3ObjectStore_def s3_copy_def dest!: apfst_snd dest: copy_object_frame)
qed

section \<open>An in-memory S3 client\<close>

text \<open>A client that keeps its objects in a map and never fails on an existing object: the concrete
  instance on which the properties below are evaluated.\<close>

type_synonym buckets = "string \<times> string \<Rightarrow> bytes option"

definition memory_client :: "buckets s3_client" where
  "memory_client =
    \<lparr>s3_head_bucket = \<lambda>b s. (Inr (), s),
     s3_put_object = \<lambda>b k data ct md s. (Inr (), s((b, k) \<mapsto> data)),
     s3_get_object = \<lambda>b k s. (case s (b, k) of None \<Rightarrow> Inl (ClientError ''NoSuchKey'' k) | Some x \<Rightarrow> Inr x, s),
     s3_head_object = \<lambda>b k s. (case s (b, k) of None \<Rightarrow> Inl (ClientError ''404'' k) 
        | Some x \<Rightarrow> Inr \<lparr>oh_size = Some (int (length x)), oh_content_type = None, oh_metadata = [], oh_last_modified = None\<rparr>, s),
     s3_delete_object = \<lambda>b k s. (Inr (), s((b, k) := None)),
     s3_copy_object = \<lambda>b dst b' src s. (case s (b', src) of
        None \<Rightarrow> (Inl (ClientError ''NoSuchKey'' src), s) | Some x \<Rightarrow> (Inr (), s((b, dst) \<mapsto> x)))\<rparr>"

interpretation memory: s3_service memory_client "\<lambda>s b k. s (b, k)"
  by unfold_locales (auto simp: memory_client_def split: option.splits if_splits)

section \<open>Properties\<close>

lemma stream_chunks_correct:
  assumes "0 < n"
  shows "concat (stream_chunks n data) = data \<and> list_all (\<lambda>c. c \<noteq> [] \<and> length c \<le> n) (stream_chunks n data)"
  using assms
proof (induction n data rule: stream_chunks.induct)
  case (1 n data)
  then show ?case
    by (cases "data = []") (auto simp: stream_chunks.simps [of n data] stream_chunks.simps [of n "[]"])
qed

lemma key_shapes:
  "payload_key t = ''payloads/'' @ t @ ''.bin''"
  "result_key t f = ''results/'' @ t @ (if f = ''mistral_json'' then ''.json'' else ''.zip'')"
  "g \<noteq> [] \<Longrightarrow> cache_object_key c (Some g) = ''cache/'' @ c @ ''/'' @ g"
  by (simp_all add: payload_key_def result_key_def cache_object_key_def PAYLOAD_PREFIX_def
      RESULT_PREFIX_def CACHE_PREFIX_def RESULT_FORMAT_MISTRAL_JSON_def)

lemma slash_split:
  assumes "a @ CHR ''/'' # x = b @ CHR ''/'' # y" "CHR ''/'' \<notin> set a" "CHR ''/'' \<notin> set b"
  shows "a = b \<and> x = y"
  using assms
proof (induction a arbitrary: b)
  case Nil
  then show ?case by (cases b) auto
next
  case (Cons c a)
  then show ?case by (cases b) auto
qed

text \<open>The three key spaces of the bucket never overlap, and within each the key determines what it
  was built from: two tasks never share a payload or a result object, and two cache objects with the
  same key belong to the same cache entry (a hex digest, so without a slash) and generation.\<close>

lemma object_keys_separate:
  assumes "CHR ''/'' \<notin> set c" and "CHR ''/'' \<notin> set c'" and "g \<noteq> []" and "g' \<noteq> []"
  shows "payload_key t \<noteq> result_key t' f \<and> payload_key t \<noteq> cache_object_key c (Some g)
    \<and> result_key t f \<noteq> cache_object_key c (Some g)
    \<and> (payload_key t = payload_key t' \<longleftrightarrow> t = t') \<and> (result_key t f = result_key t' f \<longleftrightarrow> t = t')
    \<and> (cache_object_key c (Some g) = cache_object_key c' (Some g') \<longleftrightarrow> c = c' \<and> g = g')"
  using assms slash_split [of c g c' g'] by (auto simp: key_shapes)

end
