(* ===== verification/Json.thy ===== *)
theory Json
  imports Prelude
begin

text \<open>
  The part of Python's \<^verbatim>\<open>json\<close> module the program relies on: \<open>json_dumps\<close> with its default ASCII
  escaping and a choice of separators, and \<open>json_loads\<close>. Text is a sequence of characters with codes
  below 256, numbers are integers; a fractional number or an escape beyond that range is rejected
  by the model's parser. The parser takes as fuel the length of its input, which is enough because
  every call consumes a character (\<open>json_roundtrip\<close>).
\<close>

section \<open>Definitions\<close>

datatype json =
    JNull | JBool bool | JInt int | JStr string | JList "json list" | JObj "(string \<times> json) list"

fun join :: "string \<Rightarrow> string list \<Rightarrow> string" where
  "join sep [] = []"
| "join sep [x] = x"
| "join sep (x # y # xs) = x @ sep @ join sep (y # xs)"

definition hex_digit :: "nat \<Rightarrow> char" where
  "hex_digit n = (if n < 10 then char_of (48 + n) else char_of (87 + n))"

definition escape_char :: "char \<Rightarrow> string" where
  "escape_char c =
    (let k = of_char c :: nat in
     if k = 34 then [CHR 92, CHR 34]
     else if k = 92 then [CHR 92, CHR 92]
     else if k = 10 then [CHR 92, CHR ''n'']
     else if k = 13 then [CHR 92, CHR ''r'']
     else if k = 9 then [CHR 92, CHR ''t'']
     else if k = 8 then [CHR 92, CHR ''b'']
     else if k = 12 then [CHR 92, CHR ''f'']
     else if 32 \<le> k \<and> k < 127 then [c]
     else [CHR 92, CHR ''u'', CHR ''0'', CHR ''0'', hex_digit (k div 16), hex_digit (k mod 16)])"

definition quote :: "string \<Rightarrow> string" where
  "quote s = CHR 34 # concat (map escape_char s) @ [CHR 34]"

fun show_nat :: "nat \<Rightarrow> string" where
  "show_nat n = (if n < 10 then [char_of (48 + n)] else show_nat (n div 10) @ [char_of (48 + n mod 10)])"

definition show_int :: "int \<Rightarrow> string" where
  "show_int i = (if i < 0 then CHR ''-'' # show_nat (nat (- i)) else show_nat (nat i))"

fun json_dumps :: "string \<Rightarrow> string \<Rightarrow> json \<Rightarrow> string" where
  "json_dumps sep kv JNull = ''null''"
| "json_dumps sep kv (JBool b) = (if b then ''true'' else ''false'')"
| "json_dumps sep kv (JInt i) = show_int i"
| "json_dumps sep kv (JStr s) = quote s"
| "json_dumps sep kv (JList xs) = CHR ''['' # join sep (map (json_dumps sep kv) xs) @ '']''"
| "json_dumps sep kv (JObj ps) =
     CHR ''{'' # join sep (map (\<lambda>(k, v). quote k @ kv @ json_dumps sep kv v) ps) @ ''}''"

subsection \<open>Parsing\<close>

definition json_space :: "char \<Rightarrow> bool" where
  "json_space c \<longleftrightarrow> c \<in> {CHR '' '', CHR 9, CHR 10, CHR 13}"

definition skip :: "string \<Rightarrow> string" where
  "skip s = dropWhile json_space s"

definition hex_value :: "char \<Rightarrow> nat option" where
  "hex_value c =
    (let k = of_char c :: nat in
     if 48 \<le> k \<and> k \<le> 57 then Some (k - 48)
     else if 97 \<le> k \<and> k \<le> 102 then Some (k - 87)
     else if 65 \<le> k \<and> k \<le> 70 then Some (k - 55) else None)"

text \<open>The character a backslash stands for, with the rest of the input.\<close>

fun parse_escape :: "string \<Rightarrow> (char \<times> string) option" where
  "parse_escape [] = None"
| "parse_escape (c # s) =
    (let k = of_char c :: nat in
     if k = 34 \<or> k = 92 \<or> k = 47 then Some (c, s)
     else if k = 110 then Some (CHR 10, s)
     else if k = 114 then Some (CHR 13, s)
     else if k = 116 then Some (CHR 9, s)
     else if k = 98 then Some (CHR 8, s)
     else if k = 102 then Some (CHR 12, s)
     else if k = 117 then
       (case s of
          a # b # x # y # r \<Rightarrow>
            (case (hex_value a, hex_value b, hex_value x, hex_value y) of
               (Some 0, Some 0, Some h, Some l) \<Rightarrow> Some (char_of (16 * h + l), r)
             | _ \<Rightarrow> None)
        | _ \<Rightarrow> None)
     else None)"

lemma parse_escape_length: "parse_escape s = Some (c, r) \<Longrightarrow> length r < length s"
  by (cases s) (auto simp: Let_def split: if_splits list.splits option.splits nat.splits prod.splits)

text \<open>The body of a string literal, up to the closing quote.\<close>

function parse_string :: "string \<Rightarrow> (string \<times> string) option" where
  "parse_string [] = None"
| "parse_string (c # s) =
    (let k = of_char c :: nat in
     if k = 34 then Some ([], s)
     else if k = 92 then
       (case parse_escape s of
          None \<Rightarrow> None
        | Some (d, r) \<Rightarrow> (case parse_string r of None \<Rightarrow> None | Some (t, r') \<Rightarrow> Some (d # t, r')))
     else if k < 32 then None
     else (case parse_string s of None \<Rightarrow> None | Some (t, r') \<Rightarrow> Some (c # t, r')))"
  by pat_completeness auto
termination by (relation "measure length") (auto dest: parse_escape_length)

definition is_digit :: "char \<Rightarrow> bool" where
  "is_digit c \<longleftrightarrow> (let k = of_char c :: nat in 48 \<le> k \<and> k \<le> 57)"

definition digits_value :: "string \<Rightarrow> nat" where
  "digits_value s = foldl (\<lambda>a c. 10 * a + (of_char c - 48)) 0 s"

text \<open>An unsigned integer literal: a single zero or digits without a leading zero.\<close>

definition parse_digits :: "string \<Rightarrow> (nat \<times> string) option" where
  "parse_digits s =
    (case s of
       [] \<Rightarrow> None
     | c # r \<Rightarrow>
         if \<not> is_digit c then None
         else
           (let (ds, r') = (if c = CHR ''0'' then ([c], r) else (takeWhile is_digit s, dropWhile is_digit s))
            in if r' \<noteq> [] \<and> hd r' \<in> {CHR ''.'', CHR ''e'', CHR ''E''} then None
               else Some (digits_value ds, r')))"

definition parse_int :: "string \<Rightarrow> (int \<times> string) option" where
  "parse_int s =
    (case s of
       [] \<Rightarrow> None
     | c # r \<Rightarrow>
         if c = CHR ''-'' then map_option (apfst (\<lambda>n. - int n)) (parse_digits r)
         else map_option (apfst int) (parse_digits s))"

definition strip_prefix :: "string \<Rightarrow> string \<Rightarrow> string option" where
  "strip_prefix p s = (if take (length p) s = p then Some (drop (length p) s) else None)"

definition dict_of_pairs :: "(string \<times> json) list \<Rightarrow> (string \<times> json) list" where
  "dict_of_pairs ps = foldl (\<lambda>d (k, v). dict_set k v d) [] ps"

fun jvalue :: "nat \<Rightarrow> string \<Rightarrow> (json \<times> string) option"
and jelems :: "nat \<Rightarrow> string \<Rightarrow> (json list \<times> string) option"
and jmembers :: "nat \<Rightarrow> string \<Rightarrow> ((string \<times> json) list \<times> string) option" where
  "jvalue 0 s = None"
| "jvalue (Suc n) s =
    (case s of
       [] \<Rightarrow> None
     | c # r \<Rightarrow>
         if c = CHR 34 then map_option (apfst JStr) (parse_string r)
         else if c = CHR ''['' then
           (case skip r of
              [] \<Rightarrow> None
            | c' # r' \<Rightarrow> if c' = CHR '']'' then Some (JList [], r')
                         else map_option (apfst JList) (jelems n (c' # r')))
         else if c = CHR ''{'' then
           (case skip r of
              [] \<Rightarrow> None
            | c' # r' \<Rightarrow> if c' = CHR ''}'' then Some (JObj [], r')
                         else map_option (apfst (JObj \<circ> dict_of_pairs)) (jmembers n (c' # r')))
         else if c = CHR ''n'' then map_option (\<lambda>r'. (JNull, r')) (strip_prefix ''null'' s)
         else if c = CHR ''t'' then map_option (\<lambda>r'. (JBool True, r')) (strip_prefix ''true'' s)
         else if c = CHR ''f'' then map_option (\<lambda>r'. (JBool False, r')) (strip_prefix ''false'' s)
         else map_option (apfst JInt) (parse_int s))"
| "jelems 0 s = None"
| "jelems (Suc n) s =
    (case jvalue n s of
       None \<Rightarrow> None
     | Some (v, r) \<Rightarrow>
         (case skip r of
            [] \<Rightarrow> None
          | c # r' \<Rightarrow>
              if c = CHR '']'' then Some ([v], r')
              else if c = CHR '','' then map_option (apfst (\<lambda>vs. v # vs)) (jelems n (skip r'))
              else None))"
| "jmembers 0 s = None"
| "jmembers (Suc n) s =
    (case s of
       [] \<Rightarrow> None
     | c # r \<Rightarrow>
         if c \<noteq> CHR 34 then None
         else
           (case parse_string r of
              None \<Rightarrow> None
            | Some (k, r1) \<Rightarrow>
                (case skip r1 of
                   [] \<Rightarrow> None
                 | c1 # r2 \<Rightarrow>
                     if c1 \<noteq> CHR '':'' then None
                     else
                       (case jvalue n (skip r2) of
                          None \<Rightarrow> None
                        | Some (v, r3) \<Rightarrow>
                            (case skip r3 of
                               [] \<Rightarrow> None
                             | c3 # r4 \<Rightarrow>
                                 if c3 = CHR ''}'' then Some ([(k, v)], r4)
                                 else if c3 = CHR '','' then
                                   map_option (apfst (\<lambda>ps. (k, v) # ps)) (jmembers n (skip r4))
                                 else None)))))"

definition json_loads :: "string \<Rightarrow> json option" where
  "json_loads s =
    (case jvalue (Suc (length s)) (skip s) of
       None \<Rightarrow> None
     | Some (v, r) \<Rightarrow> if skip r = [] then Some v else None)"

section \<open>Lemmas\<close>

declare show_nat.simps [simp del]

lemma char_codes:
  "((of_char c :: nat) = 34) = (c = CHR 34)" "((of_char c :: nat) = 92) = (c = CHR 92)"
  "((of_char c :: nat) = 10) = (c = CHR 10)" "((of_char c :: nat) = 13) = (c = CHR 13)"
  "((of_char c :: nat) = 9) = (c = CHR 9)" "((of_char c :: nat) = 8) = (c = CHR 8)"
  "((of_char c :: nat) = 12) = (c = CHR 12)"
  using of_char_eq_iff [of c "CHR 34", where 'a = nat] of_char_eq_iff [of c "CHR 92", where 'a = nat]
    of_char_eq_iff [of c "CHR 10", where 'a = nat] of_char_eq_iff [of c "CHR 13", where 'a = nat]
    of_char_eq_iff [of c "CHR 9", where 'a = nat] of_char_eq_iff [of c "CHR 8", where 'a = nat]
    of_char_eq_iff [of c "CHR 12", where 'a = nat]
  by (simp_all del: of_char_eq_iff)

lemma hex_value_digit: "n < 16 \<Longrightarrow> hex_value (hex_digit n) = Some n"
  by (auto simp: hex_value_def hex_digit_def Let_def)

lemma of_char_bound: "(of_char c :: nat) < 256"
  by (metis nat_of_char_less_256)

lemma parse_escape_hex:
  assumes "h < 16" "l < 16"
  shows "parse_escape (CHR ''u'' # CHR ''0'' # CHR ''0'' # hex_digit h # hex_digit l # t) = Some (char_of (16 * h + l), t)"
proof -
  have "hex_value (CHR ''0'') = Some 0" by (simp add: hex_value_def)
  then show ?thesis using assms by (simp add: hex_value_digit)
qed

lemma parse_string_escaped:
  "parse_string (escape_char c @ t) = map_option (apfst (\<lambda>u. c # u)) (parse_string t)"
proof -
  have wrap: "(case parse_string t of None \<Rightarrow> None | Some (u, r') \<Rightarrow> Some (d # u, r'))
      = map_option (apfst (\<lambda>u. d # u)) (parse_string t)" for d
    by (auto split: option.splits)
  let ?k = "of_char c :: nat"
  consider "?k = 34" | "?k = 92" | "?k = 10" | "?k = 13" | "?k = 9" | "?k = 8" | "?k = 12"
    | "32 \<le> ?k" "?k < 127" "?k \<noteq> 34" "?k \<noteq> 92" | "?k < 32 \<or> 127 \<le> ?k" "?k \<notin> {8, 9, 10, 12, 13}" by fastforce
  then show ?thesis
  proof cases
    case 8
    then show ?thesis by (simp add: escape_char_def Let_def wrap)
  next
    case 9
    then have "?k \<noteq> 34" "?k \<noteq> 92" by auto
    with 9 have esc: "escape_char c = [CHR 92, CHR ''u'', CHR ''0'', CHR ''0'', hex_digit (?k div 16), hex_digit (?k mod 16)]"
      by (auto simp: escape_char_def Let_def)
    have "?k div 16 < 16" using of_char_bound [of c] by (simp add: div_less_iff_less_mult)
    then have "parse_escape (CHR ''u'' # CHR ''0'' # CHR ''0'' # hex_digit (?k div 16) # hex_digit (?k mod 16) # t)
        = Some (char_of (16 * (?k div 16) + ?k mod 16), t)"
      by (rule parse_escape_hex) simp
    then have "parse_escape (CHR ''u'' # CHR ''0'' # CHR ''0'' # hex_digit (?k div 16) # hex_digit (?k mod 16) # t)
        = Some (c, t)" by simp
    then show ?thesis unfolding esc by (simp add: wrap del: parse_escape.simps)
  qed (simp_all add: char_codes, simp_all add: escape_char_def Let_def wrap)
qed

lemma parse_quoted: "parse_string (concat (map escape_char s) @ CHR 34 # r) = Some (s, r)"
  by (induction s) (simp_all add: parse_string_escaped)

lemma show_nat_digits: "list_all is_digit (show_nat n) \<and> show_nat n \<noteq> [] \<and> digits_value (show_nat n) = n
    \<and> (0 < n \<longrightarrow> hd (show_nat n) \<noteq> CHR ''0'')"
proof (induction n rule: show_nat.induct)
  case (1 n)
  have small: "m < 10 \<Longrightarrow> of_char (char_of (48 + m) :: char) = (48 + m :: nat)" for m
    by (simp add: of_char_of)
  show ?case
  proof (cases "n < 10")
    case True
    have "n = 0" if "char_of (48 + n) = CHR ''0''"
    proof -
      have "(of_char (CHR ''0'') :: nat) = 48" by simp
      then show ?thesis using small [OF True] that by simp
    qed
    then show ?thesis using True small [of n]
      by (auto simp: show_nat.simps [of n] is_digit_def digits_value_def Let_def)
  next
    case False
    have "n mod 10 < 10" by simp
    then show ?thesis using False 1 small [of "n mod 10"]
      by (auto simp: show_nat.simps [of n] is_digit_def digits_value_def Let_def hd_append)
  qed
qed

text \<open>What may follow a value in a well-formed text.\<close>

definition follows :: "string \<Rightarrow> bool" where
  "follows r \<longleftrightarrow> r = [] \<or> hd r \<in> {CHR '','', CHR '']'', CHR ''}''}"

lemma follows_not_digit: "follows r \<Longrightarrow> takeWhile is_digit r = [] \<and> dropWhile is_digit r = r
    \<and> (r \<noteq> [] \<longrightarrow> hd r \<notin> {CHR ''.'', CHR ''e'', CHR ''E''})"
  by (cases r) (auto simp: follows_def is_digit_def)

lemma parse_digits_show:
  assumes "follows r" shows "parse_digits (show_nat n @ r) = Some (n, r)"
proof -
  note D = show_nat_digits [of n] and F = follows_not_digit [OF assms]
  obtain c cs where hd: "show_nat n = c # cs" using D by (cases "show_nat n") auto
  have whole: "takeWhile is_digit (show_nat n @ r) = show_nat n" "dropWhile is_digit (show_nat n @ r) = r"
    using D F by (simp_all add: list_all_iff takeWhile_append2 dropWhile_append2)
  show ?thesis
  proof (cases "c = CHR ''0''")
    case True
    then have "n = 0" using D hd by auto
    then have "length (show_nat n) = 1" by (simp add: show_nat.simps)
    then have "show_nat n = [CHR ''0'']" using hd True by simp
    then show ?thesis using F D by (auto simp: parse_digits_def is_digit_def)
  next
    case False
    have "is_digit c" using D hd by simp
    then have "parse_digits (show_nat n @ r) = Some (digits_value (show_nat n), r)"
      using False whole F unfolding hd by (auto simp: parse_digits_def)
    then show ?thesis using D by simp
  qed
qed

lemma parse_int_show:
  assumes "follows r" shows "parse_int (show_int i @ r) = Some (i, r)"
proof (cases "i < 0")
  case True
  then show ?thesis using parse_digits_show [OF assms, of "nat (- i)"] by (simp add: show_int_def parse_int_def)
next
  case False
  obtain c cs where hd: "show_nat (nat i) = c # cs" using show_nat_digits [of "nat i"] by (cases "show_nat (nat i)") auto
  then have "is_digit c" using show_nat_digits [of "nat i"] by simp
  then have "c \<noteq> CHR ''-''" by (auto simp: is_digit_def)
  then show ?thesis using False parse_digits_show [OF assms, of "nat i"] hd
    by (simp add: show_int_def parse_int_def)
qed

text \<open>The first character of a printed value tells the parser which branch to take.\<close>

definition value_start :: "char \<Rightarrow> bool" where
  "value_start c \<longleftrightarrow> c \<in> {CHR 34, CHR ''['', CHR ''{'', CHR ''n'', CHR ''t'', CHR ''f'', CHR ''-''} \<or> is_digit c"

lemma show_int_start: "\<exists>c s. show_int i = c # s \<and> (c = CHR ''-'' \<or> is_digit c)"
  using show_nat_digits [of "nat i"] show_nat_digits [of "nat (- i)"]
  by (cases "show_nat (nat i)") (auto simp: show_int_def)

lemma dumps_start: "\<exists>c s. json_dumps sep kv v = c # s \<and> value_start c"
  using show_int_start by (cases v) (fastforce simp: value_start_def quote_def)+

lemma value_start_not: "value_start c \<Longrightarrow> \<not> json_space c \<and> c \<noteq> CHR '']'' \<and> c \<noteq> CHR ''}''"
  by (auto simp: value_start_def json_space_def is_digit_def)

lemma skip_nonspace [simp]: "\<not> json_space c \<Longrightarrow> skip (c # s) = c # s"
  by (simp add: skip_def)

lemma punct_not_space [simp]:
  "\<not> json_space CHR 34" "\<not> json_space (CHR '','')" "\<not> json_space (CHR '']'')" "\<not> json_space (CHR ''}'')"
  "\<not> json_space (CHR '':'')"
  by (simp_all add: json_space_def)

lemma skip_dumps [simp]: "skip (json_dumps sep kv v @ r) = json_dumps sep kv v @ r"
proof -
  obtain c s where "json_dumps sep kv v = c # s" "value_start c" using dumps_start by metis
  then show ?thesis using value_start_not by simp
qed

lemma join_Cons: "xs \<noteq> [] \<Longrightarrow> join sep (x # xs) = x @ sep @ join sep xs"
  by (cases xs) auto

text \<open>Separators of the two styles the program prints: with and without a blank.\<close>

definition style :: "string \<Rightarrow> string \<Rightarrow> bool" where
  "style sep kv \<longleftrightarrow> (sep, kv) = ('', '', '': '') \<or> (sep, kv) = ('','', '':'')"

lemma style_skip:
  assumes "style sep kv"
  shows "\<exists>s. sep = CHR '','' # s \<and> (\<forall>r. skip (s @ json_dumps sep' kv' v @ r) = json_dumps sep' kv' v @ r)
      \<and> (\<forall>r. skip (s @ CHR 34 # r) = CHR 34 # r)"
    and "\<exists>s. kv = CHR '':'' # s \<and> (\<forall>r. skip (s @ json_dumps sep' kv' v @ r) = json_dumps sep' kv' v @ r)"
proof -
  have blank: "skip (CHR '' '' # x) = skip x" for x by (simp add: skip_def json_space_def)
  show "\<exists>s. sep = CHR '','' # s \<and> (\<forall>r. skip (s @ json_dumps sep' kv' v @ r) = json_dumps sep' kv' v @ r)
      \<and> (\<forall>r. skip (s @ CHR 34 # r) = CHR 34 # r)"
    and "\<exists>s. kv = CHR '':'' # s \<and> (\<forall>r. skip (s @ json_dumps sep' kv' v @ r) = json_dumps sep' kv' v @ r)"
    using assms by (auto simp: style_def blank)
qed

text \<open>A Python value: every object has distinct keys.\<close>

fun json_wf :: "json \<Rightarrow> bool" where
  "json_wf (JList xs) = list_all json_wf xs"
| "json_wf (JObj ps) = (distinct (map fst ps) \<and> list_all (\<lambda>p. json_wf (snd p)) ps)"
| "json_wf _ = True"

lemma dict_set_fresh: "k \<notin> fst ` set d \<Longrightarrow> dict_set k v d = d @ [(k, v)]"
  by (induction k v d rule: dict_set.induct) auto

lemma dict_of_pairs_distinct:
  assumes "distinct (map fst ps)" shows "dict_of_pairs ps = ps"
proof -
  have "foldl (\<lambda>d (k, v). dict_set k v d) acc ps = acc @ ps" if "distinct (map fst (acc @ ps))" for acc
    using that
  proof (induction ps arbitrary: acc)
    case (Cons p ps)
    then show ?case by (cases p) (auto simp: dict_set_fresh)
  qed simp
  from this [of "[]"] show ?thesis using assms by (simp add: dict_of_pairs_def)
qed

lemma jelems_roundtrip:
  assumes "style sep kv"
    and "\<And>x n r. x \<in> set xs \<Longrightarrow> follows r \<Longrightarrow> length (json_dumps sep kv x) \<le> n \<Longrightarrow>
           jvalue n (json_dumps sep kv x @ r) = Some (x, r)"
    and "xs \<noteq> []" and "length (join sep (map (json_dumps sep kv) xs)) < n"
  shows "jelems n (join sep (map (json_dumps sep kv) xs) @ CHR '']'' # r) = Some (xs, r)"
  using assms(2-)
proof (induction xs arbitrary: n)
  case (Cons x xs)
  obtain m where n: "n = Suc m" using Cons.prems(3) by (cases n) auto
  show ?case
  proof (cases xs)
    case Nil
    have "jvalue m (json_dumps sep kv x @ CHR '']'' # r) = Some (x, CHR '']'' # r)"
      using Cons.prems(3) Nil n by (intro Cons.prems(1)) (auto simp: follows_def)
    then show ?thesis using Nil n by simp
  next
    case (Cons y ys)
    let ?rest = "join sep (map (json_dumps sep kv) xs) @ CHR '']'' # r"
    obtain s where s: "sep = CHR '','' # s" "\<And>r. skip (s @ json_dumps sep kv y @ r) = json_dumps sep kv y @ r"
      using style_skip(1) [OF assms(1), of sep kv y] by blast
    have j: "join sep (map (json_dumps sep kv) (x # xs)) = json_dumps sep kv x @ sep @ join sep (map (json_dumps sep kv) xs)"
      using Cons by (simp add: join_Cons)
    have len: "length (json_dumps sep kv x) \<le> m" "length (join sep (map (json_dumps sep kv) xs)) < m"
      using Cons.prems(3) n dumps_start [of sep kv x] unfolding j by (auto simp: s)
    have v: "jvalue m (json_dumps sep kv x @ sep @ ?rest) = Some (x, sep @ ?rest)"
      using len by (intro Cons.prems(1)) (auto simp: follows_def s)
    have tail: "jelems m ?rest = Some (xs, r)"
      using Cons.prems(1) len Cons by (intro Cons.IH) auto
    have "\<exists>q. ?rest = json_dumps sep kv y @ q" using Cons by (cases ys) auto
    then have "skip (s @ ?rest) = ?rest" using s(2) by auto
    then show ?thesis using v tail unfolding j n by (simp add: s)
  qed
qed simp


lemma jmembers_roundtrip:
  assumes "style sep kv"
    and "\<And>p n r. p \<in> set ps \<Longrightarrow> follows r \<Longrightarrow> length (json_dumps sep kv (snd p)) \<le> n \<Longrightarrow>
           jvalue n (json_dumps sep kv (snd p) @ r) = Some (snd p, r)"
    and "ps \<noteq> []" and "length (join sep (map (\<lambda>(k, v). quote k @ kv @ json_dumps sep kv v) ps)) < n"
  shows "jmembers n (join sep (map (\<lambda>(k, v). quote k @ kv @ json_dumps sep kv v) ps) @ CHR ''}'' # r) = Some (ps, r)"
  using assms(2-)
proof (induction ps arbitrary: n)
  case (Cons p ps)
  let ?one = "\<lambda>(k, v). quote k @ kv @ json_dumps sep kv v"
  obtain m where n: "n = Suc m" using Cons.prems(3) by (cases n) auto
  obtain k v where p: "p = (k, v)" by (cases p)
  obtain t where t: "kv = CHR '':'' # t" "\<And>r. skip (t @ json_dumps sep kv v @ r) = json_dumps sep kv v @ r"
    using style_skip(2) [OF assms(1), of sep kv v] by blast
  have key: "parse_string (concat (map escape_char k) @ CHR 34 # q) = Some (k, q)" for q by (rule parse_quoted)
  show ?case
  proof (cases ps)
    case Nil
    have "jvalue m (json_dumps sep kv v @ CHR ''}'' # r) = Some (v, CHR ''}'' # r)"
      using Cons.prems(1) [of p] Cons.prems(3) Nil n p by (auto simp: follows_def)
    then show ?thesis using Nil n p key t by (simp add: quote_def)
  next
    case (Cons q qs)
    let ?rest = "join sep (map ?one ps) @ CHR ''}'' # r"
    obtain s where s: "sep = CHR '','' # s" "\<And>r. skip (s @ CHR 34 # r) = CHR 34 # r"
      using style_skip(1) [OF assms(1), of sep kv v] by blast
    have j: "join sep (map ?one (p # ps)) = quote k @ kv @ json_dumps sep kv v @ sep @ join sep (map ?one ps)"
      using Cons p by (simp add: join_Cons)
    have len: "length (json_dumps sep kv v) \<le> m" "length (join sep (map ?one ps)) < m"
      using Cons.prems(3) n unfolding j by (auto simp: s quote_def)
    have v: "jvalue m (json_dumps sep kv v @ sep @ ?rest) = Some (v, sep @ ?rest)"
      using Cons.prems(1) [of p "sep @ ?rest" m] len p by (auto simp: follows_def s)
    have tail: "jmembers m ?rest = Some (ps, r)"
      using Cons.prems(1) len Cons by (intro Cons.IH) auto
    have "\<exists>x. ?rest = CHR 34 # x" using Cons by (cases qs) (auto simp: quote_def split: prod.splits)
    then have "skip (s @ ?rest) = ?rest" using s(2) by auto
    then show ?thesis using v tail key t p unfolding j n by (simp add: s quote_def)
  qed
qed simp

lemma jvalue_roundtrip:
  assumes "style sep kv"
  shows "json_wf v \<Longrightarrow> follows r \<Longrightarrow> length (json_dumps sep kv v) \<le> n \<Longrightarrow>
    jvalue n (json_dumps sep kv v @ r) = Some (v, r)"
proof (induction v arbitrary: n r)
  case (JInt i)
  obtain c s where c: "show_int i = c # s" "c = CHR ''-'' \<or> is_digit c" using show_int_start by blast
  obtain m where n: "n = Suc m" using JInt c by (cases n) auto
  have "c \<notin> {CHR 34, CHR ''['', CHR ''{'', CHR ''n'', CHR ''t'', CHR ''f''}" using c(2) by (auto simp: is_digit_def)
  then show ?case using parse_int_show [OF JInt(2), of i] c n by simp
next
  case (JStr s)
  obtain m where n: "n = Suc m" using JStr by (cases n) (auto simp: quote_def)
  then show ?case by (simp add: quote_def parse_quoted)
next
  case (JList xs)
  obtain m where n: "n = Suc m" using JList.prems by (cases n) auto
  show ?case
  proof (cases "xs = []")
    case True
    then show ?thesis using n by simp
  next
    case False
    let ?body = "join sep (map (json_dumps sep kv) xs)"
    have tail: "jelems m (?body @ CHR '']'' # r) = Some (xs, r)"
      using JList False n by (intro jelems_roundtrip [OF assms]) (auto simp: list_all_iff)
    obtain x ys where xs: "xs = x # ys" using False by (cases xs) auto
    obtain c s where c: "json_dumps sep kv x = c # s" "value_start c" using dumps_start by metis
    obtain q where "?body = c # q" using c xs by (cases ys) auto
    then show ?thesis using tail n value_start_not [OF c(2)] by simp
  qed
next
  case (JObj ps)
  obtain m where n: "n = Suc m" using JObj.prems by (cases n) auto
  show ?case
  proof (cases "ps = []")
    case True
    then show ?thesis using n by simp
  next
    case False
    let ?body = "join sep (map (\<lambda>(k, v). quote k @ kv @ json_dumps sep kv v) ps)"
    have tail: "jmembers m (?body @ CHR ''}'' # r) = Some (ps, r)"
      using JObj False n by (intro jmembers_roundtrip [OF assms]) (auto simp: list_all_iff)
    obtain k w ys where "ps = (k, w) # ys" using False by (cases ps) auto
    then obtain q where "?body = CHR 34 # q" by (cases ys) (auto simp: quote_def)
    then show ?thesis using tail n JObj.prems(1) by (simp add: dict_of_pairs_distinct)
  qed
next
  case JNull
  then show ?case by (cases n) (simp_all add: strip_prefix_def)
next
  case (JBool b)
  then show ?case by (cases n) (auto simp: strip_prefix_def split: if_splits)
qed

text \<open>Printing and parsing back is the identity, in both separator styles.\<close>

lemma json_roundtrip:
  assumes "style sep kv" and "json_wf v"
  shows "json_loads (json_dumps sep kv v) = Some v"
  using jvalue_roundtrip [OF assms, of "[]" "Suc (length (json_dumps sep kv v))"] skip_dumps [of sep kv v "[]"]
  by (simp add: json_loads_def follows_def skip_def del: jvalue.simps)

lemma json_dumps_inj:
  assumes "style sep kv" "json_wf u" "json_wf v" "json_dumps sep kv u = json_dumps sep kv v"
  shows "u = v"
  using assms json_roundtrip by (metis option.inject)

end
