(* ===== verification/Payload.thy ===== *)
theory Payload
  imports Json Config Storage
begin

text \<open>
  The payload of a task on its way from the gateway to the scheduler: admission limits
  (\<^verbatim>\<open>gateway/admission.py\<close>), bounded reads (\<^verbatim>\<open>util/io.py\<close>), upload names
  (\<^verbatim>\<open>util/upload_paths.py\<close>), packing (\<open>_pack_payload\<close> and \<open>_store_payload\<close> of
  \<^verbatim>\<open>gateway/ingest.py\<close>) and rebuilding (\<open>_rebuild_payload\<close> of
  \<^verbatim>\<open>scheduler/task_repository.py\<close>). A staged upload carries the contents of its temporary file;
  the random name of that file is not modelled. The header of a blob the gateway did not write may
  hold values of unexpected types; the model raises on those.
\<close>

section \<open>Definitions\<close>

record staged_upload =
  su_field_name :: string
  su_upload_name :: string
  su_content_type :: string
  su_data :: bytes

record multipart_payload =
  mp_fields :: "(string \<times> string) list"
  mp_uploads :: "staged_upload list"

subsection \<open>Admission\<close>

definition effective_file_size_limit :: "gateway_settings \<Rightarrow> int" where
  "effective_file_size_limit cfg =
    (let soft = max_file_size_bytes cfg in
     if soft \<le> 0 then MAX_FILE_SIZE_HARD_BYTES else min soft MAX_FILE_SIZE_HARD_BYTES)"

definition file_too_large :: "int \<Rightarrow> int \<Rightarrow> exc" where
  "file_too_large sz limit =
     OtherException (Some 413) (''File too large ('' @ show_int sz @ '' > '' @ show_int limit @ '' bytes).'')"

definition check_file_size :: "gateway_settings \<Rightarrow> int option \<Rightarrow> exc + unit" where
  "check_file_size cfg content_length =
    (let limit = effective_file_size_limit cfg in
     case content_length of
       None \<Rightarrow> Inr ()
     | Some n \<Rightarrow> if n > limit then Inl (file_too_large n limit) else Inr ())"

definition enforce_byte_limit :: "gateway_settings \<Rightarrow> int \<Rightarrow> exc + unit" where
  "enforce_byte_limit cfg sz =
    (let limit = effective_file_size_limit cfg in
     if sz > limit then Inl (file_too_large sz limit) else Inr ())"

text \<open>The \<open>content-length\<close> header: absent, not a number, or a number.\<close>

definition check_admission :: "gateway_settings \<Rightarrow> int option option \<Rightarrow> exc + unit" where
  "check_admission cfg content_length_header =
    (case content_length_header of
       Some (Some n) \<Rightarrow> check_file_size cfg (Some n)
     | _ \<Rightarrow> Inr ())"

subsection \<open>Bounded reads\<close>

definition READ_CHUNK_SIZE :: nat where "READ_CHUNK_SIZE = 1048576"

text \<open>The chunks read so far; the limit is checked after each.\<close>

fun bounded_chunks :: "gateway_settings \<Rightarrow> int \<Rightarrow> bytes list \<Rightarrow> exc + bytes list" where
  "bounded_chunks cfg sofar [] = Inr []"
| "bounded_chunks cfg sofar (chunk # chunks) =
    (let sofar = sofar + int (length chunk) in
     case enforce_byte_limit cfg sofar of
       Inl e \<Rightarrow> Inl e
     | Inr _ \<Rightarrow> map_sum id (\<lambda>cs. chunk # cs) (bounded_chunks cfg sofar chunks))"

definition iter_bounded_file :: "gateway_settings \<Rightarrow> bytes \<Rightarrow> exc + bytes list" where
  "iter_bounded_file cfg data = bounded_chunks cfg 0 (stream_chunks READ_CHUNK_SIZE data)"

definition read_bounded_file :: "gateway_settings \<Rightarrow> bytes \<Rightarrow> exc + bytes" where
  "read_bounded_file cfg data = map_sum id concat (iter_bounded_file cfg data)"

subsection \<open>Upload names\<close>

fun split_on :: "char \<Rightarrow> string \<Rightarrow> string list" where
  "split_on c [] = [[]]"
| "split_on c (x # xs) = (if x = c then [] # split_on c xs
     else (case split_on c xs of [] \<Rightarrow> [[x]] | p # ps \<Rightarrow> (x # p) # ps))"

definition UnsafeUploadNameError :: "string \<Rightarrow> exc" where
  "UnsafeUploadNameError msg = OtherException None msg"

definition sanitize_client_filename :: "string \<Rightarrow> exc + string" where
  "sanitize_client_filename name =
    (if name = [] \<or> py_strip name = [] then Inl (UnsafeUploadNameError ''upload name is blank'')
     else if CHR 0x00 \<in> set name then Inl (UnsafeUploadNameError ''upload name contains NUL'')
     else if hd name = CHR ''/'' then Inl (UnsafeUploadNameError ''absolute upload paths are not allowed'')
     else if CHR ''/'' \<in> set name \<or> CHR 92 \<in> set name
     then Inl (UnsafeUploadNameError ''path separators are not allowed in upload names'')
     else
       (let normalized = map (\<lambda>c. if c = CHR 92 then CHR ''/'' else c) name;
            parts = filter (\<lambda>part. part \<notin> {[], ''.''}) (split_on (CHR ''/'') normalized)
        in if ''..'' \<in> set parts then Inl (UnsafeUploadNameError ''path traversal in upload name'')
           else
             (let safe = join ''/'' parts in
              if safe = [] then Inl (UnsafeUploadNameError ''upload name is empty after sanitization'')
              else Inr safe)))"

text \<open>The first error of a loop, or all its values.\<close>

fun sequence :: "('e + 'a) list \<Rightarrow> 'e + 'a list" where
  "sequence [] = Inr []"
| "sequence (Inl e # xs) = Inl e"
| "sequence (Inr x # xs) = map_sum id (\<lambda>ys. x # ys) (sequence xs)"

definition rewrite_staged_uploads :: "multipart_payload \<Rightarrow> exc + multipart_payload" where
  "rewrite_staged_uploads p =
     map_sum id (\<lambda>us. p\<lparr>mp_uploads := us\<rparr>)
       (sequence (map (\<lambda>u. map_sum id (\<lambda>n. u\<lparr>su_upload_name := n\<rparr>) (sanitize_client_filename (su_upload_name u)))
          (mp_uploads p)))"

subsection \<open>Bytes\<close>

text \<open>\<open>struct.pack("!I", n)\<close>: \<open>None\<close> is \<open>struct.error\<close>.\<close>

definition be32 :: "nat \<Rightarrow> bytes option" where
  "be32 n = (if n < 2 ^ 32 then Some [word_of_nat (n div 2 ^ 24), word_of_nat (n div 2 ^ 16 mod 256),
     word_of_nat (n div 2 ^ 8 mod 256), word_of_nat (n mod 256)] else None)"

definition be32_value :: "bytes \<Rightarrow> nat" where
  "be32_value b = foldl (\<lambda>a x. 256 * a + unat x) 0 b"

definition utf8_char :: "char \<Rightarrow> bytes" where
  "utf8_char c = (let k = of_char c :: nat in
     if k < 128 then [word_of_nat k] else [word_of_nat (192 + k div 64), word_of_nat (128 + k mod 64)])"

definition utf8_encode :: "string \<Rightarrow> bytes" where
  "utf8_encode s = concat (map utf8_char s)"

text \<open>\<open>None\<close> is \<open>UnicodeDecodeError\<close>, or a character outside the model.\<close>

fun utf8_decode :: "bytes \<Rightarrow> string option" where
  "utf8_decode [] = Some []"
| "utf8_decode (b # bs) =
    (if unat b < 128 then map_option (\<lambda>s. char_of (unat b) # s) (utf8_decode bs)
     else (case bs of
             [] \<Rightarrow> None
           | b' # bs' \<Rightarrow>
               if unat b \<in> {194, 195} \<and> 128 \<le> unat b' \<and> unat b' < 192
               then map_option (\<lambda>s. char_of (64 * (unat b - 192) + (unat b' - 128)) # s) (utf8_decode bs')
               else None))"

text \<open>\<open>data[a:b]\<close> with Python's treatment of negative and out-of-range indices.\<close>

definition py_slice :: "int \<Rightarrow> int \<Rightarrow> 'a list \<Rightarrow> 'a list" where
  "py_slice a b xs =
    (let n = int (length xs);
         clip = (\<lambda>i. if i < 0 then max 0 (n + i) else min n i)
     in drop (nat (clip a)) (take (nat (clip b)) xs))"

subsection \<open>Packing\<close>

definition upload_header :: "int \<Rightarrow> staged_upload \<Rightarrow> json" where
  "upload_header offset u = JObj
    [(''field_name'', JStr (su_field_name u)), (''upload_name'', JStr (su_upload_name u)),
     (''content_type'', JStr (su_content_type u)), (''offset'', JInt offset),
     (''size'', JInt (int (length (su_data u))))]"

fun upload_headers :: "int \<Rightarrow> staged_upload list \<Rightarrow> json list" where
  "upload_headers offset [] = []"
| "upload_headers offset (u # us) = upload_header offset u # upload_headers (offset + int (length (su_data u))) us"

definition payload_header :: "multipart_payload \<Rightarrow> json" where
  "payload_header p = JObj
    [(''fields'', JList (map (\<lambda>(k, v). JList [JStr k, JStr v]) (mp_fields p))),
     (''uploads'', JList (upload_headers 0 (mp_uploads p)))]"

definition pack_payload :: "gateway_settings \<Rightarrow> multipart_payload \<Rightarrow> exc + bytes" where
  "pack_payload cfg p =
    (case sequence (map (\<lambda>u. read_bounded_file cfg (su_data u)) (mp_uploads p)) of
       Inl e \<Rightarrow> Inl e
     | Inr file_chunks \<Rightarrow>
         (let header_bytes = utf8_encode (json_dumps '', '' '': '' (payload_header p)) in
          case be32 (length header_bytes) of
            None \<Rightarrow> Inl (OtherException None ''struct.error'')
          | Some header_len \<Rightarrow> Inr (header_len @ header_bytes @ concat file_chunks)))"

definition store_payload ::
    "gateway_settings \<Rightarrow> 's store_ops option \<Rightarrow> string \<Rightarrow> multipart_payload \<Rightarrow> 's \<Rightarrow> (exc + string option) \<times> 's" where
  "store_payload cfg store tid p s =
    (case store of
       None \<Rightarrow> (Inr None, s)
     | Some st \<Rightarrow>
         (case pack_payload cfg p of
            Inl e \<Rightarrow> (Inl e, s)
          | Inr blob \<Rightarrow>
              apfst (map_sum id (\<lambda>_. Some (payload_key tid)))
                (os_put st (payload_key tid) blob ''application/octet-stream'' None s)))"

subsection \<open>Rebuilding\<close>

definition TypeError :: exc where "TypeError = OtherException None ''TypeError''"

fun json_int :: "json \<Rightarrow> exc + int" where
  "json_int (JInt i) = Inr i"
| "json_int (JBool b) = Inr (if b then 1 else 0)"
| "json_int _ = Inl TypeError"

fun json_str :: "json \<Rightarrow> exc + string" where
  "json_str (JStr s) = Inr s"
| "json_str _ = Inl TypeError"

fun json_list :: "json \<Rightarrow> exc + json list" where
  "json_list (JList xs) = Inr xs"
| "json_list _ = Inl TypeError"

text \<open>\<open>d[k]\<close> and \<open>d.get(k, dflt)\<close> on a parsed value.\<close>

fun json_item :: "json \<Rightarrow> string \<Rightarrow> exc + json" where
  "json_item (JObj ps) k = (case map_of ps k of None \<Rightarrow> Inl (KeyError k) | Some v \<Rightarrow> Inr v)"
| "json_item _ k = Inl TypeError"

fun json_get :: "json \<Rightarrow> string \<Rightarrow> json \<Rightarrow> exc + json" where
  "json_get (JObj ps) k dflt = (case map_of ps k of None \<Rightarrow> Inr dflt | Some v \<Rightarrow> Inr v)"
| "json_get _ k dflt = Inl TypeError"

definition try_do :: "'e + 'a \<Rightarrow> ('a \<Rightarrow> 'e + 'b) \<Rightarrow> 'e + 'b" where
  "try_do r f = (case r of Inl e \<Rightarrow> Inl e | Inr x \<Rightarrow> f x)"

definition rebuild_upload :: "bytes \<Rightarrow> json \<Rightarrow> exc + staged_upload" where
  "rebuild_upload file_data u =
     try_do (try_do (json_item u ''offset'') json_int) (\<lambda>offset.
     try_do (try_do (json_item u ''size'') json_int) (\<lambda>sz.
     try_do (try_do (json_get u ''upload_name'' (JStr ''upload'')) json_str) (\<lambda>client_name.
     try_do (sanitize_client_filename client_name) (\<lambda>safe_name.
     try_do (try_do (json_item u ''field_name'') json_str) (\<lambda>field_name.
     try_do (try_do (json_item u ''content_type'') json_str) (\<lambda>content_type.
       Inr \<lparr>su_field_name = field_name, su_upload_name = safe_name, su_content_type = content_type,
            su_data = py_slice offset (offset + sz) file_data\<rparr>))))))"

definition rebuild_field :: "json \<Rightarrow> exc + string \<times> string" where
  "rebuild_field f =
     try_do (json_list f) (\<lambda>xs. case xs of
         [a, b] \<Rightarrow> try_do (json_str a) (\<lambda>k. try_do (json_str b) (\<lambda>v. Inr (k, v)))
       | _ \<Rightarrow> Inl TypeError)"

definition rebuild_from_blob :: "bytes \<Rightarrow> exc + multipart_payload option" where
  "rebuild_from_blob blob =
    (if length blob < 4 then Inr None
     else
       (let header_len = be32_value (take 4 blob) in
        case Option.bind (utf8_decode (py_slice 4 (4 + int header_len) blob)) json_loads of
          None \<Rightarrow> Inl (OtherException None ''payload header cannot be decoded'')
        | Some header \<Rightarrow>
            (let file_data = drop (4 + header_len) blob in
             try_do (try_do (json_get header ''uploads'' (JList [])) json_list) (\<lambda>us.
             try_do (sequence (map (rebuild_upload file_data) us)) (\<lambda>uploads.
             try_do (try_do (json_get header ''fields'' (JList [])) json_list) (\<lambda>fs.
             try_do (sequence (map rebuild_field fs)) (\<lambda>fields.
               Inr (Some \<lparr>mp_fields = fields, mp_uploads = uploads\<rparr>))))))))"

definition rebuild_payload ::
    "'s store_ops \<Rightarrow> string option \<Rightarrow> 's \<Rightarrow> (exc + multipart_payload option) \<times> 's" where
  "rebuild_payload store pkey s =
    (case pkey of
       None \<Rightarrow> (Inr None, s)
     | Some k \<Rightarrow>
         (case os_get store k s of
            (Inl (KeyError _), s') \<Rightarrow> (Inr None, s')
          | (Inl e, s') \<Rightarrow> (Inl e, s')
          | (Inr blob, s') \<Rightarrow> (rebuild_from_blob blob, s')))"

section \<open>Lemmas\<close>

lemma try_do_Inr [simp]: "try_do (Inr x) f = f x"
  by (simp add: try_do_def)

lemma sequence_map:
  "(\<And>x. x \<in> set xs \<Longrightarrow> f x = Inr (g x)) \<Longrightarrow> sequence (map f xs) = Inr (map g xs)"
  by (induction xs) auto

lemma sequence_Inr:
  "sequence (map f xs) = Inr ys \<Longrightarrow> list_all2 (\<lambda>x y. f x = Inr y) xs ys"
proof (induction xs arbitrary: ys)
  case (Cons x xs)
  then show ?case by (cases "f x"; cases "sequence (map f xs)") auto
qed simp

lemma bounded_chunks_Inr:
  "bounded_chunks cfg t cs = Inr cs' \<Longrightarrow> cs' = cs \<and> (cs \<noteq> [] \<longrightarrow> t + int (length (concat cs)) \<le> effective_file_size_limit cfg)"
proof (induction cs arbitrary: t cs')
  case (Cons c cs)
  then obtain cs1 where "enforce_byte_limit cfg (t + int (length c)) = Inr ()"
    "bounded_chunks cfg (t + int (length c)) cs = Inr cs1" "cs' = c # cs1"
    by (cases "bounded_chunks cfg (t + int (length c)) cs") (auto simp: Let_def split: sum.splits)
  then show ?case using Cons.IH [of "t + int (length c)" cs1]
    by (cases "cs = []") (auto simp: enforce_byte_limit_def Let_def split: if_splits)
qed simp

lemma bounded_chunks_ok:
  "t + int (length (concat cs)) \<le> effective_file_size_limit cfg \<Longrightarrow> bounded_chunks cfg t cs = Inr cs"
proof (induction cs arbitrary: t)
  case (Cons c cs)
  then show ?case using Cons.IH [of "t + int (length c)"]
    by (auto simp: enforce_byte_limit_def Let_def algebra_simps)
qed simp

lemma bounded_chunks_Inl:
  "bounded_chunks cfg t cs = Inl e \<Longrightarrow> \<exists>msg. e = OtherException (Some 413) msg"
proof (induction cs arbitrary: t)
  case (Cons c cs)
  then show ?case
    by (cases "bounded_chunks cfg (t + int (length c)) cs")
      (auto simp: Let_def enforce_byte_limit_def file_too_large_def split: if_splits)
qed simp

lemma limit_bounds: "1 \<le> effective_file_size_limit cfg" "effective_file_size_limit cfg \<le> 1073741824"
  by (simp_all add: effective_file_size_limit_def MAX_FILE_SIZE_HARD_BYTES_def Let_def)

lemma chunks_concat: "concat (stream_chunks READ_CHUNK_SIZE data) = data"
  using stream_chunks_correct [of READ_CHUNK_SIZE data] by (simp add: READ_CHUNK_SIZE_def)

lemma read_bounded_Inr: "read_bounded_file cfg data = Inr data' \<Longrightarrow> data' = data"
  using bounded_chunks_Inr [of cfg 0 "stream_chunks READ_CHUNK_SIZE data"]
  by (cases "iter_bounded_file cfg data") (auto simp: read_bounded_file_def iter_bounded_file_def chunks_concat)

lemma be32_roundtrip:
  assumes "be32 n = Some b" shows "be32_value b = n" "length b = 4"
proof -
  have n: "n < 2 ^ 32" and b: "b = [word_of_nat (n div 2 ^ 24), word_of_nat (n div 2 ^ 16 mod 256),
     word_of_nat (n div 2 ^ 8 mod 256), word_of_nat (n mod 256)]"
    using assms by (auto simp: be32_def split: if_splits)
  have unat8: "unat (word_of_nat k :: 8 word) = k" if "k < 256" for k
    using that by (simp add: unat_of_nat take_bit_eq_mod)
  have "n div 2 ^ 24 < 256" using n by (simp add: div_less_iff_less_mult)
  then have "be32_value b = ((n div 2 ^ 24 * 256 + n div 2 ^ 16 mod 256) * 256 + n div 2 ^ 8 mod 256) * 256 + n mod 256"
    by (simp add: b be32_value_def unat8)
  also have "\<dots> = n"
  proof -
    have "n div 2 ^ 24 * 256 + n div 2 ^ 16 mod 256 = n div 2 ^ 16"
      using div_mult_mod_eq [of "n div 2 ^ 16" 256] by (simp add: div_mult2_eq [symmetric])
    moreover have "n div 2 ^ 16 * 256 + n div 2 ^ 8 mod 256 = n div 2 ^ 8"
      using div_mult_mod_eq [of "n div 2 ^ 8" 256] by (simp add: div_mult2_eq [symmetric])
    moreover have "n div 2 ^ 8 * 256 + n mod 256 = n"
      using div_mult_mod_eq [of n 256] by simp
    ultimately show ?thesis by simp
  qed
  finally show "be32_value b = n" .
  show "length b = 4" by (simp add: b)
qed

lemma utf8_roundtrip: "utf8_decode (utf8_encode s) = Some s"
proof (induction s)
  case (Cons c s)
  let ?k = "of_char c :: nat"
  have k: "?k < 256" by (rule of_char_bound)
  have unat8: "unat (word_of_nat m :: 8 word) = m" if "m < 256" for m
    using that by (simp add: unat_of_nat take_bit_eq_mod)
  show ?case
  proof (cases "?k < 128")
    case True
    then show ?thesis using Cons by (simp add: utf8_encode_def utf8_char_def unat8)
  next
    case False
    define q r where "q = ?k div 64" and "r = ?k mod 64"
    have "m div 64 = 2 \<or> m div 64 = 3" if "\<not> m < 128" "m < 256" for m :: nat
    proof -
      have "2 \<le> m div 64" "m div 64 < 4" using that by (simp_all add: less_eq_div_iff_mult_less_eq div_less_iff_less_mult)
      then show ?thesis by linarith
    qed
    then have q: "q = 2 \<or> q = 3" using False k q_def by blast
    have r: "r < 64" by (simp add: r_def)
    have "char_of (64 * q + r) = c" by (simp add: q_def r_def)
    moreover have "unat (word_of_nat (192 + q) :: 8 word) = 192 + q" by (rule unat8) (use q in auto)
    moreover have "unat (word_of_nat (128 + r) :: 8 word) = 128 + r" by (rule unat8) (use r in auto)
    moreover have "utf8_char c = [word_of_nat (192 + q), word_of_nat (128 + r)]"
      using False by (simp add: utf8_char_def q_def r_def Let_def)
    moreover have "192 + q \<in> {194, 195}" using q by auto
    ultimately show ?thesis using Cons r by (simp add: utf8_encode_def del: insert_iff of_nat_add)
  qed
qed (simp add: utf8_encode_def)

lemma split_on_absent: "c \<notin> set s \<Longrightarrow> split_on c s = [s]"
  by (induction s) auto

text \<open>An accepted name is kept as it is.\<close>

lemma sanitize_identity:
  assumes "sanitize_client_filename name = Inr safe"
  shows "safe = name"
proof -
  have "CHR ''/'' \<notin> set name" "CHR 92 \<notin> set name"
    using assms by (auto simp: sanitize_client_filename_def split: if_splits)
  moreover from this have "map (\<lambda>c. if c = CHR 92 then CHR ''/'' else c) name = name" by (intro map_idI) auto
  ultimately show ?thesis
    using assms by (auto simp: sanitize_client_filename_def split_on_absent Let_def split: if_splits)
qed

lemma py_slice_middle:
  "py_slice (int (length a)) (int (length a) + int (length b)) (a @ b @ c) = b"
  by (simp add: py_slice_def Let_def nat_add_distrib)

lemma rebuild_upload_header:
  assumes "sanitize_client_filename (su_upload_name u) = Inr (su_upload_name u)"
  shows "rebuild_upload (pre @ su_data u @ post) (upload_header (int (length pre)) u) = Inr u"
  using assms by (simp add: rebuild_upload_def upload_header_def py_slice_middle)

lemma rebuild_uploads:
  assumes "\<And>u. u \<in> set us \<Longrightarrow> sanitize_client_filename (su_upload_name u) = Inr (su_upload_name u)"
  shows "sequence (map (rebuild_upload (pre @ concat (map su_data us) @ post))
           (upload_headers (int (length pre)) us)) = Inr us"
  using assms
proof (induction us arbitrary: pre)
  case (Cons u us)
  have "rebuild_upload (pre @ su_data u @ concat (map su_data us) @ post) (upload_header (int (length pre)) u) = Inr u"
    using Cons.prems by (intro rebuild_upload_header) simp
  moreover have "sequence (map (rebuild_upload ((pre @ su_data u) @ concat (map su_data us) @ post))
      (upload_headers (int (length (pre @ su_data u))) us)) = Inr us"
    using Cons.prems by (intro Cons.IH) simp
  ultimately show ?case by simp
qed simp

lemma upload_headers_wf: "list_all json_wf (upload_headers off us)"
  by (induction us arbitrary: off) (simp_all add: upload_header_def)

lemma payload_header_roundtrip: "json_loads (json_dumps '', '' '': '' (payload_header p)) = Some (payload_header p)"
  by (rule json_roundtrip) (auto simp: style_def payload_header_def upload_headers_wf, auto simp: list_all_iff)

lemma pack_payload_Inr:
  assumes "pack_payload cfg p = Inr blob"
  obtains len where "be32 (length (utf8_encode (json_dumps '', '' '': '' (payload_header p)))) = Some len"
    "blob = len @ utf8_encode (json_dumps '', '' '': '' (payload_header p)) @ concat (map su_data (mp_uploads p))"
proof -
  obtain chunks where seq: "sequence (map (\<lambda>u. read_bounded_file cfg (su_data u)) (mp_uploads p)) = Inr chunks"
    using assms by (auto simp: pack_payload_def split: sum.splits)
  have "chunks = map su_data (mp_uploads p)"
    using sequence_Inr [OF seq] read_bounded_Inr
    by (fastforce simp: list_all2_conv_all_nth intro!: nth_equalityI)
  with seq assms that show ?thesis
    by (auto simp: pack_payload_def Let_def split: option.splits)
qed

lemma rebuild_packed:
  assumes "pack_payload cfg p = Inr blob"
    and names: "\<And>u. u \<in> set (mp_uploads p) \<Longrightarrow> sanitize_client_filename (su_upload_name u) = Inr (su_upload_name u)"
  shows "rebuild_from_blob blob = Inr (Some p)"
proof -
  let ?h = "utf8_encode (json_dumps '', '' '': '' (payload_header p))"
  obtain len where len: "be32 (length ?h) = Some len"
    and blob: "blob = len @ ?h @ concat (map su_data (mp_uploads p))"
    using assms(1) by (rule pack_payload_Inr)
  note L = be32_roundtrip [OF len]
  have head: "py_slice 4 (4 + int (length ?h)) blob = ?h"
    using py_slice_middle [of len ?h "concat (map su_data (mp_uploads p))"] L(2) by (simp add: blob)
  have "take 4 blob = len" "drop (4 + length ?h) blob = concat (map su_data (mp_uploads p))" "\<not> length blob < 4"
    using L(2) by (simp_all add: blob)
  moreover have "sequence (map (rebuild_upload (concat (map su_data (mp_uploads p)))) (upload_headers 0 (mp_uploads p)))
      = Inr (mp_uploads p)"
    using rebuild_uploads [of "mp_uploads p" "[]" "[]"] names by simp
  moreover have "sequence (map rebuild_field (map (\<lambda>(k, v). JList [JStr k, JStr v]) (mp_fields p))) = Inr (mp_fields p)"
    unfolding map_map comp_def by (subst sequence_map [of _ _ id]) (auto simp: rebuild_field_def)
  ultimately show ?thesis
    using L(1) head
    by (simp add: rebuild_from_blob_def Let_def utf8_roundtrip payload_header_roundtrip)
      (simp add: payload_header_def)
qed

lemma rewrite_accepted:
  assumes "rewrite_staged_uploads raw = Inr p"
  shows "p = raw" "\<And>u. u \<in> set (mp_uploads p) \<Longrightarrow> sanitize_client_filename (su_upload_name u) = Inr (su_upload_name u)"
proof -
  let ?f = "\<lambda>u. map_sum id (\<lambda>n. u\<lparr>su_upload_name := n\<rparr>) (sanitize_client_filename (su_upload_name u))"
  obtain us where seq: "sequence (map ?f (mp_uploads raw)) = Inr us" and p: "p = raw\<lparr>mp_uploads := us\<rparr>"
    using assms by (cases "sequence (map ?f (mp_uploads raw))") (auto simp: rewrite_staged_uploads_def)
  have one: "sanitize_client_filename (su_upload_name u) = Inr (su_upload_name u) \<and> u' = u" if "?f u = Inr u'" for u u'
    using that sanitize_identity [of "su_upload_name u"] by (cases "sanitize_client_filename (su_upload_name u)") auto
  have "us = mp_uploads raw"
    using sequence_Inr [OF seq] one by (fastforce simp: list_all2_conv_all_nth intro!: nth_equalityI)
  with p show "p = raw" by simp
  show "sanitize_client_filename (su_upload_name u) = Inr (su_upload_name u)" if "u \<in> set (mp_uploads p)" for u
    using that sequence_Inr [OF seq] one p \<open>us = mp_uploads raw\<close>
    by (auto simp: list_all2_conv_all_nth in_set_conv_nth)
qed

lemma read_bounded_ok:
  "int (length data) \<le> effective_file_size_limit cfg \<Longrightarrow> read_bounded_file cfg data = Inr data"
  using bounded_chunks_ok [of 0 "stream_chunks READ_CHUNK_SIZE data" cfg]
  by (simp add: read_bounded_file_def iter_bounded_file_def chunks_concat)

text \<open>A small form on which the round trip is evaluated.\<close>

definition example_payload :: multipart_payload where
  "example_payload = \<lparr>mp_fields = [(''backend'', ''pipeline'')],
     mp_uploads = [\<lparr>su_field_name = ''files'', su_upload_name = ''a.pdf'',
       su_content_type = ''application/pdf'', su_data = [1, 2, 3]\<rparr>]\<rparr>"

lemma example_payload_accepted: "rewrite_staged_uploads example_payload = Inr example_payload"
  by (simp add: rewrite_staged_uploads_def example_payload_def sanitize_client_filename_def py_strip_def
      py_isspace_def Let_def)

lemma example_payload_packs: "\<exists>blob. pack_payload default_settings example_payload = Inr blob"
proof -
  have read: "read_bounded_file default_settings [1, 2, 3] = Inr [1, 2, 3]"
    by (rule read_bounded_ok) (simp add: effective_file_size_limit_def default_settings_def MAX_FILE_SIZE_HARD_BYTES_def)
  have "length (utf8_encode (json_dumps '', '' '': '' (payload_header example_payload))) < 2 ^ 32"
    by (simp add: payload_header_def example_payload_def upload_header_def quote_def escape_char_def
        utf8_encode_def utf8_char_def show_int_def show_nat.simps Let_def)
  moreover have "map (\<lambda>u. read_bounded_file default_settings (su_data u)) (mp_uploads example_payload) = [Inr [1, 2, 3]]"
    by (simp add: example_payload_def read)
  ultimately show ?thesis by (simp add: pack_payload_def Let_def be32_def)
qed

section \<open>Properties\<close>

text \<open>C10: What the gateway stores is what the scheduler dispatches. When the upload names of a staged
  form were accepted and its payload was stored, then as long as the object keeps its contents,
  rebuilding from the returned key gives back the staged form: the same fields, the same uploads
  under the same names, byte for byte.\<close>

theorem payload_roundtrip:
  assumes "object_store store contents"
    and "rewrite_staged_uploads staged = Inr p"
    and "store_payload cfg (Some store) tid p s = (Inr (Some k), s1)"
    and "contents s2 k = contents s1 k"
    and "os_get store k s2 = (Inr blob, s3)"
  shows "k = payload_key tid \<and> rebuild_payload store (Some k) s2 = (Inr (Some staged), s3)"
proof -
  obtain packed n where pack: "pack_payload cfg p = Inr packed" and k: "k = payload_key tid"
    and put: "os_put store k packed ''application/octet-stream'' None s = (Inr n, s1)"
    using assms(3) by (auto simp: store_payload_def apfst_sum split: sum.splits)
  have "contents s1 k = Some packed" using object_store.put_ok [OF assms(1) put] by simp
  moreover have "contents s2 k = Some blob" using object_store.get_ok [OF assms(1,5)] .
  ultimately have "blob = packed" using assms(4) by simp
  then have "rebuild_from_blob blob = Inr (Some p)"
    using rebuild_packed [OF pack] rewrite_accepted(2) [OF assms(2)] by simp
  then show ?thesis using k assms(5) rewrite_accepted(1) [OF assms(2)] by (simp add: rebuild_payload_def)
qed

theorem payload_roundtrip_witness:
  "\<exists>s1 s3. store_payload default_settings (Some (S3ObjectStore memory_client ''b'')) ''t1'' example_payload Map.empty
      = (Inr (Some ''payloads/t1.bin''), s1)
    \<and> rebuild_payload (S3ObjectStore memory_client ''b'') (Some ''payloads/t1.bin'') s1 = (Inr (Some example_payload), s3)"
proof -
  let ?store = "S3ObjectStore memory_client ''b''" and ?k = "''payloads/t1.bin''"
  obtain blob where blob: "pack_payload default_settings example_payload = Inr blob" using example_payload_packs ..
  let ?s1 = "Map.empty((''b'', ?k) \<mapsto> blob)"
  have k: "payload_key ''t1'' = ?k" by (simp add: key_shapes)
  have st: "store_payload default_settings (Some ?store) ''t1'' example_payload Map.empty = (Inr (Some ?k), ?s1)"
    by (simp add: store_payload_def blob k S3ObjectStore_def s3_put_def memory_client_def)
  have get: "os_get ?store ?k ?s1 = (Inr blob, ?s1)"
    by (simp add: S3ObjectStore_def s3_get_def memory_client_def)
  have "object_store ?store (\<lambda>s k. s (''b'', k))" by (rule memory.object_store_axioms)
  from payload_roundtrip [OF this example_payload_accepted st refl get] st show ?thesis by blast
qed

text \<open>Bounded reads enforce the limit exactly: a file within the effective limit is read back
  complete, a larger one is rejected with status 413. The limit is positive and never exceeds the
  hard bound of one gibibyte.\<close>

lemma read_bounded_file_correct:
  "(case read_bounded_file cfg data of
      Inr contents \<Rightarrow> contents = data \<and> int (length data) \<le> effective_file_size_limit cfg
    | Inl e \<Rightarrow> effective_file_size_limit cfg < int (length data) \<and> (\<exists>msg. e = OtherException (Some 413) msg))
   \<and> effective_file_size_limit cfg \<in> {1..1073741824}"
proof -
  let ?cs = "stream_chunks READ_CHUNK_SIZE data"
  have "case read_bounded_file cfg data of
      Inr contents \<Rightarrow> contents = data \<and> int (length data) \<le> effective_file_size_limit cfg
    | Inl e \<Rightarrow> effective_file_size_limit cfg < int (length data) \<and> (\<exists>msg. e = OtherException (Some 413) msg)"
  proof (cases "bounded_chunks cfg 0 ?cs")
    case (Inl e)
    then have "\<not> 0 + int (length (concat ?cs)) \<le> effective_file_size_limit cfg"
      using bounded_chunks_ok [of 0 ?cs cfg] by auto
    then show ?thesis using Inl bounded_chunks_Inl [OF Inl]
      by (simp add: read_bounded_file_def iter_bounded_file_def chunks_concat)
  next
    case (Inr cs)
    then have "int (length data) \<le> effective_file_size_limit cfg"
      using bounded_chunks_Inr [OF Inr] limit_bounds(1) [of cfg] chunks_concat [of data]
      by (cases "?cs = []") auto
    then show ?thesis using Inr bounded_chunks_Inr [OF Inr]
      by (simp add: read_bounded_file_def iter_bounded_file_def chunks_concat)
  qed
  then show ?thesis using limit_bounds by simp
qed

text \<open>Which upload names are accepted: exactly the non-blank ones without NUL, slash or backslash
  that are not a dot or dot-dot; an accepted name is returned unchanged, so it names no other
  directory.\<close>

lemma sanitize_client_filename_accepts:
  "sanitize_client_filename name = Inr safe \<longleftrightarrow>
     safe = name \<and> py_strip name \<noteq> [] \<and> CHR 0x00 \<notin> set name \<and> CHR ''/'' \<notin> set name \<and> CHR 92 \<notin> set name
     \<and> name \<noteq> ''.'' \<and> name \<noteq> ''..''"
proof (cases "CHR ''/'' \<in> set name \<or> CHR 92 \<in> set name \<or> name = []")
  case True
  then show ?thesis by (auto simp: sanitize_client_filename_def py_strip_def)
next
  case False
  then have "map (\<lambda>c. if c = CHR 92 then CHR ''/'' else c) name = name" by (intro map_idI) auto
  moreover have "hd name \<noteq> CHR ''/''" using False by (cases name) auto
  ultimately show ?thesis using False
    by (auto simp: sanitize_client_filename_def split_on_absent Let_def)
qed

end
