(* ===== verification/Cache.thy ===== *)
theory Cache
  imports Models Payload "HOL-Library.Multiset"
begin

text \<open>
  \<^verbatim>\<open>scheduler/cache_service.py\<close>: the content-addressed result cache. The digest is a parameter
  \<open>sha256\<close> (hex text of a byte string). A cache row points to an object of the store; its
  generation counts the changes of that pointer, and the writers that span several transactions
  (population, invalidation, sweeping) compare it before they write. The transactions of other
  processes that may commit between two transactions of one operation are its argument
  \<open>interfere\<close>; a placeholder inserted concurrently is the argument \<open>race\<close>.
\<close>

section \<open>Definitions\<close>

subsection \<open>Cache identity\<close>

definition CACHE_IGNORED_FIELDS :: "string set" where "CACHE_IGNORED_FIELDS = {}"
definition REPEATED_OPTION_FIELDS :: "string set" where "REPEATED_OPTION_FIELDS = {''lang_list''}"

type_synonym options = "(string \<times> opt_value) list"

text \<open>\<open>zip(\<dots>, strict=True)\<close> raises on lists of different length.\<close>

definition compute_file_records ::
    "(bytes \<Rightarrow> string) \<Rightarrow> string list \<Rightarrow> bytes list \<Rightarrow> exc + (string \<times> string) list" where
  "compute_file_records sha256 file_names contents =
    (if length file_names = length contents then Inr (zip file_names (map sha256 contents))
     else Inl (OtherException None ''zip() arguments have different lengths''))"

definition hash_file_at_path :: "(bytes \<Rightarrow> string) \<Rightarrow> gateway_settings \<Rightarrow> bytes \<Rightarrow> exc + string" where
  "hash_file_at_path sha256 cfg data = map_sum id (\<lambda>chunks. sha256 (concat chunks)) (iter_bounded_file cfg data)"

definition compute_file_records_from_paths ::
    "(bytes \<Rightarrow> string) \<Rightarrow> gateway_settings \<Rightarrow> string list \<Rightarrow> bytes list \<Rightarrow> exc + (string \<times> string) list" where
  "compute_file_records_from_paths sha256 cfg file_names files =
    (if length file_names = length files
     then map_sum id (zip file_names) (sequence (map (hash_file_at_path sha256 cfg) files))
     else Inl (OtherException None ''zip() arguments have different lengths''))"

fun append_value :: "string \<Rightarrow> opt_value option \<Rightarrow> opt_value" where
  "append_value v None = OList [v]"
| "append_value v (Some (OList xs)) = OList (xs @ [v])"
| "append_value v (Some (OStr s)) = OStr s"

definition add_option :: "options \<Rightarrow> string \<times> string \<Rightarrow> options" where
  "add_option opts field =
    (let (field_name, field_value) = field in
     if field_name \<in> CACHE_IGNORED_FIELDS then opts
     else if field_name \<in> REPEATED_OPTION_FIELDS
     then dict_set field_name (append_value field_value (map_of opts field_name)) opts
     else dict_set field_name (OStr field_value) opts)"

definition sort_repeated :: "string \<times> opt_value \<Rightarrow> string \<times> opt_value" where
  "sort_repeated p = (case p of
     (k, OList xs) \<Rightarrow> if k \<in> REPEATED_OPTION_FIELDS then (k, OList (sort xs)) else (k, OList xs)
   | (k, OStr s) \<Rightarrow> (k, OStr s))"

definition build_cache_options_from_payload :: "(string \<times> string) list \<Rightarrow> options" where
  "build_cache_options_from_payload form = map sort_repeated (foldl add_option [] form)"

definition content_sha256_from_records :: "(bytes \<Rightarrow> string) \<Rightarrow> (string \<times> string) list \<Rightarrow> string" where
  "content_sha256_from_records sha256 file_records =
     sha256 (utf8_encode (join [CHR 10] (map (\<lambda>(name, digest). name @ '':'' @ digest) file_records)))"

fun option_json :: "opt_value \<Rightarrow> json" where
  "option_json (OStr s) = JStr s"
| "option_json (OList xs) = JList (map JStr xs)"

definition canonical_options :: "options \<Rightarrow> string" where
  "canonical_options opts =
    (let filtered = filter (\<lambda>(k, v). k \<notin> CACHE_IGNORED_FIELDS) opts in
     json_dumps '', '' '': '' (JObj (sort_key fst (map (\<lambda>(k, v). (k, option_json v)) filtered))))"

definition records_json :: "(string \<times> string) list \<Rightarrow> json" where
  "records_json file_records = JList (map (\<lambda>(name, digest). JList [JStr name, JStr digest]) file_records)"

definition key_material :: "(string \<times> string) list \<Rightarrow> options \<Rightarrow> bytes" where
  "key_material file_records opts =
    (let records_blob = json_dumps '','' '':'' (records_json file_records);
         options_blob = canonical_options opts
     in utf8_encode (records_blob @ [CHR 10] @ options_blob))"

definition compute_cache_key ::
    "(bytes \<Rightarrow> string) \<Rightarrow> (string \<times> string) list \<Rightarrow> options \<Rightarrow> string \<times> string" where
  "compute_cache_key sha256 file_records opts =
    (let options_hash = sha256 (utf8_encode (canonical_options opts))
     in (sha256 (key_material file_records opts), options_hash))"

subsection \<open>Rows\<close>

record refresh_kwargs =
  rk_content_sha256 :: string
  rk_options_hash :: string
  rk_backend :: string
  rk_parse_method :: string
  rk_effort :: string
  rk_result_format :: string
  rk_ttl_seconds :: "int option"

definition row_is_expired :: "time \<Rightarrow> cache_entry \<Rightarrow> bool" where
  "row_is_expired now row = (case c_expires_at row of None \<Rightarrow> False | Some e \<Rightarrow> now > e)"

definition str_or :: "string \<Rightarrow> string \<Rightarrow> string" where
  "str_or a b = (if a \<noteq> [] then a else b)"

definition expiry :: "time \<Rightarrow> int \<Rightarrow> time option" where
  "expiry now ttl = (if ttl \<noteq> 0 then Some (now + seconds ttl) else None)"

definition reset_row :: "gateway_settings \<Rightarrow> time \<Rightarrow> refresh_kwargs option \<Rightarrow> cache_entry \<Rightarrow> cache_entry" where
  "reset_row cfg now refresh row =
    (let row = row\<lparr>c_object_key := Some [], c_object_generation := c_object_generation row + 1, c_hit_count := 0\<rparr> in
     case refresh of
       None \<Rightarrow> row
     | Some rk \<Rightarrow>
         (let ttl = (case rk_ttl_seconds rk of Some t \<Rightarrow> t | None \<Rightarrow> cache_ttl_seconds (cache cfg)) in
          row\<lparr>c_content_sha256 := rk_content_sha256 rk,
              c_options_hash := str_or (rk_options_hash rk) (c_options_hash row),
              c_backend := str_or (rk_backend rk) (c_backend row),
              c_parse_method := str_or (rk_parse_method rk) (c_parse_method row),
              c_effort := str_or (rk_effort rk) (c_effort row),
              c_result_format := py_or (Some (rk_result_format rk)) (c_result_format row),
              c_expires_at := expiry now ttl\<rparr>))"

text \<open>\<open>_reset_expired_row\<close> followed by \<open>_delete_stale_object\<close>, as every caller does.\<close>

definition reset_expired_row ::
    "'s store_ops \<Rightarrow> gateway_settings \<Rightarrow> time \<Rightarrow> refresh_kwargs option \<Rightarrow> cache_entry \<Rightarrow> 's \<Rightarrow> db \<Rightarrow> 's \<times> db" where
  "reset_expired_row store cfg now refresh row s d =
    (let stale_key = c_object_key row;
         d' = upd_cache (c_cache_key row) (reset_row cfg now refresh) d
     in (snd (safe_delete store stale_key s), d'))"

definition lookup ::
    "'s store_ops \<Rightarrow> gateway_settings \<Rightarrow> time \<Rightarrow> string \<Rightarrow> 's \<Rightarrow> db \<Rightarrow> cache_entry option \<times> 's \<times> db" where
  "lookup store cfg now ck s d =
    (case get_cache_row ck d of
       None \<Rightarrow> (None, s, d)
     | Some row \<Rightarrow>
         if row_is_expired now row then (None, reset_expired_row store cfg now None row s d)
         else if \<not> truthy (c_object_key row) then (None, s, d)
         else (let d' = upd_cache ck (\<lambda>r. r\<lparr>c_hit_count := c_hit_count r + 1\<rparr>) d
               in (get_cache_row ck d', s, d')))"

definition build_placeholder_row :: "gateway_settings \<Rightarrow> time \<Rightarrow> string \<Rightarrow> refresh_kwargs \<Rightarrow> cache_entry" where
  "build_placeholder_row cfg now ck rk =
    (let effective_ttl = (case rk_ttl_seconds rk of
            Some t \<Rightarrow> if t \<noteq> 0 then t else cache_ttl_seconds (cache cfg)
          | None \<Rightarrow> cache_ttl_seconds (cache cfg))
     in \<lparr>c_cache_key = ck, c_content_sha256 = rk_content_sha256 rk, c_options_hash = rk_options_hash rk,
         c_backend = rk_backend rk, c_parse_method = rk_parse_method rk, c_effort = rk_effort rk,
         c_object_key = Some [], c_object_generation = 0, c_result_format = Some (rk_result_format rk),
         c_size_bytes = None, c_hit_count = 0, c_expires_at = expiry now effective_ttl, c_created_at = now\<rparr>)"

text \<open>\<open>race\<close> is the row a concurrent transaction commits under the same key after the read.\<close>

definition create_placeholder ::
    "'s store_ops \<Rightarrow> gateway_settings \<Rightarrow> time \<Rightarrow> cache_entry option \<Rightarrow> string \<Rightarrow> refresh_kwargs \<Rightarrow> 's \<Rightarrow> db
      \<Rightarrow> (db_error + cache_entry) \<times> 's \<times> db" where
  "create_placeholder store cfg now race ck rk s d =
    (case get_cache_row ck d of
       Some row \<Rightarrow>
         if row_is_expired now row
         then (let (s', d') = reset_expired_row store cfg now (Some rk) row s d
               in (Inr (reset_row cfg now (Some rk) row), s', d'))
         else (Inr row, s, d)
     | None \<Rightarrow>
         (let d1 = (case race of None \<Rightarrow> d | Some r \<Rightarrow> d\<lparr>db_cache := db_cache d @ [r\<lparr>c_cache_key := ck\<rparr>]\<rparr>);
              row = build_placeholder_row cfg now ck rk
          in case db_insert c_cache_key row (db_cache d1) of
               Inr rows \<Rightarrow> (Inr row, s, d1\<lparr>db_cache := rows\<rparr>)
             | Inl e \<Rightarrow>
                 (case get_cache_row ck d1 of
                    None \<Rightarrow> (Inl e, s, d1)
                  | Some row' \<Rightarrow>
                      if row_is_expired now row'
                      then (let (s', d') = reset_expired_row store cfg now (Some rk) row' s d1
                            in (Inr (reset_row cfg now (Some rk) row'), s', d'))
                      else (Inr row', s, d1))))"

text \<open>The compare-and-swap statements: the number of rows matched and the table after them.\<close>

definition empty_object :: "cache_entry \<Rightarrow> bool" where
  "empty_object r \<longleftrightarrow> c_object_key r = None \<or> c_object_key r = Some []"

definition publish_object :: "string \<Rightarrow> int \<Rightarrow> string \<Rightarrow> string \<Rightarrow> db \<Rightarrow> nat \<times> db" where
  "publish_object ck expected_generation dest result_format d =
    (let P = (\<lambda>r. c_cache_key r = ck \<and> c_object_generation r = expected_generation \<and> empty_object r) in
     (db_count P (db_cache d),
      d\<lparr>db_cache := db_update_where P (\<lambda>r. r\<lparr>c_object_key := Some dest, c_result_format := Some result_format,
          c_object_generation := expected_generation + 1\<rparr>) (db_cache d)\<rparr>))"

definition populate_from_task ::
    "'s store_ops \<Rightarrow> (db \<Rightarrow> db) \<Rightarrow> string \<Rightarrow> string \<Rightarrow> string \<Rightarrow> string \<Rightarrow> 's \<Rightarrow> db \<Rightarrow> (exc + unit) \<times> 's \<times> db" where
  "populate_from_task store interfere generation tid ck result_format s d =
    (let src = result_key tid RESULT_FORMAT_ZIP;
         dest = cache_object_key ck (Some generation)
     in case os_copy store src dest s of
          (Inl (KeyError _), s1) \<Rightarrow> (Inr (), s1, d)
        | (Inl e, s1) \<Rightarrow> (Inl e, s1, d)
        | (Inr _, s1) \<Rightarrow>
            (case get_cache_row ck d of
               None \<Rightarrow> (Inr (), snd (safe_delete store (Some dest) s1), d)
             | Some row \<Rightarrow>
                 (let d1 = interfere d in
                  case publish_object ck (c_object_generation row) dest result_format d1 of
                    (rowcount, d2) \<Rightarrow>
                      if rowcount = 0 then (Inr (), snd (safe_delete store (Some dest) s1), d1)
                      else (Inr (), s1, d2))))"

definition create_hit_task ::
    "'s store_ops \<Rightarrow> time \<Rightarrow> string \<Rightarrow> cache_entry \<Rightarrow> string list \<Rightarrow> 's \<Rightarrow> db \<Rightarrow> (exc + task) \<times> 's \<times> db" where
  "create_hit_task store now tid entry file_names s d =
    (let dest_key = result_key tid RESULT_FORMAT_ZIP;
         copied = truthy (c_object_key entry);
         row = (new_task tid now)\<lparr>t_backend := c_backend entry, t_parse_method := c_parse_method entry,
           t_file_names := file_names, t_status := TASK_COMPLETED, t_source := ''cache'',
           t_result_key := Some dest_key, t_result_format := c_result_format entry,
           t_cache_key := Some (c_cache_key entry), t_completed_at := Some now\<rparr>
     in case (if copied then os_copy store (the (c_object_key entry)) dest_key s else (Inr (), s)) of
          (Inl e, s1) \<Rightarrow> (Inl e, s1, d)
        | (Inr _, s1) \<Rightarrow>
            (case db_insert t_task_id row (db_tasks d) of
               Inr rows \<Rightarrow> (Inr row, s1, d\<lparr>db_tasks := rows\<rparr>)
             | Inl e \<Rightarrow> (Inl (OtherException None ''IntegrityError''),
                 (if copied then snd (safe_delete store (Some dest_key) s1) else s1), d)))"

definition claim_generation :: "string \<Rightarrow> int \<Rightarrow> db \<Rightarrow> nat \<times> db" where
  "claim_generation ck claimed_generation d =
    (let P = (\<lambda>r. c_cache_key r = ck \<and> c_object_generation r = claimed_generation) in
     (db_count P (db_cache d),
      d\<lparr>db_cache := db_update_where P (\<lambda>r. r\<lparr>c_object_key := Some [],
          c_object_generation := claimed_generation + 1\<rparr>) (db_cache d)\<rparr>))"

definition remove_generation :: "string \<Rightarrow> int \<Rightarrow> db \<Rightarrow> nat \<times> db" where
  "remove_generation ck new_generation d =
    (let P = (\<lambda>r. c_cache_key r = ck \<and> c_object_generation r = new_generation \<and> empty_object r) in
     (db_count P (db_cache d), d\<lparr>db_cache := filter (\<lambda>r. \<not> P r) (db_cache d)\<rparr>))"

definition invalidate ::
    "'s store_ops \<Rightarrow> (db \<Rightarrow> db) \<Rightarrow> (db \<Rightarrow> db) \<Rightarrow> string \<Rightarrow> 's \<Rightarrow> db \<Rightarrow> bool \<times> 's \<times> db" where
  "invalidate store interfere1 interfere2 ck s d =
    (case get_cache_row ck d of
       None \<Rightarrow> (False, s, d)
     | Some row \<Rightarrow>
         (let object_key = c_object_key row; claimed_generation = c_object_generation row; d1 = interfere1 d in
          case claim_generation ck claimed_generation d1 of
            (claim, d2) \<Rightarrow>
              if claim = 0 then (False, s, d1)
              else
                (case safe_delete store object_key s of
                   (False, s1) \<Rightarrow> (False, s1, d2)
                 | (True, s1) \<Rightarrow>
                     (let d3 = interfere2 d2 in
                      case remove_generation ck (claimed_generation + 1) d3 of
                        (removed, d4) \<Rightarrow> if removed = 0 then (False, s1, d3) else (True, s1, d4)))))"

definition expired_clause :: "time \<Rightarrow> cache_entry \<Rightarrow> bool" where
  "expired_clause now r = (case c_expires_at r of None \<Rightarrow> False | Some e \<Rightarrow> e < now)"

fun sweep_rows ::
    "'s store_ops \<Rightarrow> (nat \<Rightarrow> db \<Rightarrow> db) \<Rightarrow> nat \<Rightarrow> cache_entry list \<Rightarrow> nat \<Rightarrow> 's \<Rightarrow> db \<Rightarrow> nat \<times> 's \<times> db" where
  "sweep_rows store interfere i [] removed s d = (removed, s, d)"
| "sweep_rows store interfere i (row # rows) removed s d =
    (case safe_delete store (c_object_key row) s of
       (False, s1) \<Rightarrow> sweep_rows store interfere (Suc i) rows removed s1 d
     | (True, s1) \<Rightarrow>
         (let d1 = interfere i d in
          case get_cache_row (c_cache_key row) d1 of
            None \<Rightarrow> sweep_rows store interfere (Suc i) rows removed s1 d1
          | Some db_row \<Rightarrow>
              if c_object_generation db_row \<noteq> c_object_generation row
              then sweep_rows store interfere (Suc i) rows removed s1 d1
              else sweep_rows store interfere (Suc i) rows (Suc removed) s1
                     (d1\<lparr>db_cache := db_delete c_cache_key (c_cache_key row) (db_cache d1)\<rparr>)))"

definition sweep_expired ::
    "'s store_ops \<Rightarrow> (nat \<Rightarrow> db \<Rightarrow> db) \<Rightarrow> time \<Rightarrow> 's \<Rightarrow> db \<Rightarrow> nat \<times> 's \<times> db" where
  "sweep_expired store interfere now s d =
     sweep_rows store interfere 0 (take 100 (filter (expired_clause now) (db_cache d))) 0 s d"

section \<open>Lemmas\<close>

lemma reset_row_key [simp]: "c_cache_key (reset_row cfg now rk row) = c_cache_key row"
  by (simp add: reset_row_def Let_def split: option.splits)

lemma reset_row_cleared:
  "c_object_key (reset_row cfg now rk row) = Some []"
  "c_object_generation (reset_row cfg now rk row) = c_object_generation row + 1"
  "c_hit_count (reset_row cfg now rk row) = 0"
  by (simp_all add: reset_row_def Let_def split: option.splits)

lemma empty_object_truthy: "empty_object r \<longleftrightarrow> \<not> truthy (c_object_key r)"
  by (cases "c_object_key r") (auto simp: empty_object_def)

lemma get_cache_row_update_where:
  assumes "\<And>r. c_cache_key (f r) = c_cache_key r"
  shows "get_cache_row k (d\<lparr>db_cache := db_update_where P f (db_cache d)\<rparr>)
    = map_option (\<lambda>r. if P r then f r else r) (get_cache_row k d)"
proof -
  have "find (\<lambda>r. c_cache_key r = k) (map (\<lambda>r. if P r then f r else r) rows)
      = map_option (\<lambda>r. if P r then f r else r) (find (\<lambda>r. c_cache_key r = k) rows)" for rows
    using assms by (induction rows) auto
  then show ?thesis by (simp add: get_cache_row_def db_get_def db_update_where_def)
qed

text \<open>A statement guarded by the primary key matches a row exactly when the row read by key does.\<close>

lemma count_by_key:
  assumes "distinct (map c_cache_key (db_cache d))"
  shows "db_count (\<lambda>r. c_cache_key r = ck \<and> Q r) (db_cache d) = 0 \<longleftrightarrow>
    (case get_cache_row ck d of None \<Rightarrow> True | Some r \<Rightarrow> \<not> Q r)"
proof (cases "get_cache_row ck d")
  case None
  then have "ck \<notin> c_cache_key ` set (db_cache d)" by (simp add: get_cache_row_def db_get_None)
  then show ?thesis using None by (auto simp: db_count_0)
next
  case (Some r)
  then have r: "r \<in> set (db_cache d)" "c_cache_key r = ck" using get_cache_row_Some by blast+
  have uniq: "r' = r" if "r' \<in> set (db_cache d)" "c_cache_key r' = ck" for r'
    using cache_table.mem_unique [OF assms that(1) r(1)] that r by simp
  have "(\<forall>r' \<in> set (db_cache d). \<not> (c_cache_key r' = ck \<and> Q r')) \<longleftrightarrow> \<not> Q r" using uniq r by blast
  then show ?thesis by (simp add: db_count_0 Some)
qed

lemma publish_object_result:
  assumes "distinct (map c_cache_key (db_cache d))" and "publish_object ck g dest fmt d = (n, d')"
  shows "(n = 0) = (case get_cache_row ck d of None \<Rightarrow> True
           | Some r \<Rightarrow> \<not> (c_object_generation r = g \<and> empty_object r))"
    and "k \<noteq> ck \<Longrightarrow> get_cache_row k d' = get_cache_row k d"
    and "get_cache_row ck d = Some r \<Longrightarrow> c_object_generation r = g \<Longrightarrow> empty_object r \<Longrightarrow>
      get_cache_row ck d' = Some (r\<lparr>c_object_key := Some dest, c_result_format := Some fmt, c_object_generation := g + 1\<rparr>)"
proof -
  let ?P = "\<lambda>r. c_cache_key r = ck \<and> c_object_generation r = g \<and> empty_object r"
  let ?f = "\<lambda>r. r\<lparr>c_object_key := Some dest, c_result_format := Some fmt, c_object_generation := g + 1\<rparr>"
  have n: "n = db_count ?P (db_cache d)" and d': "d' = d\<lparr>db_cache := db_update_where ?P ?f (db_cache d)\<rparr>"
    using assms(2) by (simp_all add: publish_object_def Let_def)
  show "(n = 0) = (case get_cache_row ck d of None \<Rightarrow> True
           | Some r \<Rightarrow> \<not> (c_object_generation r = g \<and> empty_object r))"
    unfolding n using count_by_key [OF assms(1), of ck "\<lambda>r. c_object_generation r = g \<and> empty_object r"] by simp
  have get: "get_cache_row k d' = map_option (\<lambda>r. if ?P r then ?f r else r) (get_cache_row k d)" for k
    unfolding d' by (rule get_cache_row_update_where) simp
  show "k \<noteq> ck \<Longrightarrow> get_cache_row k d' = get_cache_row k d"
    by (cases "get_cache_row k d") (use get [of k] get_cache_row_Some in fastforce)+
  show "get_cache_row ck d = Some r \<Longrightarrow> c_object_generation r = g \<Longrightarrow> empty_object r \<Longrightarrow>
      get_cache_row ck d' = Some (?f r)"
    using get [of ck] get_cache_row_Some [of ck d r] by simp
qed

lemma get_cache_row_filter:
  "get_cache_row k (d\<lparr>db_cache := filter (\<lambda>r. \<not> (c_cache_key r = ck \<and> Q r)) (db_cache d)\<rparr>)
    = (if k \<noteq> ck then get_cache_row k d else db_find (\<lambda>r. c_cache_key r = ck \<and> \<not> Q r) (db_cache d))"
proof -
  have "find (\<lambda>r. c_cache_key r = k) (filter (\<lambda>r. \<not> (c_cache_key r = ck \<and> Q r)) rows)
      = (if k \<noteq> ck then find (\<lambda>r. c_cache_key r = k) rows else find (\<lambda>r. c_cache_key r = ck \<and> \<not> Q r) rows)" for rows
    by (induction rows) auto
  then show ?thesis by (simp add: get_cache_row_def db_get_def db_find_def)
qed

lemma claim_generation_result:
  assumes "db_wf d" and "get_cache_row ck d = Some row"
    and "claim_generation ck (c_object_generation row) d = (n, d')"
  shows "n \<noteq> 0" "db_wf d'"
    "get_cache_row k d' = (if k = ck then Some (row\<lparr>c_object_key := Some [],
        c_object_generation := c_object_generation row + 1\<rparr>) else get_cache_row k d)"
proof -
  let ?P = "\<lambda>r. c_cache_key r = ck \<and> c_object_generation r = c_object_generation row"
  let ?f = "\<lambda>r. r\<lparr>c_object_key := Some [], c_object_generation := c_object_generation row + 1\<rparr>"
  have n: "n = db_count ?P (db_cache d)" and d': "d' = d\<lparr>db_cache := db_update_where ?P ?f (db_cache d)\<rparr>"
    using assms(3) by (simp_all add: claim_generation_def Let_def)
  show "n \<noteq> 0" unfolding n
    using count_by_key [of d ck "\<lambda>r. c_object_generation r = c_object_generation row"] assms(1,2) by (simp add: db_wf_def)
  show "db_wf d'" using assms(1) by (simp add: d' db_wf_def db_update_where_keys)
  have get: "get_cache_row k d' = map_option (\<lambda>r. if ?P r then ?f r else r) (get_cache_row k d)"
    unfolding d' by (rule get_cache_row_update_where) simp
  show "get_cache_row k d' = (if k = ck then Some (?f row) else get_cache_row k d)"
    using get assms(2) get_cache_row_Some [of k d] by (cases "get_cache_row k d") (auto dest: get_cache_row_Some)
qed

lemma create_hit_task_Inr:
  assumes "object_store store contents" and "truthy (c_object_key entry)"
    and "create_hit_task store now tid entry names s d = (Inr t, s', d')"
  shows "contents s' (result_key tid ''zip'') = contents s (the (c_object_key entry))"
    and "contents s (the (c_object_key entry)) \<noteq> None"
    and "t_task_id t = tid" "t_status t = TASK_COMPLETED" "t_result_key t = Some (result_key tid ''zip'')"
    and "t_result_format t = c_result_format entry"
    and "get_task tid d' = Some t"
proof -
  let ?dst = "result_key tid ''zip''"
  obtain u where copy: "os_copy store (the (c_object_key entry)) ?dst s = (Inr u, s')"
    using assms(2,3) by (auto simp: create_hit_task_def Let_def RESULT_FORMAT_ZIP_def split: prod.splits sum.splits)
  show "contents s' ?dst = contents s (the (c_object_key entry))" "contents s (the (c_object_key entry)) \<noteq> None"
    using object_store.copy_ok [OF assms(1) copy] by auto
  note D = assms(3) [unfolded create_hit_task_def Let_def RESULT_FORMAT_ZIP_def]
  from D assms(2) copy show "t_task_id t = tid" "t_status t = TASK_COMPLETED" "t_result_key t = Some ?dst"
    "t_result_format t = c_result_format entry"
    by (auto split: sum.splits simp: new_task_def)
  obtain rows where ins: "db_insert t_task_id t (db_tasks d) = Inr rows" "d' = d\<lparr>db_tasks := rows\<rparr>"
    using D assms(2) copy by (auto split: sum.splits)
  then show "get_task tid d' = Some t"
    using task_table.get_ins [OF ins(1), of tid] \<open>t_task_id t = tid\<close> by (simp add: get_task_def)
qed

lemma populate_published:
  assumes "object_store store contents" and "db_wf d" and "g \<noteq> []"
    and "get_cache_row ck d = Some row" and "\<not> truthy (c_object_key row)"
    and "populate_from_task store (\<lambda>d. d) g tid ck fmt s d = (r, s', d')"
    and "os_copy store (result_key tid ''zip'') (cache_object_key ck (Some g)) s = (Inr u, s1)"
  shows "r = Inr ()" "s' = s1" "get_cache_row ck d' = Some (row\<lparr>c_object_key := Some (cache_object_key ck (Some g)),
      c_result_format := Some fmt, c_object_generation := c_object_generation row + 1\<rparr>)"
proof -
  let ?dest = "cache_object_key ck (Some g)"
  obtain n d2 where pub: "publish_object ck (c_object_generation row) ?dest fmt d = (n, d2)"
    by (cases "publish_object ck (c_object_generation row) ?dest fmt d")
  have dist: "distinct (map c_cache_key (db_cache d))" using assms(2) by (simp add: db_wf_def)
  note P = publish_object_result [OF dist pub]
  have n: "n \<noteq> 0" using P(1) assms(4,5) by (simp add: empty_object_truthy)
  note D = assms(6) [unfolded populate_from_task_def Let_def RESULT_FORMAT_ZIP_def assms(7)]
  from D n assms(4) pub show "r = Inr ()" "s' = s1" by simp_all
  from D n assms(4,5) pub P(3) show "get_cache_row ck d' = Some (row\<lparr>c_object_key := Some ?dest,
      c_result_format := Some fmt, c_object_generation := c_object_generation row + 1\<rparr>)"
    by (simp add: empty_object_truthy)
qed

text \<open>An entry, its database and a store holding one task result, on which the properties are
  evaluated.\<close>

definition example_entry :: "string \<Rightarrow> cache_entry" where
  "example_entry obj = \<lparr>c_cache_key = ''ab12'', c_content_sha256 = ''c'', c_options_hash = ''o'',
     c_backend = ''pipeline'', c_parse_method = ''auto'', c_effort = ''medium'', c_object_key = Some obj,
     c_object_generation = 0, c_result_format = Some ''zip'', c_size_bytes = None, c_hit_count = 0,
     c_expires_at = Some 1000, c_created_at = 0\<rparr>"

definition example_cache :: "string \<Rightarrow> db" where
  "example_cache obj = empty_db\<lparr>db_cache := [example_entry obj]\<rparr>"

abbreviation example_store :: "buckets store_ops" where
  "example_store \<equiv> S3ObjectStore memory_client ''b''"

abbreviation example_objects :: buckets where
  "example_objects \<equiv> Map.empty((''b'', ''results/t1.zip'') \<mapsto> [7])"

lemma example_cache_facts:
  "get_cache_row ''ab12'' (example_cache obj) = Some (example_entry obj)" "db_wf (example_cache obj)"
  "row_is_expired now (example_entry obj) = (1000 < now)" "c_object_key (example_entry obj) = Some obj"
  "object_store example_store (\<lambda>s k. s (''b'', k))"
  by (simp_all add: example_cache_def example_entry_def get_cache_row_def db_get_def db_wf_def empty_db_def
      row_is_expired_def memory.object_store_axioms)

section \<open>Properties\<close>

text \<open>C11: A lookup never serves an expired or empty entry, and never fails. A hit is an unexpired row
  with an object and counts itself; an expired row is cleared under a new generation, so that it
  cannot be served again, and at most its own object is removed from the store; otherwise nothing
  changes.\<close>

theorem lookup_correct:
  assumes "object_store store contents"
    and "lookup store cfg now ck s d = (r, s', d')"
  shows "(case get_cache_row ck d of
      None \<Rightarrow> r = None \<and> s' = s \<and> d' = d
    | Some row \<Rightarrow>
        if row_is_expired now row
        then r = None \<and> (\<exists>row'. get_cache_row ck d' = Some row' \<and> c_object_key row' = Some []
               \<and> c_object_generation row' = c_object_generation row + 1 \<and> c_hit_count row' = 0)
             \<and> (\<forall>k. Some k \<noteq> c_object_key row \<longrightarrow> contents s' k = contents s k)
        else if truthy (c_object_key row)
        then r = Some (row\<lparr>c_hit_count := c_hit_count row + 1\<rparr>) \<and> get_cache_row ck d' = r \<and> s' = s
        else r = None \<and> s' = s \<and> d' = d)
    \<and> (\<forall>k. k \<noteq> ck \<longrightarrow> get_cache_row k d' = get_cache_row k d)"
proof -
  have frame: "\<forall>j. Some j \<noteq> k \<longrightarrow> contents (snd (safe_delete store k s)) j = contents s j" for k
    using object_store.safe_delete_frame [OF assms(1), of k s] by (metis prod.collapse)
  show ?thesis
  proof (cases "get_cache_row ck d")
    case None
    then show ?thesis using assms(2) by (simp add: lookup_def)
  next
    case (Some row)
    then have key: "c_cache_key row = ck" using get_cache_row_Some by blast
    show ?thesis
    proof (cases "row_is_expired now row")
      case True
      then have "r = None" "s' = snd (safe_delete store (c_object_key row) s)"
        "d' = upd_cache ck (reset_row cfg now None) d"
        using assms(2) Some key by (simp_all add: lookup_def reset_expired_row_def Let_def)
      then show ?thesis using Some True frame [of "c_object_key row"]
        by (simp add: get_cache_row_upd reset_row_cleared)
    next
      case False
      then show ?thesis using assms(2) Some
        by (cases "truthy (c_object_key row)") (simp_all add: lookup_def Let_def get_cache_row_upd, auto simp: get_cache_row_upd)
    qed
  qed
qed

theorem lookup_correct_witness:
  "\<exists>d'. lookup example_store default_settings 5 ''ab12'' example_objects (example_cache ''o'')
      = (Some ((example_entry ''o'')\<lparr>c_hit_count := 1\<rparr>), example_objects, d')"
proof -
  obtain r s' d' where eq: "lookup example_store default_settings 5 ''ab12'' example_objects (example_cache ''o'') = (r, s', d')"
    by (cases "lookup example_store default_settings 5 ''ab12'' example_objects (example_cache ''o'')")
  from lookup_correct [OF example_cache_facts(5) eq] show ?thesis
    unfolding eq by (simp add: example_cache_facts) (simp add: example_entry_def)
qed

text \<open>An existing row in the given generation that has no object yet.\<close>

fun awaits_object :: "int \<Rightarrow> cache_entry option \<Rightarrow> bool" where
  "awaits_object g None = False"
| "awaits_object g (Some row) = (c_object_generation row = g \<and> \<not> truthy (c_object_key row))"

text \<open>C12: Population compares and swaps. It publishes exactly when the result could be copied, the entry
  exists, and the entry is, when the statement runs, still in the generation that
  \<open>populate_from_task\<close> itself read a moment before and still without an object: then it points to the
  copy of the task's result under the next generation. Otherwise nothing is written, whatever was
  committed meanwhile, and the copy is given back to \<open>safe_delete\<close>. A missing result is skipped, any
  other failure of the copy is raised. No other entry and no other object changes. The generation is
  not the one the task was created under: an entry that was reset after that, and before the
  population read it, does receive the result (\<open>populate_after_reset\<close>).\<close>

theorem populate_compare_and_swap:
  assumes "object_store store contents" and "db_wf (interfere d)" and "g \<noteq> []"
    and "os_copy store (result_key tid ''zip'') (cache_object_key ck (Some g)) s = (c, s1)"
    and "populate_from_task store interfere g tid ck fmt s d = (r, s', d')"
  shows "(case c of
      Inl e \<Rightarrow> r = (case e of KeyError _ \<Rightarrow> Inr () | _ \<Rightarrow> Inl e) \<and> s' = s1 \<and> d' = d
    | Inr _ \<Rightarrow> r = Inr () \<and>
        (case get_cache_row ck d of
          None \<Rightarrow> s' = snd (safe_delete store (Some (cache_object_key ck (Some g))) s1) \<and> d' = d
        | Some row \<Rightarrow>
            if awaits_object (c_object_generation row) (get_cache_row ck (interfere d))
            then s' = s1 \<and> contents s (result_key tid ''zip'') \<noteq> None
              \<and> contents s' (cache_object_key ck (Some g)) = contents s (result_key tid ''zip'')
              \<and> get_cache_row ck d' = map_option (\<lambda>row1. row1\<lparr>c_object_key := Some (cache_object_key ck (Some g)),
                    c_result_format := Some fmt, c_object_generation := c_object_generation row + 1\<rparr>)
                  (get_cache_row ck (interfere d))
              \<and> (\<forall>k. k \<noteq> ck \<longrightarrow> get_cache_row k d' = get_cache_row k (interfere d))
              \<and> d' = (interfere d)\<lparr>db_cache := db_cache d'\<rparr>
            else s' = snd (safe_delete store (Some (cache_object_key ck (Some g))) s1) \<and> d' = interfere d))
    \<and> (\<forall>k. k \<noteq> cache_object_key ck (Some g) \<longrightarrow> contents s' k = contents s k)"
proof -
  let ?src = "result_key tid ''zip''" and ?dest = "cache_object_key ck (Some g)"
  note D = assms(5) [unfolded populate_from_task_def Let_def RESULT_FORMAT_ZIP_def assms(4)]
  have frame1: "contents s1 k = contents s k" if "k \<noteq> ?dest" for k
    using object_store.copy_frame [OF assms(1,4) that] .
  have frame2: "contents (snd (safe_delete store (Some ?dest) s1)) k = contents s k" if "k \<noteq> ?dest" for k
    using object_store.safe_delete_frame [OF assms(1), of "Some ?dest" s1 _ _ k] frame1 [OF that] that
    by (metis option.inject prod.collapse)
  show ?thesis
  proof (cases c)
    case (Inl e)
    then have "r = (case e of KeyError _ \<Rightarrow> Inr () | _ \<Rightarrow> Inl e)" "s' = s1" "d' = d"
      using D by (cases e; simp)+
    then show ?thesis using Inl frame1 by simp
  next
    case (Inr u)
    have cp: "contents s1 ?dest = contents s ?src" "contents s ?src \<noteq> None"
      using object_store.copy_ok [OF assms(1) assms(4) [unfolded Inr]] by auto
    show ?thesis
    proof (cases "get_cache_row ck d")
      case None
      then have "r = Inr ()" "s' = snd (safe_delete store (Some ?dest) s1)" "d' = d" using D Inr by simp_all
      then show ?thesis using None Inr frame2 by simp
    next
      case (Some row)
      obtain n d2 where pub: "publish_object ck (c_object_generation row) ?dest fmt (interfere d) = (n, d2)"
        by (cases "publish_object ck (c_object_generation row) ?dest fmt (interfere d)")
      have dist: "distinct (map c_cache_key (db_cache (interfere d)))" using assms(2) by (simp add: db_wf_def)
      note P = publish_object_result [OF dist pub]
      have may: "awaits_object (c_object_generation row) (get_cache_row ck (interfere d)) \<longleftrightarrow> n \<noteq> 0"
        using P(1) by (cases "get_cache_row ck (interfere d)") (auto simp: empty_object_truthy)
      show ?thesis
      proof (cases "n = 0")
        case True
        then have "r = Inr ()" "s' = snd (safe_delete store (Some ?dest) s1)" "d' = interfere d"
          using D Inr Some pub by simp_all
        then show ?thesis using Inr Some may True frame2 by simp
      next
        case False
        then obtain row1 where row1: "get_cache_row ck (interfere d) = Some row1"
          "c_object_generation row1 = c_object_generation row" "empty_object row1"
          using may by (cases "get_cache_row ck (interfere d)") (auto simp: empty_object_truthy)
        have "s' = s1" "d' = d2" "r = Inr ()" using D Inr Some pub False by simp_all
        moreover have "d2 = (interfere d)\<lparr>db_cache := db_cache d2\<rparr>"
          using pub by (auto simp: publish_object_def Let_def)
        ultimately show ?thesis
          using Some Inr row1 cp P(2,3) may False frame1 by (simp add: empty_object_truthy)
      qed
    qed
  qed
qed

lemma populate_after_reset:
  fixes d :: db and row :: cache_entry
  assumes "object_store store contents" and "db_wf d" and "g \<noteq> []" and "get_cache_row ck d = Some row"
    and "os_copy store (result_key tid ''zip'') (cache_object_key ck (Some g)) s = (Inr u, s1)"
    and "populate_from_task store (\<lambda>d. d) g tid ck fmt s (upd_cache ck (reset_row cfg now None) d) = (r, s', d')"
  shows "map_option c_object_key (get_cache_row ck d') = Some (Some (cache_object_key ck (Some g)))
    \<and> map_option c_object_generation (get_cache_row ck d') = Some (c_object_generation row + 2)"
proof -
  let ?d = "upd_cache ck (reset_row cfg now None) d"
  have "get_cache_row ck ?d = Some (reset_row cfg now None row)" using assms(4) by (simp add: get_cache_row_upd)
  moreover have "db_wf ?d" using assms(2) by (rule db_wf_upd_cache) simp
  ultimately show ?thesis
    using populate_published [OF assms(1) _ assms(3) _ _ assms(6,5)] by (simp add: reset_row_cleared)
qed

text \<open>The publishing branch, with a hit counted meanwhile, and the refused one, with another object
  published meanwhile.\<close>

theorem populate_compare_and_swap_witness:
  "(\<exists>s' d'. populate_from_task example_store (upd_cache ''ab12'' (\<lambda>r. r\<lparr>c_hit_count := 7\<rparr>)) ''g'' ''t1'' ''ab12'' ''zip''
      example_objects (example_cache []) = (Inr (), s', d')
    \<and> get_cache_row ''ab12'' d' = Some ((example_entry ''cache/ab12/g'')\<lparr>c_hit_count := 7, c_object_generation := 1\<rparr>)
    \<and> s' (''b'', ''cache/ab12/g'') = Some [7])
   \<and> (\<exists>s'. populate_from_task example_store (\<lambda>d. example_cache ''x'') ''g'' ''t1'' ''ab12'' ''zip'' example_objects
      (example_cache []) = (Inr (), s', example_cache ''x''))"
proof -
  let ?f = "upd_cache ''ab12'' (\<lambda>r. r\<lparr>c_hit_count := 7\<rparr>)"
  let ?s1 = "example_objects((''b'', ''cache/ab12/g'') \<mapsto> [7])"
  have copy: "os_copy example_store (result_key ''t1'' ''zip'') (cache_object_key ''ab12'' (Some ''g'')) example_objects
      = (Inr (), ?s1)"
    by (simp add: key_shapes S3ObjectStore_def s3_copy_def memory_client_def)
  have wf: "db_wf (?f (example_cache []))"
    by (rule db_wf_upd_cache [OF example_cache_facts(2)]) simp
  obtain r s' d' where eq: "populate_from_task example_store ?f ''g'' ''t1'' ''ab12'' ''zip'' example_objects
      (example_cache []) = (r, s', d')"
    by (cases "populate_from_task example_store ?f ''g'' ''t1'' ''ab12'' ''zip'' example_objects (example_cache [])")
  obtain r2 s2 d2 where eq2: "populate_from_task example_store (\<lambda>d. example_cache ''x'') ''g'' ''t1'' ''ab12'' ''zip''
      example_objects (example_cache []) = (r2, s2, d2)"
    by (cases "populate_from_task example_store (\<lambda>d. example_cache ''x'') ''g'' ''t1'' ''ab12'' ''zip'' example_objects (example_cache [])")
  have row: "get_cache_row ''ab12'' (?f (example_cache [])) = Some ((example_entry [])\<lparr>c_hit_count := 7\<rparr>)"
    by (simp add: get_cache_row_upd example_cache_facts)
  from populate_compare_and_swap [OF example_cache_facts(5) wf _ copy eq]
  have "r = Inr () \<and> s' = ?s1 \<and> get_cache_row ''ab12'' d' = Some ((example_entry [])\<lparr>c_hit_count := 7,
      c_object_key := Some ''cache/ab12/g'', c_result_format := Some ''zip'', c_object_generation := 1\<rparr>)"
    by (simp add: row example_cache_facts key_shapes) (simp add: example_entry_def)
  moreover from populate_compare_and_swap [OF example_cache_facts(5) _ _ copy eq2]
  have "r2 = Inr () \<and> d2 = example_cache ''x''"
    by (simp add: example_cache_facts)
  ultimately show ?thesis unfolding eq eq2 by (simp add: example_entry_def)
qed

text \<open>C25: A cache hit returns the original result. When a task's stored result was copied into an
  empty cache entry, a later lookup before the entry expires finds it, and a hit task built from it
  is complete, with a result object of its own holding the same bytes and format.\<close>

theorem cache_hit_serves_result:
  assumes "object_store store contents" and "db_wf d" and "g \<noteq> []"
    and "get_cache_row ck d = Some row" and "\<not> truthy (c_object_key row)" and "\<not> row_is_expired now row"
    and "os_copy store (result_key tid ''zip'') (cache_object_key ck (Some g)) s = (Inr u, s1)"
    and "populate_from_task store (\<lambda>d. d) g tid ck fmt s d = (r, s1, d1)"
    and "lookup store cfg now ck s1 d1 = (entry, s2, d2)"
    and "create_hit_task store now tid' (the entry) names s2 d2 = (Inr t, s3, d3)"
  shows "entry \<noteq> None \<and> t_status t = TASK_COMPLETED \<and> t_result_format t = Some fmt
    \<and> get_task tid' d3 = Some t \<and> t_result_key t = Some (result_key tid' ''zip'')
    \<and> contents s3 (result_key tid' ''zip'') = contents s (result_key tid ''zip'')
    \<and> contents s (result_key tid ''zip'') \<noteq> None"
proof -
  let ?dest = "cache_object_key ck (Some g)"
  let ?row = "row\<lparr>c_object_key := Some ?dest, c_result_format := Some fmt,
      c_object_generation := c_object_generation row + 1\<rparr>"
  have row1: "get_cache_row ck d1 = Some ?row"
    using populate_published [OF assms(1-5,8,7)] by simp
  have "?dest \<noteq> []" using assms(3) by (simp add: key_shapes)
  moreover have "\<not> row_is_expired now ?row" using assms(6) by (simp add: row_is_expired_def)
  ultimately have e: "entry = Some (?row\<lparr>c_hit_count := c_hit_count row + 1\<rparr>)" "s2 = s1"
    using assms(9) row1 by (auto simp: lookup_def Let_def get_cache_row_upd)
  have "truthy (c_object_key (the entry))" using e \<open>?dest \<noteq> []\<close> by simp
  note H = create_hit_task_Inr [OF assms(1) this assms(10)]
  have "contents s1 ?dest = contents s (result_key tid ''zip'')" "contents s (result_key tid ''zip'') \<noteq> None"
    using object_store.copy_ok [OF assms(1,7)] by auto
  then show ?thesis using H e by simp
qed

lemma example_hit_steps:
  defines "s1 \<equiv> example_objects((''b'', ''cache/ab12/g'') \<mapsto> [7])"
    and "d1 \<equiv> empty_db\<lparr>db_cache := [(example_entry ''cache/ab12/g'')\<lparr>c_object_generation := 1\<rparr>]\<rparr>"
    and "e \<equiv> (example_entry ''cache/ab12/g'')\<lparr>c_object_generation := 1, c_hit_count := 1\<rparr>"
  shows "os_copy example_store (result_key ''t1'' ''zip'') (cache_object_key ''ab12'' (Some ''g'')) example_objects = (Inr (), s1)"
    "populate_from_task example_store (\<lambda>d. d) ''g'' ''t1'' ''ab12'' ''zip'' example_objects (example_cache []) = (Inr (), s1, d1)"
    "lookup example_store default_settings 5 ''ab12'' s1 d1 = (Some e, s1, d1\<lparr>db_cache := [e]\<rparr>)"
    "\<exists>t s3 d3. create_hit_task example_store 5 ''t2'' e [''a.pdf''] s1 (d1\<lparr>db_cache := [e]\<rparr>) = (Inr t, s3, d3)"
  by (simp_all add: s1_def d1_def e_def key_shapes S3ObjectStore_def s3_copy_def memory_client_def populate_from_task_def
      RESULT_FORMAT_ZIP_def Let_def example_cache_def example_entry_def get_cache_row_def db_get_def
      publish_object_def db_count_def db_update_where_def empty_object_def lookup_def row_is_expired_def
      upd_cache_def db_update_def create_hit_task_def db_insert_def empty_db_def)

theorem cache_hit_serves_result_witness:
  "\<exists>t s3 d3 s1 d1 e. create_hit_task example_store 5 ''t2'' e [''a.pdf''] s1 d1 = (Inr t, s3, d3)
    \<and> t_status t = TASK_COMPLETED \<and> s3 (''b'', ''results/t2.zip'') = Some [7]"
proof -
  note E = example_hit_steps
  have pre: "\<not> truthy (c_object_key (example_entry []))" "\<not> row_is_expired 5 (example_entry [])"
    by (simp_all add: example_cache_facts)
  from E(4) obtain t s3 d3 where hit: "create_hit_task example_store 5 ''t2''
      (the (Some ((example_entry ''cache/ab12/g'')\<lparr>c_object_generation := 1, c_hit_count := 1\<rparr>))) [''a.pdf'']
      (example_objects((''b'', ''cache/ab12/g'') \<mapsto> [7]))
      (empty_db\<lparr>db_cache := [(example_entry ''cache/ab12/g'')\<lparr>c_object_generation := 1\<rparr>]\<rparr>
        \<lparr>db_cache := [(example_entry ''cache/ab12/g'')\<lparr>c_object_generation := 1, c_hit_count := 1\<rparr>]\<rparr>)
      = (Inr t, s3, d3)" unfolding option.sel by blast
  from cache_hit_serves_result [OF example_cache_facts(5) example_cache_facts(2) _ example_cache_facts(1) pre E(1,2,3) hit]
  have "t_status t = TASK_COMPLETED \<and> s3 (''b'', ''results/t2.zip'') = Some [7]"
    by (simp add: key_shapes)
  with hit show ?thesis by blast
qed

text \<open>C34: Invalidation without interference. An unknown key is refused and changes nothing. For a known
  key whose object could be deleted, the entry and its object are gone and the answer is true. When
  the object store refuses the deletion the answer is false, yet the entry no longer points to an
  object and its generation moved on, so that it cannot be served. No other entry changes.\<close>

theorem invalidate_correct:
  assumes "object_store store contents" and "db_wf d"
    and "invalidate store (\<lambda>d. d) (\<lambda>d. d) ck s d = (ok, s', d')"
  shows "(case get_cache_row ck d of
      None \<Rightarrow> \<not> ok \<and> s' = s \<and> d' = d
    | Some row \<Rightarrow>
        if fst (safe_delete store (c_object_key row) s)
        then ok \<and> get_cache_row ck d' = None
          \<and> (case c_object_key row of None \<Rightarrow> True | Some k \<Rightarrow> k = [] \<or> contents s' k = None)
        else \<not> ok \<and> get_cache_row ck d' = Some (row\<lparr>c_object_key := Some [],
               c_object_generation := c_object_generation row + 1\<rparr>))
    \<and> (\<forall>k. k \<noteq> ck \<longrightarrow> get_cache_row k d' = get_cache_row k d)"
proof (cases "get_cache_row ck d")
  case None
  then show ?thesis using assms(3) by (simp add: invalidate_def)
next
  case (Some row)
  obtain n d2 where claim: "claim_generation ck (c_object_generation row) d = (n, d2)"
    by (cases "claim_generation ck (c_object_generation row) d")
  note C = claim_generation_result [OF assms(2) Some claim]
  obtain b s1 where del: "safe_delete store (c_object_key row) s = (b, s1)"
    by (cases "safe_delete store (c_object_key row) s")
  note D = assms(3) [unfolded invalidate_def Let_def Some option.case claim prod.case del]
  show ?thesis
  proof (cases b)
    case False
    then show ?thesis using D C Some del by simp
  next
    case True
    let ?Q = "\<lambda>r. c_object_generation r = c_object_generation row + 1 \<and> empty_object r"
    have row2: "get_cache_row ck d2 = Some (row\<lparr>c_object_key := Some [], c_object_generation := c_object_generation row + 1\<rparr>)"
      using C(3) [of ck] by simp
    have cnt: "db_count (\<lambda>r. c_cache_key r = ck \<and> ?Q r) (db_cache d2) \<noteq> 0"
      using count_by_key [of d2 ck ?Q] C(2) row2 by (simp add: db_wf_def empty_object_def)
    have d': "ok" "s' = s1" "d' = d2\<lparr>db_cache := filter (\<lambda>r. \<not> (c_cache_key r = ck \<and> ?Q r)) (db_cache d2)\<rparr>"
      using D C(1) True cnt by (simp_all add: remove_generation_def Let_def)
    have "db_find (\<lambda>r. c_cache_key r = ck \<and> \<not> ?Q r) (db_cache d2) = None"
      using C(2) row2 cache_table.mem_get [of "db_cache d2"]
      by (auto simp: db_find_None db_wf_def get_cache_row_def empty_object_def)
    moreover have "case c_object_key row of None \<Rightarrow> True | Some k \<Rightarrow> k = [] \<or> contents s1 k = None"
      using object_store.safe_delete_deletes [OF assms(1), of "c_object_key row" s s1] del True
      by (cases "c_object_key row"; cases "the (c_object_key row) = []") simp_all
    moreover have "get_cache_row k d' = (if k \<noteq> ck then get_cache_row k d2
        else db_find (\<lambda>r. c_cache_key r = ck \<and> \<not> ?Q r) (db_cache d2))" for k
      unfolding d'(3) by (rule get_cache_row_filter)
    ultimately show ?thesis
      unfolding d'(2) using d'(1) C(3) True Some del by simp
  qed
qed

theorem invalidate_correct_witness:
  "\<exists>s' d'. invalidate example_store (\<lambda>d. d) (\<lambda>d. d) ''ab12'' example_objects (example_cache ''results/t1.zip'')
      = (True, s', d') \<and> get_cache_row ''ab12'' d' = None \<and> s' (''b'', ''results/t1.zip'') = None"
proof -
  obtain ok s' d' where eq: "invalidate example_store (\<lambda>d. d) (\<lambda>d. d) ''ab12'' example_objects
      (example_cache ''results/t1.zip'') = (ok, s', d')"
    by (cases "invalidate example_store (\<lambda>d. d) (\<lambda>d. d) ''ab12'' example_objects (example_cache ''results/t1.zip'')")
  have del: "fst (safe_delete example_store (Some ''results/t1.zip'') example_objects)"
    by (simp add: safe_delete_def S3ObjectStore_def s3_delete_def memory_client_def)
  from invalidate_correct [OF example_cache_facts(5,2) eq] show ?thesis
    unfolding eq by (simp add: example_cache_facts del)
qed

lemma db_delete_one:
  assumes "distinct (map c_cache_key rows)" and "r \<in> set rows" and "P r"
  shows "filter (\<lambda>x. \<not> P x) (db_delete c_cache_key (c_cache_key r) rows) = filter (\<lambda>x. \<not> P x) rows
    \<and> Suc (length (db_delete c_cache_key (c_cache_key r) rows)) = length rows"
  using assms
proof (induction rows)
  case (Cons x rows)
  have absent: "db_delete c_cache_key (c_cache_key x) rows = rows"
    using Cons.prems(1) by (auto simp: db_delete_def image_iff intro!: filter_True)
  show ?case
  proof (cases "x = r")
    case True
    then show ?thesis using absent Cons.prems(3) by (simp add: db_delete_def)
  next
    case False
    then have "r \<in> set rows" "c_cache_key x \<noteq> c_cache_key r" using Cons.prems by auto
    then show ?thesis using Cons by (simp add: db_delete_def)
  qed
qed simp

lemma sweep_rows_kept:
  assumes "sweep_rows store (\<lambda>_ d. d) i rows m s d = (n, s', d')"
    and "distinct (map c_cache_key (db_cache d))" and "distinct (map c_cache_key rows)"
    and "\<And>r. r \<in> set rows \<Longrightarrow> P r \<and> r \<in> set (db_cache d)"
  shows "filter (\<lambda>r. \<not> P r) (db_cache d') = filter (\<lambda>r. \<not> P r) (db_cache d)
    \<and> n + length (db_cache d') = m + length (db_cache d)
    \<and> db_tasks d' = db_tasks d \<and> db_workers d' = db_workers d"
  using assms
proof (induction rows arbitrary: i m s d)
  case (Cons row rows)
  obtain b s1 where del: "safe_delete store (c_object_key row) s = (b, s1)"
    by (cases "safe_delete store (c_object_key row) s")
  have mem: "P row" "row \<in> set (db_cache d)" using Cons.prems(4) by simp_all
  have get: "get_cache_row (c_cache_key row) d = Some row"
    using cache_table.mem_get [OF Cons.prems(2) mem(2)] by (simp add: get_cache_row_def)
  show ?case
  proof (cases b)
    case False
    then have "sweep_rows store (\<lambda>_ d. d) (Suc i) rows m s1 d = (n, s', d')" using Cons.prems(1) del by simp
    then show ?thesis using Cons.IH Cons.prems by simp
  next
    case True
    let ?d = "d\<lparr>db_cache := db_delete c_cache_key (c_cache_key row) (db_cache d)\<rparr>"
    have step: "sweep_rows store (\<lambda>_ d. d) (Suc i) rows (Suc m) s1 ?d = (n, s', d')"
      using Cons.prems(1) del True get by (simp add: Let_def)
    have sub: "P r \<and> r \<in> set (db_cache ?d)" if "r \<in> set rows" for r
    proof -
      have "c_cache_key r \<noteq> c_cache_key row" using that Cons.prems(3) by (auto simp: image_iff)
      then show ?thesis using that Cons.prems(4) [of r] by (simp add: db_delete_def)
    qed
    have "distinct (map c_cache_key (db_cache ?d))" using db_delete_distinct [OF Cons.prems(2)] by simp
    from Cons.IH [OF step this _ sub] Cons.prems(3)
    have "filter (\<lambda>r. \<not> P r) (db_cache d') = filter (\<lambda>r. \<not> P r) (db_cache ?d)
      \<and> n + length (db_cache d') = Suc m + length (db_cache ?d) \<and> db_tasks d' = db_tasks ?d \<and> db_workers d' = db_workers ?d"
      by simp
    then show ?thesis using db_delete_one [where P = P, OF Cons.prems(2) mem(2,1)] by simp
  qed
qed simp

text \<open>What a sweep does to the objects: one \<open>safe_delete\<close> per row, whatever it answers. \<open>swept\<close> is what
  the last transaction of a row leaves of it: a row that is still in the generation that was
  selected is deleted, any other one stays.\<close>

definition delete_objects :: "'s store_ops \<Rightarrow> cache_entry list \<Rightarrow> 's \<Rightarrow> 's" where
  "delete_objects store rows s = foldl (\<lambda>s r. snd (safe_delete store (c_object_key r) s)) s rows"

abbreviation sweep_batch :: "time \<Rightarrow> db \<Rightarrow> cache_entry list" where
  "sweep_batch now d \<equiv> take 100 (filter (expired_clause now) (db_cache d))"

abbreviation before_key :: "string \<Rightarrow> cache_entry list \<Rightarrow> cache_entry list" where
  "before_key k rows \<equiv> takeWhile (\<lambda>r. c_cache_key r \<noteq> k) rows"

fun swept :: "int \<Rightarrow> cache_entry option \<Rightarrow> cache_entry option" where
  "swept g None = None"
| "swept g (Some row) = (if c_object_generation row = g then None else Some row)"

lemma sweep_rows_step:
  assumes "sweep_rows store interfere i (row # rows) m s d = (n, s', d')"
    and "safe_delete store (c_object_key row) s = (b, s1)"
  shows "\<exists>m2 d2. sweep_rows store interfere (Suc i) rows m2 s1 d2 = (n, s', d') \<and> m2 \<le> Suc m
    \<and> (\<forall>k. get_cache_row k d2 = (if \<not> b then get_cache_row k d
         else if k = c_cache_key row then swept (c_object_generation row) (get_cache_row k (interfere i d))
         else get_cache_row k (interfere i d)))"
proof (cases b)
  case False
  then have "sweep_rows store interfere (Suc i) rows m s1 d = (n, s', d')" using assms by simp
  then show ?thesis using False by (intro exI [of _ m] exI [of _ d]) simp
next
  case True
  let ?d1 = "interfere i d"
  let ?rm = "?d1\<lparr>db_cache := db_delete c_cache_key (c_cache_key row) (db_cache ?d1)\<rparr>"
  have rm: "get_cache_row k ?rm = (if k = c_cache_key row then None else get_cache_row k ?d1)" for k
    using cache_table.get_del [of k "c_cache_key row" "db_cache ?d1"] by (simp add: get_cache_row_def)
  show ?thesis
  proof (cases "get_cache_row (c_cache_key row) ?d1")
    case None
    then have "sweep_rows store interfere (Suc i) rows m s1 ?d1 = (n, s', d')" using assms True by (simp add: Let_def)
    then show ?thesis using True None by (intro exI [of _ m] exI [of _ ?d1]) simp
  next
    case (Some r)
    show ?thesis
    proof (cases "c_object_generation r = c_object_generation row")
      case same: True
      then have "sweep_rows store interfere (Suc i) rows (Suc m) s1 ?rm = (n, s', d')"
        using assms True Some by (simp add: Let_def)
      then show ?thesis using True Some same rm by (intro exI [of _ "Suc m"] exI [of _ ?rm]) simp
    next
      case False
      then have "sweep_rows store interfere (Suc i) rows m s1 ?d1 = (n, s', d')"
        using assms True Some by (simp add: Let_def)
      then show ?thesis using True Some False by (intro exI [of _ m] exI [of _ ?d1]) simp
    qed
  qed
qed

lemma sweep_rows_store:
  "sweep_rows store interfere i rows m s d = (n, s', d') \<Longrightarrow> s' = delete_objects store rows s \<and> n \<le> m + length rows"
proof (induction rows arbitrary: i m s d)
  case (Cons row rows)
  obtain b s1 where del: "safe_delete store (c_object_key row) s = (b, s1)"
    by (cases "safe_delete store (c_object_key row) s")
  obtain m2 d2 where "sweep_rows store interfere (Suc i) rows m2 s1 d2 = (n, s', d')" "m2 \<le> Suc m"
    using sweep_rows_step [OF Cons.prems del] by blast
  then show ?case using Cons.IH del by (fastforce simp: delete_objects_def)
qed (simp add: delete_objects_def)

lemma sweep_rows_other:
  assumes "sweep_rows store interfere i rows m s d = (n, s', d')" and "k \<notin> c_cache_key ` set rows"
    and "\<And>j d1. i \<le> j \<Longrightarrow> j < i + length rows \<Longrightarrow> get_cache_row k (interfere j d1) = get_cache_row k d1"
  shows "get_cache_row k d' = get_cache_row k d"
  using assms
proof (induction rows arbitrary: i m s d)
  case (Cons row rows)
  obtain b s1 where del: "safe_delete store (c_object_key row) s = (b, s1)"
    by (cases "safe_delete store (c_object_key row) s")
  obtain m2 d2 where step: "sweep_rows store interfere (Suc i) rows m2 s1 d2 = (n, s', d')"
    "\<forall>k. get_cache_row k d2 = (if \<not> b then get_cache_row k d
         else if k = c_cache_key row then swept (c_object_generation row) (get_cache_row k (interfere i d))
         else get_cache_row k (interfere i d))"
    using sweep_rows_step [OF Cons.prems(1) del] by blast
  have "get_cache_row k d2 = get_cache_row k d" using step(2) Cons.prems(2) Cons.prems(3) [of i d] by simp
  moreover have "get_cache_row k d' = get_cache_row k d2"
    by (rule Cons.IH [OF step(1)]) (use Cons.prems(2,3) in simp_all)
  ultimately show ?case by simp
qed simp

lemma sweep_rows_own:
  assumes "sweep_rows store interfere i rows m s d = (n, s', d')" and "distinct (map c_cache_key rows)"
    and "row \<in> set rows" and "c_cache_key row = k" and "get_cache_row k d = Some row"
    and "\<And>j d1. i \<le> j \<Longrightarrow> j < i + length rows \<Longrightarrow> get_cache_row k (interfere j d1)
      = (if j = i + length (before_key k rows) then f (get_cache_row k d1) else get_cache_row k d1)"
  shows "get_cache_row k d' = (if fst (safe_delete store (c_object_key row) (delete_objects store (before_key k rows) s))
    then swept (c_object_generation row) (f (Some row)) else Some row)"
  using assms
proof (induction rows arbitrary: i m s d)
  case (Cons x rows)
  obtain b s1 where del: "safe_delete store (c_object_key x) s = (b, s1)"
    by (cases "safe_delete store (c_object_key x) s")
  obtain m2 d2 where step: "sweep_rows store interfere (Suc i) rows m2 s1 d2 = (n, s', d')"
    "\<forall>k. get_cache_row k d2 = (if \<not> b then get_cache_row k d
         else if k = c_cache_key x then swept (c_object_generation x) (get_cache_row k (interfere i d))
         else get_cache_row k (interfere i d))"
    using sweep_rows_step [OF Cons.prems(1) del] by blast
  have dist: "distinct (map c_cache_key rows)" using Cons.prems(2) by simp
  show ?case
  proof (cases "x = row")
    case True
    then have bk: "before_key k (x # rows) = []" using Cons.prems(4) by simp
    have "get_cache_row k (interfere i d) = f (Some row)" using Cons.prems(6) [of i d] Cons.prems(5) bk by simp
    then have d2: "get_cache_row k d2 = (if b then swept (c_object_generation row) (f (Some row)) else Some row)"
      using step(2) Cons.prems(4,5) True by simp
    have "k \<notin> c_cache_key ` set rows" using Cons.prems(2,4) True by auto
    then have "get_cache_row k d' = get_cache_row k d2"
      by (rule sweep_rows_other [OF step(1)]) (use Cons.prems(6) bk in simp)
    then show ?thesis unfolding d2 bk using del True by (simp add: delete_objects_def)
  next
    case False
    then have mem: "row \<in> set rows" using Cons.prems(3) by simp
    then have neq: "c_cache_key x \<noteq> k" using Cons.prems(2,4) by (auto simp: image_iff)
    have d2: "get_cache_row k d2 = Some row"
      using step(2) Cons.prems(6) [of i d] Cons.prems(5) neq by simp
    have "get_cache_row k (interfere j d1) = (if j = Suc i + length (before_key k rows)
        then f (get_cache_row k d1) else get_cache_row k d1)" if "Suc i \<le> j" "j < Suc i + length rows" for j d1
      using Cons.prems(6) [of j d1] that neq by simp
    from Cons.IH [OF step(1) dist mem Cons.prems(4) d2 this] show ?thesis
      using neq del by (simp add: delete_objects_def)
  qed
qed simp

lemma delete_objects_frame:
  assumes "object_store store contents" and "Some obj \<notin> c_object_key ` set rows"
  shows "contents (delete_objects store rows s) obj = contents s obj"
  using assms(2)
proof (induction rows arbitrary: s)
  case (Cons row rows)
  then have "contents (snd (safe_delete store (c_object_key row) s)) obj = contents s obj"
    using object_store.safe_delete_frame [OF assms(1), of "c_object_key row" s _ _ obj] by (metis image_eqI list.set_intros(1) prod.collapse)
  with Cons show ?case by (simp add: delete_objects_def)
qed (simp add: delete_objects_def)

lemma delete_objects_absent:
  assumes "object_store store contents" and "contents s obj = None"
  shows "contents (delete_objects store rows s) obj = None"
  using assms(2)
proof (induction rows arbitrary: s)
  case (Cons row rows)
  then have "contents (snd (safe_delete store (c_object_key row) s)) obj = None"
    using object_store.safe_delete_absent [OF assms(1), of "c_object_key row" s _ _ obj] by (metis prod.collapse)
  with Cons.IH show ?case by (simp add: delete_objects_def)
qed (simp add: delete_objects_def)

lemma delete_objects_gone:
  assumes "object_store store contents" and "find (\<lambda>r. c_cache_key r = k) rows = Some row"
    and "fst (safe_delete store (c_object_key row) (delete_objects store (before_key k rows) s))"
    and "truthy (c_object_key row)"
  shows "contents (delete_objects store rows s) (the (c_object_key row)) = None"
  using assms(2,3)
proof (induction rows arbitrary: s)
  case (Cons x rows)
  obtain b s1 where del: "safe_delete store (c_object_key x) s = (b, s1)"
    by (cases "safe_delete store (c_object_key x) s")
  show ?case
  proof (cases "c_cache_key x = k")
    case True
    then have "x = row" "b" using Cons.prems del by (simp_all add: delete_objects_def)
    then have "contents s1 (the (c_object_key row)) = None"
      using object_store.safe_delete_deletes [OF assms(1) _ assms(4), of s s1] del by simp
    then show ?thesis using delete_objects_absent [OF assms(1)] del by (simp add: delete_objects_def)
  next
    case False
    then show ?thesis using Cons del by (simp add: delete_objects_def)
  qed
qed simp

lemma find_before_key: "find (\<lambda>r. c_cache_key r = k) rows = Some row \<Longrightarrow> row \<in> set rows \<and> c_cache_key row = k"
  by (auto simp: find_Some_iff)

text \<open>C35: The sweeper removes exactly the expired entries it selected (100 at most) whose object it could
  delete and that are still in the generation it selected, whatever other processes do to the
  entries meanwhile. Here \<open>f\<close> is what they do to the entry \<open>k\<close> between its selection and the
  transaction that sweeps it, and the rest of \<open>interfere\<close> is arbitrary: an entry that is not of the
  batch (so any that is not expired) stays as it is; an entry of the batch whose object cannot be
  deleted stays; any other entry of the batch loses its object, and its row is deleted unless \<open>f\<close>
  removed it or gave it another generation, as a refresh does, in which case it survives as \<open>f\<close> left
  it. No object but those of the batch is touched, and at most the batch is counted. When nothing
  interferes the count is the number of rows removed, and the other entries, the tasks and the
  workers are as before.\<close>

theorem sweep_expired_correct:
  assumes "object_store store contents" and "db_wf d"
    and "sweep_expired store interfere now s d = (n, s', d')"
    and "\<And>i d1. get_cache_row k (interfere i d1) = (if i = length (before_key k (sweep_batch now d))
          then f (get_cache_row k d1) else get_cache_row k d1)"
  shows "(case find (\<lambda>r. c_cache_key r = k) (sweep_batch now d) of
        None \<Rightarrow> get_cache_row k d' = get_cache_row k d
      | Some row \<Rightarrow>
          if fst (safe_delete store (c_object_key row) (delete_objects store (before_key k (sweep_batch now d)) s))
          then get_cache_row k d' = swept (c_object_generation row) (f (Some row))
            \<and> (truthy (c_object_key row) \<longrightarrow> contents s' (the (c_object_key row)) = None)
          else get_cache_row k d' = Some row)
    \<and> (\<forall>obj. Some obj \<notin> c_object_key ` set (sweep_batch now d) \<longrightarrow> contents s' obj = contents s obj)
    \<and> n \<le> length (sweep_batch now d)
    \<and> ((\<forall>i d1. interfere i d1 = d1) \<longrightarrow> n + length (db_cache d') = length (db_cache d)
        \<and> filter (\<lambda>r. \<not> expired_clause now r) (db_cache d') = filter (\<lambda>r. \<not> expired_clause now r) (db_cache d)
        \<and> db_tasks d' = db_tasks d \<and> db_workers d' = db_workers d)"
proof (intro conjI impI allI)
  let ?rows = "sweep_batch now d"
  note D = assms(3) [unfolded sweep_expired_def]
  have dist: "distinct (map c_cache_key (db_cache d))" using assms(2) by (simp add: db_wf_def)
  then have "distinct (map c_cache_key (filter (expired_clause now) (db_cache d)))"
    by (simp add: distinct_map inj_on_def)
  then have drows: "distinct (map c_cache_key ?rows)" by (simp add: take_map [symmetric])
  have mem: "expired_clause now r \<and> r \<in> set (db_cache d)" if "r \<in> set ?rows" for r
    using in_set_takeD [OF that] by simp
  have s': "s' = delete_objects store ?rows s" and "n \<le> 0 + length ?rows" using sweep_rows_store [OF D] by auto
  then show "n \<le> length ?rows" by simp
  show "contents s' obj = contents s obj" if "Some obj \<notin> c_object_key ` set ?rows" for obj
    unfolding s' by (rule delete_objects_frame [OF assms(1) that])
  show "case find (\<lambda>r. c_cache_key r = k) ?rows of
        None \<Rightarrow> get_cache_row k d' = get_cache_row k d
      | Some row \<Rightarrow>
          if fst (safe_delete store (c_object_key row) (delete_objects store (before_key k ?rows) s))
          then get_cache_row k d' = swept (c_object_generation row) (f (Some row))
            \<and> (truthy (c_object_key row) \<longrightarrow> contents s' (the (c_object_key row)) = None)
          else get_cache_row k d' = Some row"
  proof (cases "find (\<lambda>r. c_cache_key r = k) ?rows")
    case None
    then have out: "k \<notin> c_cache_key ` set ?rows" by (auto simp: find_None_iff)
    then have "length (before_key k ?rows) = length ?rows"
      by (intro arg_cong [where f = length]) (auto simp: takeWhile_eq_all_conv)
    then have "get_cache_row k (interfere j d1) = get_cache_row k d1" if "j < 0 + length ?rows" for j d1
      unfolding assms(4) using that by (simp add: min_def)
    then have "get_cache_row k d' = get_cache_row k d" by (rule sweep_rows_other [OF D out])
    then show ?thesis using None by simp
  next
    case (Some row)
    then have row: "row \<in> set ?rows" "c_cache_key row = k" using find_before_key by blast+
    have "get_cache_row k d = Some row"
      using cache_table.mem_get [OF dist, of row] mem [OF row(1)] row(2) by (simp add: get_cache_row_def)
    then have "get_cache_row k d' = (if fst (safe_delete store (c_object_key row) (delete_objects store (before_key k ?rows) s))
        then swept (c_object_generation row) (f (Some row)) else Some row)"
      by (intro sweep_rows_own [OF D drows row]) (simp_all add: assms(4))
    then show ?thesis using delete_objects_gone [OF assms(1) Some, of s] unfolding s' Some by simp
  qed
  assume "\<forall>i d1. interfere i d1 = d1"
  then have "interfere = (\<lambda>_ d. d)" by (intro ext) simp
  then have "filter (\<lambda>r. \<not> expired_clause now r) (db_cache d') = filter (\<lambda>r. \<not> expired_clause now r) (db_cache d)
    \<and> n + length (db_cache d') = 0 + length (db_cache d)
    \<and> db_tasks d' = db_tasks d \<and> db_workers d' = db_workers d"
    by (intro sweep_rows_kept [OF _ dist drows mem, of store 0 0 s n s' d']) (use D in simp_all)
  then show "n + length (db_cache d') = length (db_cache d)"
    "filter (\<lambda>r. \<not> expired_clause now r) (db_cache d') = filter (\<lambda>r. \<not> expired_clause now r) (db_cache d)"
    "db_tasks d' = db_tasks d" "db_workers d' = db_workers d" by simp_all
qed

text \<open>The expired entry and its object go; an entry refreshed at that moment keeps its row.\<close>

theorem sweep_expired_correct_witness:
  "(\<exists>n s' d'. sweep_expired example_store (\<lambda>_ d. d) 2000 example_objects (example_cache ''results/t1.zip'') = (n, s', d')
      \<and> n = 1 \<and> get_cache_row ''ab12'' d' = None \<and> s' (''b'', ''results/t1.zip'') = None)
   \<and> (\<exists>n s' d'. sweep_expired example_store
        (\<lambda>i. if i = 0 then upd_cache ''ab12'' (reset_row default_settings 2000 None) else id) 2000
        example_objects (example_cache ''results/t1.zip'') = (n, s', d')
      \<and> get_cache_row ''ab12'' d' = Some (reset_row default_settings 2000 None (example_entry ''results/t1.zip'')))"
proof -
  let ?d = "example_cache ''results/t1.zip''" and ?e = "example_entry ''results/t1.zip''"
  let ?reset = "reset_row default_settings 2000 None"
  let ?refresh = "\<lambda>i. if i = (0::nat) then upd_cache ''ab12'' ?reset else id"
  have batch: "sweep_batch 2000 ?d = [?e]" "c_cache_key ?e = ''ab12''"
    by (simp_all add: example_cache_def example_entry_def expired_clause_def)
  have del: "fst (safe_delete example_store (Some ''results/t1.zip'') example_objects)"
    by (simp add: safe_delete_def S3ObjectStore_def s3_delete_def memory_client_def)
  obtain n s' d' where eq: "sweep_expired example_store (\<lambda>_ d. d) 2000 example_objects ?d = (n, s', d')"
    by (cases "sweep_expired example_store (\<lambda>_ d. d) 2000 example_objects ?d")
  obtain n2 s2 d2 where eq2: "sweep_expired example_store ?refresh 2000 example_objects ?d = (n2, s2, d2)"
    by (cases "sweep_expired example_store ?refresh 2000 example_objects ?d")
  from sweep_expired_correct [OF example_cache_facts(5,2) eq, of "''ab12''" "\<lambda>r. r"]
  have "get_cache_row ''ab12'' d' = None \<and> s' (''b'', ''results/t1.zip'') = None"
    by (simp add: batch del example_cache_facts delete_objects_def)
  moreover have "n = 1"
    using eq del by (simp add: sweep_expired_def batch Let_def example_cache_facts split: prod.splits)
  moreover have "get_cache_row ''ab12'' (?refresh i d1) = (if i = length (before_key ''ab12'' (sweep_batch 2000 ?d))
      then map_option ?reset (get_cache_row ''ab12'' d1) else get_cache_row ''ab12'' d1)" for i d1
    using batch by (simp add: get_cache_row_upd)
  from sweep_expired_correct [OF example_cache_facts(5,2) eq2 this]
  have "get_cache_row ''ab12'' d2 = Some (?reset ?e)"
    by (simp add: batch del example_cache_facts delete_objects_def reset_row_cleared)
  ultimately show ?thesis unfolding eq eq2 by blast
qed

lemma show_nat_no_newline: "CHR 10 \<notin> set (show_nat n)"
  using show_nat_digits [of n] by (auto simp: list_all_iff is_digit_def)

lemma hex_digit_no_newline: "n < 16 \<Longrightarrow> hex_digit n \<noteq> CHR 10"
  using hex_value_digit [of n] by (auto simp: hex_value_def)

lemma escape_no_newline: "CHR 10 \<notin> set (escape_char c)"
proof -
  have "(of_char c :: nat) div 16 < 16" using of_char_bound [of c] by (simp add: div_less_iff_less_mult)
  then show ?thesis
    using hex_digit_no_newline [of "(of_char c :: nat) div 16"] hex_digit_no_newline [of "(of_char c :: nat) mod 16"]
    by (auto simp: escape_char_def Let_def)
qed

lemma join_no_newline: "CHR 10 \<notin> set sep \<Longrightarrow> (\<And>x. x \<in> set xs \<Longrightarrow> CHR 10 \<notin> set x) \<Longrightarrow> CHR 10 \<notin> set (join sep xs)"
  by (induction sep xs rule: join.induct) auto

lemma dumps_no_newline: "style sep kv \<Longrightarrow> CHR 10 \<notin> set (json_dumps sep kv v)"
proof (induction v)
  case (JObj ps)
  then have "CHR 10 \<notin> set sep" "CHR 10 \<notin> set kv" by (auto simp: style_def)
  moreover have "CHR 10 \<notin> set (join sep (map (\<lambda>(k, v). quote k @ kv @ json_dumps sep kv v) ps))"
    using JObj calculation by (intro join_no_newline) (auto simp: quote_def escape_no_newline)
  ultimately show ?case by simp
next
  case (JList xs)
  then have "CHR 10 \<notin> set sep" by (auto simp: style_def)
  then have "CHR 10 \<notin> set (join sep (map (json_dumps sep kv) xs))"
    using JList by (intro join_no_newline) auto
  then show ?case by simp
qed (auto simp: quote_def escape_no_newline show_int_def show_nat_no_newline)

lemma newline_split:
  "a @ CHR 10 # x = b @ CHR 10 # y \<Longrightarrow> CHR 10 \<notin> set a \<Longrightarrow> CHR 10 \<notin> set b \<Longrightarrow> a = b \<and> x = y"
  by (induction a arbitrary: b; case_tac b) auto

lemma option_json_inj: "option_json u = option_json v \<Longrightarrow> u = v"
  by (cases u; cases v) (auto dest: map_injective simp: inj_def)

lemma sorted_options_eq:
  assumes "distinct (map fst opts)" "distinct (map fst opts')"
    and "sort_key fst (map (\<lambda>(k, v). (k, option_json v)) opts) = sort_key fst (map (\<lambda>(k, v). (k, option_json v)) opts')"
  shows "map_of opts = map_of opts'"
proof -
  let ?j = "\<lambda>(k, v). (k, option_json v)"
  have "?j ` set opts = ?j ` set opts'" using arg_cong [OF assms(3), of set] by simp
  moreover have "inj ?j" by (auto simp: inj_def dest: option_json_inj)
  ultimately have "set opts = set opts'" using inj_image_eq_iff by blast
  then show ?thesis using assms(1,2) by (simp add: map_of_inject_set)
qed

text \<open>C36: The text that is hashed determines what it describes: two requests have the same key material
  exactly when they have the same files (names and digests, in order) and the same options. So, but
  for a collision of the digest, no request is served a result of another.\<close>

theorem key_material_injective:
  assumes "distinct (map fst opts)" and "distinct (map fst opts')"
    and "key_material records opts = key_material records' opts'"
  shows "records = records' \<and> map_of opts = map_of opts'"
proof -
  let ?o = "\<lambda>opts. JObj (sort_key fst (map (\<lambda>(k, v). (k, option_json v)) opts))"
  have canon: "canonical_options o1 = json_dumps '', '' '': '' (?o o1)" for o1
    by (simp add: canonical_options_def CACHE_IGNORED_FIELDS_def)
  have st: "style '', '' '': ''" "style '','' '':''" by (simp_all add: style_def)
  have "json_dumps '','' '':'' (records_json records) @ CHR 10 # canonical_options opts
      = json_dumps '','' '':'' (records_json records') @ CHR 10 # canonical_options opts'"
    using assms(3) utf8_roundtrip by (metis (no_types, lifting) append_Cons append_Nil key_material_def option.inject)
  then have eqs: "json_dumps '','' '':'' (records_json records) = json_dumps '','' '':'' (records_json records')"
    "canonical_options opts = canonical_options opts'"
    using newline_split dumps_no_newline [OF st(2)] by blast+
  have wf: "json_wf (records_json r)" for r by (auto simp: records_json_def list_all_iff)
  have wfo: "json_wf (?o o1)" if "distinct (map fst o1)" for o1
  proof -
    have "distinct (map fst (map (\<lambda>(k, v). (k, option_json v)) o1))" using that by (simp add: case_prod_unfold comp_def)
    then have "distinct (map fst (sort_key fst (map (\<lambda>(k, v). (k, option_json v)) o1)))"
      by (metis distinct_sort distinct_map set_sort)
    moreover have "json_wf (option_json v)" for v by (cases v) (auto simp: list_all_iff)
    ultimately show ?thesis by (auto simp: list_all_iff)
  qed
  have "records_json records = records_json records'" using json_dumps_inj [OF st(2) wf wf eqs(1)] .
  then have "records = records'"
    unfolding records_json_def by (auto dest!: map_injective simp: inj_def)
  moreover have "?o opts = ?o opts'"
    using json_dumps_inj [OF st(1) wfo [OF assms(1)] wfo [OF assms(2)]] eqs(2) by (simp add: canon)
  then have "map_of opts = map_of opts'" using sorted_options_eq [OF assms(1,2)] by simp
  ultimately show ?thesis ..
qed

theorem key_material_injective_witness:
  "key_material [(''a'', ''1'')] [(''backend'', OStr ''x'')] \<noteq> key_material [(''a'', ''2'')] [(''backend'', OStr ''x'')]"
  using key_material_injective [of "[(''backend'', OStr ''x'')]" "[(''backend'', OStr ''x'')]" "[(''a'', ''1'')]" "[(''a'', ''2'')]"]
  by auto

text \<open>Options that differ only in the order of a repeated field.\<close>

fun same_value :: "opt_value \<Rightarrow> opt_value \<Rightarrow> bool" where
  "same_value (OStr a) (OStr b) = (a = b)"
| "same_value (OList xs) (OList ys) = (mset xs = mset ys)"
| "same_value _ _ = False"

definition same_entry :: "string \<times> opt_value \<Rightarrow> string \<times> opt_value \<Rightarrow> bool" where
  "same_entry p q \<longleftrightarrow> fst p = fst q
     \<and> (if fst p \<in> REPEATED_OPTION_FIELDS then same_value (snd p) (snd q) else snd p = snd q)"

abbreviation same_options :: "options \<Rightarrow> options \<Rightarrow> bool" where
  "same_options a b \<equiv> list_all2 same_entry a b"

lemma same_value_refl [simp]: "same_value v v"
  by (cases v) auto

lemma same_entry_refl [simp]: "same_entry p p"
  by (simp add: same_entry_def)

lemma dict_set_same:
  assumes "same_options a b" and "same_entry (k, v) (k, w)"
  shows "same_options (dict_set k v a) (dict_set k w b)"
  using assms(1)
proof (induction rule: list_all2_induct)
  case (Cons p xs q ys)
  have "fst p = fst q" using Cons(1) by (simp add: same_entry_def)
  then show ?case using Cons assms(2) by (cases p; cases q) auto
qed (simp add: assms(2))

lemma map_of_same:
  assumes "same_options a b" and "k \<in> REPEATED_OPTION_FIELDS"
  shows "same_value (append_value v (map_of a k)) (append_value v (map_of b k))"
  using assms(1)
proof (induction rule: list_all2_induct)
  case (Cons p xs q ys)
  have eq: "fst p = fst q" using Cons(1) by (simp add: same_entry_def)
  show ?case
  proof (cases "fst p = k")
    case True
    then have "same_value (snd p) (snd q)" using Cons(1) assms(2) by (simp add: same_entry_def)
    then show ?thesis using True eq by (cases p; cases q; cases "snd p"; cases "snd q") auto
  next
    case False
    then show ?thesis using Cons(3) eq by (cases p; cases q) simp
  qed
qed simp

lemma foldl_same: "same_options a b \<Longrightarrow> same_options (foldl add_option a form) (foldl add_option b form)"
proof (induction form arbitrary: a b)
  case (Cons f form)
  have "same_options (add_option a f) (add_option b f)"
  proof (cases "fst f \<in> REPEATED_OPTION_FIELDS")
    case True
    then have "same_entry (fst f, append_value (snd f) (map_of a (fst f))) (fst f, append_value (snd f) (map_of b (fst f)))"
      using map_of_same [OF Cons.prems] by (simp add: same_entry_def)
    from dict_set_same [OF Cons.prems this] True show ?thesis
      by (cases f) (simp add: add_option_def CACHE_IGNORED_FIELDS_def)
  next
    case False
    with dict_set_same [OF Cons.prems same_entry_refl [of "(fst f, OStr (snd f))"]] show ?thesis
      by (cases f) (simp add: add_option_def CACHE_IGNORED_FIELDS_def)
  qed
  then show ?case using Cons.IH by simp
qed simp

lemma sort_repeated_entry:
  assumes "same_entry p q" shows "sort_repeated p = sort_repeated q"
proof -
  obtain k v w where p: "p = (k, v)" and q: "q = (k, w)"
    using assms by (cases p; cases q) (simp add: same_entry_def)
  show ?thesis
  proof (cases "k \<in> REPEATED_OPTION_FIELDS")
    case True
    then have "same_value v w" using assms p q by (simp add: same_entry_def)
    then show ?thesis
    proof (cases "(v, w)" rule: same_value.cases)
      case (2 xs ys)
      then have "mset xs = mset ys" using \<open>same_value v w\<close> by simp
      then have "sort xs = sort ys" by (metis sorted_list_of_multiset_mset)
      with 2 True show ?thesis by (simp add: p q sort_repeated_def)
    qed (simp_all add: p q)
  next
    case False
    then show ?thesis using assms p q by (simp add: same_entry_def)
  qed
qed

lemma sort_repeated_same: "same_options a b \<Longrightarrow> map sort_repeated a = map sort_repeated b"
  by (induction rule: list_all2_induct) (simp_all add: sort_repeated_entry)

text \<open>The order in which a client lists the languages does not matter: exchanging two neighbouring
  values of the repeated field anywhere in the form leaves the cache options, and so the cache key,
  the same.\<close>

lemma cache_options_language_order:
  "build_cache_options_from_payload (xs @ (''lang_list'', a) # (''lang_list'', b) # ys)
    = build_cache_options_from_payload (xs @ (''lang_list'', b) # (''lang_list'', a) # ys)"
proof -
  let ?o = "foldl add_option [] xs"
  have step: "add_option (add_option o1 (''lang_list'', u)) (''lang_list'', v)
      = dict_set ''lang_list'' (append_value v (Some (append_value u (map_of o1 ''lang_list'')))) o1" for o1 u v
  proof -
    have "dict_set k y (dict_set k x d) = dict_set k y d" for k :: string and x y :: opt_value and d
      by (induction k x d rule: dict_set.induct) auto
    then show ?thesis by (simp add: add_option_def CACHE_IGNORED_FIELDS_def REPEATED_OPTION_FIELDS_def dict_set_lookup)
  qed
  have "same_options ?o ?o" by (simp add: list_all2_refl)
  then have "same_options (add_option (add_option ?o (''lang_list'', a)) (''lang_list'', b))
      (add_option (add_option ?o (''lang_list'', b)) (''lang_list'', a))"
    unfolding step
    by (rule dict_set_same)
      (cases "map_of ?o ''lang_list''"; cases "the (map_of ?o ''lang_list'')";
       simp add: REPEATED_OPTION_FIELDS_def same_entry_def)
  from sort_repeated_same [OF foldl_same [OF this, of ys]] show ?thesis
    by (simp add: build_cache_options_from_payload_def)
qed

end
