(* ===== verification/Task_Repo.thy ===== *)
theory Task_Repo
  imports Worker_Repo Storage
begin

text \<open>
  \<^verbatim>\<open>scheduler/task_repository.py\<close>: the task queue, dispatch, upstream synchronisation, result
  persistence and retention. A repository operation is one database transaction, so it is a function
  on the database; the dispatch loop and the synchronisation loop are compositions of them, with
  the answers of the outside world as arguments: \<open>dispatch_env\<close> holds, per attempt, the clock, the
  rows other transactions hold, the payload rebuilt from object storage and the worker's answer to a
  submission. Temporary files, log lines and metrics are not state of the model.
\<close>

section \<open>Definitions\<close>

definition HEALTH_BATCH :: nat where "HEALTH_BATCH = 32"
definition DISPATCH_CLAIM_TIMEOUT_SECONDS :: int where "DISPATCH_CLAIM_TIMEOUT_SECONDS = 120"
definition POLL_RETRY_DELAY_SECONDS :: int where "POLL_RETRY_DELAY_SECONDS = 30"

subsection \<open>The repository object\<close>

text \<open>The gateway builds the repository without store, client and workers; the operations that need one
  of them ask for it first. The later definitions take what they need as arguments.\<close>

record ('s, 'c) task_repository =
  tr_settings :: gateway_settings
  tr_store :: "'s store_ops option"
  tr_client :: "'c option"
  tr_workers :: bool
  tr_dispatch_deferred_since :: "time option"

definition TaskRepository :: "gateway_settings \<Rightarrow> 's store_ops option \<Rightarrow> 'c option \<Rightarrow> bool \<Rightarrow> ('s, 'c) task_repository" where
  "TaskRepository cfg store client workers =
     \<lparr>tr_settings = cfg, tr_store = store, tr_client = client, tr_workers = workers, tr_dispatch_deferred_since = None\<rparr>"

definition for_gateway :: "gateway_settings \<Rightarrow> ('s, 'c) task_repository" where
  "for_gateway cfg = TaskRepository cfg None None False"

definition repo_require_store :: "('s, 'c) task_repository \<Rightarrow> exc + 's store_ops" where
  "repo_require_store r = (case tr_store r of
     None \<Rightarrow> Inl (OtherException None ''TaskRepository.store is required for this operation'') | Some s \<Rightarrow> Inr s)"

definition repo_require_client :: "('s, 'c) task_repository \<Rightarrow> exc + 'c" where
  "repo_require_client r = (case tr_client r of
     None \<Rightarrow> Inl (OtherException None ''TaskRepository.client is required for this operation'') | Some c \<Rightarrow> Inr c)"

definition repo_require_workers :: "('s, 'c) task_repository \<Rightarrow> exc + unit" where
  "repo_require_workers r =
    (if tr_workers r then Inr () else Inl (OtherException None ''TaskRepository.workers is required for this operation''))"

subsection \<open>Creation and bookkeeping\<close>

definition create_queued_task ::
    "time \<Rightarrow> string \<Rightarrow> string list \<Rightarrow> string \<Rightarrow> string \<Rightarrow> (string \<times> opt_value) list \<Rightarrow> string option
      \<Rightarrow> string \<Rightarrow> string option \<Rightarrow> db \<Rightarrow> db_error + task \<times> db" where
  "create_queued_task now tid file_names backend parse_method options pkey source cache_key d =
    (let row = (new_task tid now)\<lparr>t_backend := backend, t_parse_method := parse_method,
           t_file_names := file_names, t_status := TASK_QUEUED, t_source := source,
           t_payload_key := pkey,
           t_options_blob := Some (dict_set ''file_names'' (OList file_names) options),
           t_cache_key := cache_key\<rparr>
     in case db_insert t_task_id row (db_tasks d) of
          Inl e \<Rightarrow> Inl e
        | Inr rows \<Rightarrow> Inr (row, d\<lparr>db_tasks := rows\<rparr>))"

definition clear_cache_key :: "time \<Rightarrow> string \<Rightarrow> db \<Rightarrow> db" where
  "clear_cache_key now tid d = upd_task now tid (\<lambda>r. r\<lparr>t_cache_key := None\<rparr>) d"

definition sla_expired :: "time \<Rightarrow> int \<Rightarrow> task \<Rightarrow> bool" where
  "sla_expired now sla_seconds t \<longleftrightarrow>
     t_status t \<in> {TASK_PROCESSING, TASK_DISPATCHING, TASK_STORING_RESULT}
     \<and> t_client_expired_at t = None
     \<and> (case t_dispatch_started_at t of None \<Rightarrow> False | Some b \<Rightarrow> b < now - seconds sla_seconds)"

definition expire_client_sla_tasks :: "time \<Rightarrow> int \<Rightarrow> db \<Rightarrow> nat \<times> db" where
  "expire_client_sla_tasks now sla_seconds d =
    (db_count (sla_expired now sla_seconds) (db_tasks d),
     d\<lparr>db_tasks := db_update_where (sla_expired now sla_seconds)
         (save_task now (\<lambda>r. r\<lparr>t_client_expired_at := Some now\<rparr>)) (db_tasks d)\<rparr>)"

definition complete_with_result ::
    "time \<Rightarrow> string \<Rightarrow> string \<Rightarrow> string \<Rightarrow> db \<Rightarrow> exc + string option \<times> db" where
  "complete_with_result now tid result_key_value result_format d =
    (case get_task tid d of
       None \<Rightarrow> Inl (KeyError tid)
     | Some row \<Rightarrow> Inr (t_cache_key row,
         upd_task now tid (\<lambda>r. r\<lparr>t_result_key := Some result_key_value,
           t_result_format := Some result_format, t_status := TASK_COMPLETED,
           t_completed_at := (if t_completed_at r = None then Some now else t_completed_at r)\<rparr>) d))"

definition stale_claim :: "time \<Rightarrow> task \<Rightarrow> bool" where
  "stale_claim now t \<longleftrightarrow> t_status t = TASK_DISPATCHING \<and> t_upstream_task_id t = None
     \<and> (case t_dispatch_started_at t of None \<Rightarrow> False
        | Some b \<Rightarrow> b < now - seconds DISPATCH_CLAIM_TIMEOUT_SECONDS)"

text \<open>The claim is given up: used by stale-claim recovery and by a failed reassignment.\<close>

definition requeued :: "task \<Rightarrow> task" where
  "requeued r = r\<lparr>t_status := TASK_QUEUED, t_dispatch_started_at := None, t_worker_id := None\<rparr>"

definition recover_stale_dispatch_claims :: "time \<Rightarrow> db \<Rightarrow> nat \<times> db" where
  "recover_stale_dispatch_claims now d =
    (db_count (stale_claim now) (db_tasks d),
     d\<lparr>db_tasks := db_update_where (stale_claim now) (save_task now requeued) (db_tasks d)\<rparr>)"

subsection \<open>Claiming and submitting\<close>

definition queued_clause :: "task \<Rightarrow> bool" where
  "queued_clause t \<longleftrightarrow> t_status t = TASK_QUEUED \<and> t_upstream_task_id t = None \<and> t_upstream_base_url t = None"

definition dispatching_on :: "time \<Rightarrow> string \<Rightarrow> task \<Rightarrow> task" where
  "dispatching_on now wid r = r\<lparr>t_status := TASK_DISPATCHING, t_dispatch_started_at := Some now,
     t_worker_id := Some wid\<rparr>"

text \<open>The repository's own state is the instant since which dispatch has been deferred.\<close>

definition claim_next_dispatch ::
    "gateway_settings \<Rightarrow> time \<Rightarrow> (string \<Rightarrow> bool) \<Rightarrow> (string \<Rightarrow> bool) \<Rightarrow> time option \<Rightarrow> db
      \<Rightarrow> (task \<times> worker) option \<times> time option \<times> db" where
  "claim_next_dispatch cfg now locked_tasks locked_workers deferred_since d =
    (case db_first (\<lambda>t. queued_clause t \<and> \<not> locked_tasks (t_task_id t)) t_created_at (db_tasks d) of
       None \<Rightarrow> (None, deferred_since, d)
     | Some candidate \<Rightarrow>
         (case acquire_dispatchable cfg now locked_workers {} d of
            None \<Rightarrow> (None, (case deferred_since of None \<Rightarrow> Some now | Some t \<Rightarrow> Some t), d)
          | Some (w, d') \<Rightarrow>
              (Some (save_task now (dispatching_on now (w_id w)) candidate, w), None,
               upd_task now (t_task_id candidate) (dispatching_on now (w_id w)) d')))"

definition mark_failed :: "time \<Rightarrow> string \<Rightarrow> string \<Rightarrow> db \<Rightarrow> db" where
  "mark_failed now tid err d =
     upd_task now tid (\<lambda>r. r\<lparr>t_status := TASK_FAILED, t_error := Some err, t_completed_at := Some now\<rparr>) d"

definition processing_row :: "time \<Rightarrow> string \<Rightarrow> string \<Rightarrow> string \<Rightarrow> string \<Rightarrow> task \<Rightarrow> task" where
  "processing_row now wid upstream_task_id upstream_base_url upstream_status r =
    (let r = r\<lparr>t_worker_id := Some wid, t_upstream_task_id := Some upstream_task_id,
               t_upstream_base_url := Some upstream_base_url\<rparr>;
         normalized = normalize_upstream_status (Some upstream_status) TASK_PROCESSING;
         r = (if normalized = TASK_COMPLETED then r\<lparr>t_status := TASK_STORING_RESULT\<rparr>
              else if normalized \<in> TASK_STATUSES_TERMINAL
              then r\<lparr>t_status := normalized, t_completed_at := Some now\<rparr>
              else r\<lparr>t_status := normalized\<rparr>)
     in if t_started_at r = None then r\<lparr>t_started_at := Some now\<rparr> else r)"

definition mark_processing :: "time \<Rightarrow> string \<Rightarrow> string \<Rightarrow> string \<Rightarrow> string \<Rightarrow> string \<Rightarrow> db \<Rightarrow> db" where
  "mark_processing now tid wid upstream_task_id upstream_base_url upstream_status d =
     upd_task now tid (processing_row now wid upstream_task_id upstream_base_url upstream_status) d"

definition reassign_dispatch_worker ::
    "gateway_settings \<Rightarrow> time \<Rightarrow> (string \<Rightarrow> bool) \<Rightarrow> string \<Rightarrow> string set \<Rightarrow> db \<Rightarrow> worker option \<times> db" where
  "reassign_dispatch_worker cfg now locked tid excluded_ids d =
    (case get_task tid d of
       None \<Rightarrow> (None, d)
     | Some row \<Rightarrow>
         if t_status row \<noteq> TASK_DISPATCHING then (None, d)
         else (case acquire_dispatchable cfg now locked excluded_ids d of
                 None \<Rightarrow> (None, upd_task now tid requeued d)
               | Some (w, d') \<Rightarrow> (Some w, upd_task now tid (\<lambda>r. r\<lparr>t_worker_id := Some (w_id w)\<rparr>) d')))"

text \<open>\<open>excluded\<close> is the set the loop mutates; the enlarged set is the next iteration's argument.\<close>

definition reassign_after_exclusion ::
    "gateway_settings \<Rightarrow> time \<Rightarrow> (string \<Rightarrow> bool) \<Rightarrow> string \<Rightarrow> worker \<Rightarrow> string set \<Rightarrow> db \<Rightarrow> worker option \<times> db" where
  "reassign_after_exclusion cfg now locked tid w excluded d =
     reassign_dispatch_worker cfg now locked tid (insert (w_id w) excluded) d"

datatype dispatch_outcome = Reassigned worker | Requeued | Failed

definition handle_dispatch_failure ::
    "gateway_settings \<Rightarrow> time \<Rightarrow> (string \<Rightarrow> bool) \<Rightarrow> string \<Rightarrow> worker \<Rightarrow> exc \<Rightarrow> string set \<Rightarrow> db
      \<Rightarrow> dispatch_outcome \<times> db" where
  "handle_dispatch_failure cfg now locked tid w e excluded d =
    (if should_retry e
     then (case reassign_after_exclusion cfg now locked tid w excluded d of
             (None, d') \<Rightarrow> (Requeued, d')
           | (Some w', d') \<Rightarrow> (Reassigned w', d'))
     else (Failed, mark_failed now tid (''Content error: '' @ exc_str e) d))"

text \<open>
  What one dispatch sees of the world, per attempt of its loop: the clock, the workers locked by
  others, the payload rebuilt from object storage (an exception, a missing payload, or a payload),
  and the reply to a submission (an exception, or the reply's task id and status, where \<open>None\<close> is
  a missing key).
\<close>

record ('s, 'p) dispatch_env =
  de_clock :: "nat \<Rightarrow> time"
  de_locked :: "nat \<Rightarrow> string \<Rightarrow> bool"
  de_rebuild :: "task \<Rightarrow> 's \<Rightarrow> (exc + 'p option) \<times> 's"
  de_submit :: "nat \<Rightarrow> string \<Rightarrow> 'p \<Rightarrow> exc + string option \<times> string option"

text \<open>One pass of the \<open>while True\<close> body: finished with an outcome, or around again with a worker.\<close>

datatype loop_step = Done "exc + bool" | Again worker

definition submit_attempt ::
    "gateway_settings \<Rightarrow> ('s, 'p) dispatch_env \<Rightarrow> task \<Rightarrow> nat \<Rightarrow> worker \<Rightarrow> string set \<Rightarrow> 's \<Rightarrow> db
      \<Rightarrow> loop_step \<times> 's \<times> db" where
  "submit_attempt cfg env tk i w excluded s d =
    (let now = de_clock env i; locked = de_locked env i; tid = t_task_id tk in
     case de_rebuild env tk s of
       (Inl e, s') \<Rightarrow> (Done (Inl e), s', d)
     | (Inr None, s') \<Rightarrow>
         (Done (Inr False), s', mark_failed now tid ''Payload unavailable in object storage'' d)
     | (Inr (Some payload), s') \<Rightarrow>
         (case (case w_base_url w of None \<Rightarrow> [] | Some u \<Rightarrow> u) of
            [] \<Rightarrow>
              (case reassign_after_exclusion cfg now locked tid w excluded d of
                 (None, d') \<Rightarrow> (Done (Inr False), s', d')
               | (Some w', d') \<Rightarrow> (Again w', s', d'))
          | base_url \<Rightarrow>
              (case de_submit env i base_url payload of
                 Inl e \<Rightarrow>
                   (case handle_dispatch_failure cfg now locked tid w e excluded d of
                      (Reassigned w', d') \<Rightarrow> (Again w', s', d')
                    | (_, d') \<Rightarrow> (Done (Inr False), s', d'))
               | Inr (Some upstream_task_id, Some upstream_status) \<Rightarrow>
                   (Done (Inr True), s', mark_processing now tid (w_id w) upstream_task_id base_url upstream_status d)
               | Inr (None, _) \<Rightarrow> (Done (Inl (KeyError ''task_id'')), s', d)
               | Inr (Some _, None) \<Rightarrow> (Done (Inl (KeyError ''status'')), s', d))))"

section \<open>The loops\<close>

definition worker_ids :: "db \<Rightarrow> string set" where
  "worker_ids d = set (map w_id (db_workers d))"

lemma worker_ids_update [simp]: "worker_ids (upd_worker now k f d) = worker_ids d" if "\<And>r. w_id (f r) = w_id r"
  using that unfolding worker_ids_def by (simp del: set_map)

lemma worker_ids_upd_task [simp]: "worker_ids (upd_task now k f d) = worker_ids d"
  by (simp add: worker_ids_def)

lemma acquire_ids:
  assumes "acquire_dispatchable cfg now locked ex d = Some (w, d')"
  shows "w_id w \<in> worker_ids d" "w_id w \<notin> ex" "worker_ids d' = worker_ids d"
proof -
  from assms obtain v where v: "v \<in> set (db_workers d)" "w_id v \<notin> ex"
    "w = save_worker now (\<lambda>r. r\<lparr>w_last_active_at := Some now\<rparr>) v"
    "d' = upd_worker now (w_id v) (\<lambda>r. r\<lparr>w_last_active_at := Some now\<rparr>) d"
    by (elim acquire_SomeD)
  then show "w_id w \<in> worker_ids d" "w_id w \<notin> ex" "worker_ids d' = worker_ids d"
    by (simp_all add: worker_ids_def [of d])
qed

lemma reassign_cases:
  obtains
    (gone) "get_task tid d = None" "reassign_dispatch_worker cfg now locked tid ex d = (None, d)"
  | (moved) row where "get_task tid d = Some row" "t_status row \<noteq> TASK_DISPATCHING"
      "reassign_dispatch_worker cfg now locked tid ex d = (None, d)"
  | (requeue) row where "get_task tid d = Some row" "t_status row = TASK_DISPATCHING"
      "acquire_dispatchable cfg now locked ex d = None"
      "reassign_dispatch_worker cfg now locked tid ex d = (None, upd_task now tid requeued d)"
  | (reassign) row w d' where "get_task tid d = Some row" "t_status row = TASK_DISPATCHING"
      "acquire_dispatchable cfg now locked ex d = Some (w, d')"
      "reassign_dispatch_worker cfg now locked tid ex d
         = (Some w, upd_task now tid (\<lambda>r. r\<lparr>t_worker_id := Some (w_id w)\<rparr>) d')"
  by (cases "get_task tid d"; cases "acquire_dispatchable cfg now locked ex d")
    (fastforce simp: reassign_dispatch_worker_def split: if_splits)+

lemma reassign_Some_ids:
  assumes "reassign_dispatch_worker cfg now locked tid ex d = (Some w', d')"
  shows "w_id w' \<notin> ex" "w_id w' \<in> worker_ids d" "worker_ids d' = worker_ids d"
proof -
  obtain w d1 where "acquire_dispatchable cfg now locked ex d = Some (w, d1)" "w' = w"
    "d' = upd_task now tid (\<lambda>r. r\<lparr>t_worker_id := Some (w_id w)\<rparr>) d1"
    using assms by (cases rule: reassign_cases [of tid d cfg now locked ex]) auto
  then show "w_id w' \<notin> ex" "w_id w' \<in> worker_ids d" "worker_ids d' = worker_ids d"
    using acquire_ids by auto
qed

lemma submit_attempt_AgainD:
  assumes "submit_attempt cfg env tk i w excluded s d = (Again w', s', d')"
  shows "reassign_dispatch_worker cfg (de_clock env i) (de_locked env i) (t_task_id tk)
           (insert (w_id w) excluded) d = (Some w', d')"
  using assms
  by (auto simp: submit_attempt_def Let_def handle_dispatch_failure_def reassign_after_exclusion_def
      split: prod.splits sum.splits option.splits list.splits if_splits)

lemma submit_attempt_Again:
  assumes "submit_attempt cfg env tk i w excluded s d = (Again w', s', d')"
  shows "w_id w' \<notin> insert (w_id w) excluded" "w_id w' \<in> worker_ids d" "worker_ids d' = worker_ids d"
  using reassign_Some_ids [OF submit_attempt_AgainD [OF assms]] by simp_all

lemma finite_worker_ids [simp]: "finite (worker_ids d)"
  by (simp add: worker_ids_def)

lemma submit_attempt_measure:
  assumes "(Again w', s', d') = submit_attempt cfg env tk i w ex s d"
  shows "card (worker_ids d' - insert (w_id w') (insert (w_id w) ex)) < card (worker_ids d - insert (w_id w) ex)"
  using submit_attempt_Again [OF assms [symmetric]] by (intro psubset_card_mono) auto

text \<open>The loop of \<open>_submit_claimed_task\<close>. Every further iteration has one more excluded worker and
  continues with a known worker outside that set, so at most as many iterations follow as there are
  workers.\<close>

function submit_loop ::
    "gateway_settings \<Rightarrow> ('s, 'p) dispatch_env \<Rightarrow> task \<Rightarrow> nat \<Rightarrow> worker \<Rightarrow> string set \<Rightarrow> 's \<Rightarrow> db
      \<Rightarrow> (exc + bool) \<times> 's \<times> db" where
  "submit_loop cfg env tk i w excluded s d =
    (case submit_attempt cfg env tk i w excluded s d of
       (Done r, s', d') \<Rightarrow> (r, s', d')
     | (Again w', s', d') \<Rightarrow> submit_loop cfg env tk (Suc i) w' (insert (w_id w) excluded) s' d')"
  by pat_completeness auto

termination
  by (relation "measure (\<lambda>(cfg, env, tk, i, w, ex, s, d). card (worker_ids d - insert (w_id w) ex))")
    (auto intro: submit_attempt_measure)

declare submit_loop.simps [simp del]

text \<open>The scheduler's view of one dispatch tick: per claim, the clock, the locked rows and the
  environment of the dispatch it starts.\<close>

record ('s, 'p) tick_env =
  te_clock :: "nat \<Rightarrow> time"
  te_locked_tasks :: "nat \<Rightarrow> string \<Rightarrow> bool"
  te_locked_workers :: "nat \<Rightarrow> string \<Rightarrow> bool"
  te_dispatch :: "nat \<Rightarrow> ('s, 'p) dispatch_env"

definition submit_claimed_task ::
    "gateway_settings \<Rightarrow> ('s, 'p) dispatch_env \<Rightarrow> task \<Rightarrow> worker \<Rightarrow> 's \<Rightarrow> db \<Rightarrow> (exc + bool) \<times> 's \<times> db" where
  "submit_claimed_task cfg env tk w s d = submit_loop cfg env tk 0 w {} s d"

text \<open>The \<open>for _ in range(max_per_tick)\<close> loop; the argument \<open>k\<close> numbers the claims.\<close>

fun dispatch_loop ::
    "gateway_settings \<Rightarrow> ('s, 'p) tick_env \<Rightarrow> nat \<Rightarrow> nat \<Rightarrow> nat \<Rightarrow> time option \<Rightarrow> 's \<Rightarrow> db
      \<Rightarrow> (exc + nat) \<times> time option \<times> 's \<times> db" where
  "dispatch_loop cfg te 0 k dispatched deferred s d = (Inr dispatched, deferred, s, d)"
| "dispatch_loop cfg te (Suc n) k dispatched deferred s d =
    (case claim_next_dispatch cfg (te_clock te k) (te_locked_tasks te k) (te_locked_workers te k) deferred d of
       (None, deferred', d') \<Rightarrow> (Inr dispatched, deferred', s, d')
     | (Some (tk, w), deferred', d') \<Rightarrow>
         (case submit_claimed_task cfg (te_dispatch te k) tk w s d' of
            (Inl e, s', d'') \<Rightarrow> (Inl e, deferred', s', d'')
          | (Inr ok, s', d'') \<Rightarrow>
              dispatch_loop cfg te n (Suc k) (if ok then Suc dispatched else dispatched) deferred' s' d''))"

definition dispatch_queued_tasks ::
    "gateway_settings \<Rightarrow> ('s, 'p) tick_env \<Rightarrow> nat \<Rightarrow> time option \<Rightarrow> 's \<Rightarrow> db
      \<Rightarrow> (exc + nat) \<times> time option \<times> 's \<times> db" where
  "dispatch_queued_tasks cfg te max_per_tick deferred s d = dispatch_loop cfg te max_per_tick 0 0 deferred s d"

subsection \<open>Upstream synchronisation\<close>

definition updated_row :: "time \<Rightarrow> upstream_payload \<Rightarrow> task \<Rightarrow> task" where
  "updated_row now payload r =
    (let u = apply_upstream_payload (t_status r) payload;
         new_status = u_status u;
         status_value = (if new_status = Some TASK_COMPLETED then Some TASK_STORING_RESULT else new_status);
         r1 = r\<lparr>t_status := (case status_value of None \<Rightarrow> t_status r | Some st \<Rightarrow> st),
                t_backend := (case u_backend u of None \<Rightarrow> t_backend r | Some b \<Rightarrow> b),
                t_file_names := (case u_file_names u of None \<Rightarrow> t_file_names r | Some ns \<Rightarrow> ns),
                t_error := (case u_error u of None \<Rightarrow> t_error r | Some e \<Rightarrow> e)\<rparr>
     in if new_status \<in> {Some TASK_FAILED, Some TASK_EXPIRED} \<and> t_completed_at r1 = None
        then r1\<lparr>t_completed_at := Some now\<rparr> else r1)"

definition apply_upstream_payload_task :: "time \<Rightarrow> string \<Rightarrow> upstream_payload \<Rightarrow> db \<Rightarrow> task option \<times> db" where
  "apply_upstream_payload_task now tid payload d =
    (case get_task tid d of
       None \<Rightarrow> (None, d)
     | Some row \<Rightarrow>
         (let d' = upd_task now tid (updated_row now payload) d in (get_task tid d', d')))"

definition defer_task_poll :: "time \<Rightarrow> string \<Rightarrow> db \<Rightarrow> db" where
  "defer_task_poll now tid d =
     upd_task now tid (\<lambda>r. r\<lparr>t_next_poll_at := Some (now + seconds POLL_RETRY_DELAY_SECONDS)\<rparr>) d"

definition pollable_clause :: "time \<Rightarrow> task \<Rightarrow> bool" where
  "pollable_clause now t \<longleftrightarrow> (case t_next_poll_at t of None \<Rightarrow> True | Some p \<Rightarrow> p \<le> now)"

text \<open>\<open>poll\<close> is \<open>worker_json_get\<close>: the JSON body behind a URL, \<open>None\<close> on any HTTP or parse failure.\<close>

definition refresh_task_from_upstream ::
    "time \<Rightarrow> (string \<Rightarrow> upstream_payload option) \<Rightarrow> string \<Rightarrow> db \<Rightarrow> task option \<times> db" where
  "refresh_task_from_upstream now poll tid d =
    (case get_task tid d of
       None \<Rightarrow> (None, d)
     | Some row \<Rightarrow>
         if t_status row \<in> TASK_STATUSES_TERMINAL then (Some row, d)
         else if \<not> truthy (t_upstream_task_id row) \<or> \<not> truthy (t_upstream_base_url row) then (Some row, d)
         else (case poll (the (t_upstream_base_url row) @ ''/tasks/'' @ the (t_upstream_task_id row)) of
                 None \<Rightarrow> (Some row, defer_task_poll now tid d)
               | Some payload \<Rightarrow>
                   (case apply_upstream_payload_task now tid payload d of
                      (None, d') \<Rightarrow> (None, d')
                    | (Some updated, d') \<Rightarrow>
                        (Some updated, upd_task now tid (\<lambda>r. r\<lparr>t_next_poll_at := None\<rparr>) d'))))"

definition sync_clause :: "time \<Rightarrow> task \<Rightarrow> bool" where
  "sync_clause now t \<longleftrightarrow> t_status t \<in> {TASK_PROCESSING, TASK_DISPATCHING}
     \<and> t_upstream_task_id t \<noteq> None \<and> t_upstream_base_url t \<noteq> None \<and> pollable_clause now t"

definition sync_one ::
    "time \<Rightarrow> (string \<Rightarrow> upstream_payload option) \<Rightarrow> task \<Rightarrow> db \<Rightarrow> bool \<times> db" where
  "sync_one now poll tk d =
    (case refresh_task_from_upstream now poll (t_task_id tk) d of
       (None, d') \<Rightarrow> (False, d')
     | (Some updated, d') \<Rightarrow>
         if t_status updated = t_status tk then (False, d')
         else if t_status updated \<in> TASK_STATUSES_TERMINAL \<and> truthy (t_worker_id updated)
         then (True, commit_fields now (the (t_worker_id updated)) (\<lambda>w. w\<lparr>w_last_active_at := Some now\<rparr>) d')
         else (True, d'))"

fun sync_all ::
    "(nat \<Rightarrow> time) \<Rightarrow> (nat \<Rightarrow> string \<Rightarrow> upstream_payload option) \<Rightarrow> nat \<Rightarrow> task list \<Rightarrow> db \<Rightarrow> nat \<times> db" where
  "sync_all clock poll i [] d = (0, d)"
| "sync_all clock poll i (tk # tks) d =
    (case sync_one (clock i) (poll i) tk d of
       (changed, d') \<Rightarrow>
         (case sync_all clock poll (Suc i) tks d' of
            (n, d'') \<Rightarrow> ((if changed then Suc n else n), d'')))"

definition sync_dispatched_task_statuses ::
    "time \<Rightarrow> (nat \<Rightarrow> time) \<Rightarrow> (nat \<Rightarrow> string \<Rightarrow> upstream_payload option) \<Rightarrow> nat \<Rightarrow> db \<Rightarrow> nat \<times> db" where
  "sync_dispatched_task_statuses now clock poll max_per_tick d =
     sync_all clock poll 0
       (db_select (sync_clause now) (\<lambda>t. (t_next_poll_at t, t_updated_at t)) max_per_tick (db_tasks d)) d"

definition unstored_clause :: "time \<Rightarrow> task \<Rightarrow> bool" where
  "unstored_clause now t \<longleftrightarrow> t_status t = TASK_STORING_RESULT \<and> t_result_key t = None
     \<and> t_upstream_task_id t \<noteq> None \<and> t_upstream_base_url t \<noteq> None \<and> pollable_clause now t"

definition list_unstored_completed :: "time \<Rightarrow> nat \<Rightarrow> db \<Rightarrow> task list" where
  "list_unstored_completed now lim d =
     db_select (unstored_clause now) (\<lambda>t. (t_next_poll_at t, t_updated_at t)) lim (db_tasks d)"

subsection \<open>Retention\<close>

definition retention_expired :: "time \<Rightarrow> task \<Rightarrow> bool" where
  "retention_expired cutoff t \<longleftrightarrow> t_status t \<in> TASK_STATUSES_TERMINAL
     \<and> (case t_completed_at t of None \<Rightarrow> False | Some c \<Rightarrow> c < cutoff)"

definition list_retention_expired_tasks :: "time \<Rightarrow> nat \<Rightarrow> db \<Rightarrow> task list" where
  "list_retention_expired_tasks cutoff lim d = db_select (retention_expired cutoff) t_completed_at lim (db_tasks d)"

definition delete_task :: "string \<Rightarrow> db \<Rightarrow> bool \<times> db" where
  "delete_task tid d =
    (case get_task tid d of
       None \<Rightarrow> (False, d)
     | Some _ \<Rightarrow> (True, d\<lparr>db_tasks := db_delete t_task_id tid (db_tasks d)\<rparr>))"

section \<open>The task lifecycle\<close>

text \<open>The abstract state machine of a task.\<close>

inductive lifecycle :: "task_status \<Rightarrow> task_status \<Rightarrow> bool" where
  claim: "lifecycle TASK_QUEUED TASK_DISPATCHING"
| give_up: "lifecycle TASK_DISPATCHING TASK_QUEUED"
| accept: "lifecycle TASK_DISPATCHING TASK_PROCESSING"
| accept_done: "lifecycle TASK_DISPATCHING TASK_STORING_RESULT"
| reject: "st \<in> {TASK_FAILED, TASK_EXPIRED} \<Longrightarrow> lifecycle TASK_DISPATCHING st"
| finish: "lifecycle TASK_PROCESSING TASK_STORING_RESULT"
| fail: "st \<in> {TASK_FAILED, TASK_EXPIRED} \<Longrightarrow> lifecycle TASK_PROCESSING st"
| store: "lifecycle TASK_STORING_RESULT TASK_COMPLETED"

inductive_cases lifecycle_from: "lifecycle st st'"

text \<open>What every row of the tasks table satisfies.\<close>

definition task_ok :: "task \<Rightarrow> bool" where
  "task_ok t \<longleftrightarrow>
     (t_status t = TASK_QUEUED \<longrightarrow> t_worker_id t = None \<and> t_upstream_task_id t = None \<and> t_upstream_base_url t = None)
   \<and> (t_status t = TASK_DISPATCHING \<longrightarrow> t_worker_id t \<noteq> None \<and> t_dispatch_started_at t \<noteq> None
        \<and> t_upstream_task_id t = None \<and> t_upstream_base_url t = None)
   \<and> (t_status t \<in> {TASK_PROCESSING, TASK_STORING_RESULT} \<longrightarrow> t_worker_id t \<noteq> None
        \<and> t_dispatch_started_at t \<noteq> None \<and> t_upstream_task_id t \<noteq> None \<and> t_upstream_base_url t \<noteq> None)
   \<and> (t_result_key t \<noteq> None \<longleftrightarrow> t_status t = TASK_COMPLETED)
   \<and> (t_completed_at t \<noteq> None \<longleftrightarrow> t_status t \<in> TASK_STATUSES_TERMINAL)"

definition tasks_ok :: "db \<Rightarrow> bool" where
  "tasks_ok d \<longleftrightarrow> db_wf d \<and> list_all task_ok (db_tasks d)"

text \<open>How one row may change: along the lifecycle, keeping what identifies the task.\<close>

definition task_evolves :: "task \<Rightarrow> task \<Rightarrow> bool" where
  "task_evolves t t' \<longleftrightarrow> lifecycle\<^sup>*\<^sup>* (t_status t) (t_status t')
     \<and> t_task_id t' = t_task_id t \<and> t_source t' = t_source t \<and> t_payload_key t' = t_payload_key t
     \<and> t_options_blob t' = t_options_blob t \<and> t_created_at t' = t_created_at t"

text \<open>The fast loop leaves its mark on a worker: when it was last active, and nothing else.\<close>

definition worker_stamped :: "worker \<Rightarrow> worker \<Rightarrow> bool" where
  "worker_stamped w w' \<longleftrightarrow> w' = w\<lparr>w_last_active_at := w_last_active_at w', w_updated_at := w_updated_at w'\<rparr>"

text \<open>The contract every step of the fast loop honours: on a well-formed database it keeps the
  invariant, moves every task along the lifecycle, adds and drops no row, changes no worker beyond its
  activity stamp, and loads no worker beyond its slots.\<close>

definition safe_step :: "gateway_settings \<Rightarrow> db \<Rightarrow> db \<Rightarrow> bool" where
  "safe_step cfg d d' \<longleftrightarrow> (tasks_ok d \<longrightarrow> tasks_ok d'
     \<and> list_all2 task_evolves (db_tasks d) (db_tasks d')
     \<and> list_all2 worker_stamped (db_workers d) (db_workers d')
     \<and> (\<forall>wid. int (compute_load d' wid) \<le> max (int (compute_load d wid)) (target_per_worker (scaling cfg))))"

section \<open>Lemmas: the contract\<close>

lemma task_evolves_refl [simp]: "task_evolves t t"
  by (simp add: task_evolves_def)

lemma task_evolves_trans: "task_evolves a b \<Longrightarrow> task_evolves b c \<Longrightarrow> task_evolves a c"
  by (auto simp: task_evolves_def)

lemma worker_stamped_refl [simp]: "worker_stamped w w"
  by (simp add: worker_stamped_def)

lemma worker_stamped_active [simp, intro]: "worker_stamped w (w\<lparr>w_last_active_at := t\<rparr>)"
  by (simp add: worker_stamped_def)

lemma worker_stamped_updated [simp, intro]: "worker_stamped w (w\<lparr>w_updated_at := t\<rparr>)"
  by (simp add: worker_stamped_def)

lemma worker_stamped_trans: "worker_stamped a b \<Longrightarrow> worker_stamped b c \<Longrightarrow> worker_stamped a c"
  unfolding worker_stamped_def by (cases a; cases b; cases c) simp

lemma worker_stamped_fields:
  assumes "worker_stamped w w'"
  shows "w_id w' = w_id w" "w_provider w' = w_provider w" "w_deployment_id w' = w_deployment_id w"
    "w_terminated_at w' = w_terminated_at w" "w_desired_state w' = w_desired_state w"
    "w_replacement_for w' = w_replacement_for w" "w_created_at w' = w_created_at w" "w_generation w' = w_generation w"
  using assms unfolding worker_stamped_def by (cases w; cases w'; simp)+

lemma safe_step_refl [simp, intro]: "safe_step cfg d d"
  by (auto simp: safe_step_def list_all2_refl)

lemma safe_step_trans [trans]:
  assumes "safe_step cfg d d'" and "safe_step cfg d' d''"
  shows "safe_step cfg d d''"
  unfolding safe_step_def
proof (intro impI conjI allI)
  assume ok: "tasks_ok d"
  then have ok': "tasks_ok d'" using assms(1) by (simp add: safe_step_def)
  show "tasks_ok d''" using assms(2) ok' by (simp add: safe_step_def)
  have "list_all2 task_evolves (db_tasks d) (db_tasks d')" "list_all2 task_evolves (db_tasks d') (db_tasks d'')"
    using assms ok ok' by (simp_all add: safe_step_def)
  then show "list_all2 task_evolves (db_tasks d) (db_tasks d'')"
    by (rule list_all2_trans [rotated]) (rule task_evolves_trans)
  have "list_all2 worker_stamped (db_workers d) (db_workers d')" "list_all2 worker_stamped (db_workers d') (db_workers d'')"
    using assms ok ok' by (simp_all add: safe_step_def)
  then show "list_all2 worker_stamped (db_workers d) (db_workers d'')"
    by (rule list_all2_trans [rotated]) (rule worker_stamped_trans)
  fix wid
  have "int (compute_load d' wid) \<le> max (int (compute_load d wid)) (target_per_worker (scaling cfg))"
    "int (compute_load d'' wid) \<le> max (int (compute_load d' wid)) (target_per_worker (scaling cfg))"
    using assms ok ok' by (simp_all add: safe_step_def)
  then show "int (compute_load d'' wid) \<le> max (int (compute_load d wid)) (target_per_worker (scaling cfg))"
    by linarith
qed

lemma load_upd_task:
  assumes "db_wf d" and "get_task tid d = Some row"
  shows "task_count S (upd_task now tid f d) wid + of_bool (t_worker_id row = Some wid \<and> t_status row \<in> S)
    = task_count S d wid + of_bool (t_worker_id (f row) = Some wid \<and> t_status (f row) \<in> S)"
  using db_count_update_eq [of t_task_id "db_tasks d" tid row
      "\<lambda>t. t_worker_id t = Some wid \<and> t_status t \<in> S" "save_task now f"] assms
  by (simp add: task_count_def db_wf_def get_task_def)

lemma task_row_unique:
  assumes "db_wf d" "get_task tid d = Some row" "r \<in> set (db_tasks d)" "t_task_id r = tid"
  shows "r = row"
  using assms get_task_mem by force

text \<open>A change of one task row honours the contract when the row does.\<close>

lemma safe_upd_task:
  assumes id: "\<And>r. t_task_id (f r) = t_task_id r"
    and row: "\<And>row. tasks_ok d \<Longrightarrow> get_task tid d = Some row \<Longrightarrow>
      task_ok row \<Longrightarrow> task_ok (save_task now f row) \<and> task_evolves row (f row)
      \<and> (t_status (f row) \<in> TASK_STATUSES_COMPUTE_CAPACITY \<longrightarrow>
           (\<exists>w. t_worker_id (f row) = Some w
              \<and> (t_status row \<in> TASK_STATUSES_COMPUTE_CAPACITY \<and> t_worker_id row = Some w
                 \<or> int (compute_load d w) < target_per_worker (scaling cfg))))"
  shows "safe_step cfg d (upd_task now tid f d)"
  unfolding safe_step_def
proof (intro impI conjI allI)
  assume ok: "tasks_ok d"
  then have wf: "db_wf d" and all: "\<And>r. r \<in> set (db_tasks d) \<Longrightarrow> task_ok r"
    by (auto simp: tasks_ok_def list_all_iff)
  have R: "task_ok (save_task now f r) \<and> task_evolves r (f r)" if "r \<in> set (db_tasks d)" "t_task_id r = tid" for r
    using that row [OF ok, of r] all wf get_task_mem [OF wf, of r] by auto
  show "tasks_ok (upd_task now tid f d)"
    using R all db_wf_upd_task [OF wf id]
    by (auto simp: tasks_ok_def list_all_iff elim!: db_update_mem)
  show "list_all2 task_evolves (db_tasks d) (db_tasks (upd_task now tid f d))"
    unfolding upd_task_tables by (rule db_update_all2) (use R in \<open>auto simp: task_evolves_def\<close>)
  show "list_all2 worker_stamped (db_workers d) (db_workers (upd_task now tid f d))"
    by (simp add: list_all2_refl)
  fix wid
  show "int (compute_load (upd_task now tid f d) wid) \<le> max (int (compute_load d wid)) (target_per_worker (scaling cfg))"
  proof (cases "get_task tid d")
    case None
    then have "db_update t_task_id tid (save_task now f) (db_tasks d) = db_tasks d"
      by (intro db_update_absent) (simp add: get_task_def db_get_None)
    then show ?thesis by (simp add: task_count_def)
  next
    case (Some r)
    then have "task_ok r" using all get_task_Some by blast
    from row [OF ok Some this] load_upd_task [OF wf Some, of TASK_STATUSES_COMPUTE_CAPACITY now f wid]
    show ?thesis by (auto simp: of_bool_def split: if_splits)
  qed
qed

lemma safe_upd_worker [simp, intro]:
  assumes "\<And>r. worker_stamped r (f r)"
  shows "safe_step cfg d (upd_worker now wid f d)"
proof -
  have "worker_stamped r (save_worker now f r)" for r
    using worker_stamped_trans [OF assms worker_stamped_updated] by (simp add: save_worker_def Let_def)
  then have "list_all2 worker_stamped (db_workers d) (db_workers (upd_worker now wid f d))"
    unfolding upd_worker_def by (auto intro!: db_update_all2)
  moreover have "w_id (f r) = w_id r" for r by (rule worker_stamped_fields(1) [OF assms])
  ultimately show ?thesis by (auto simp: safe_step_def tasks_ok_def task_count_def list_all2_refl)
qed

lemma safe_update_where:
  assumes id: "\<And>r. t_task_id (f r) = t_task_id r"
    and row: "\<And>r. r \<in> set (db_tasks d) \<Longrightarrow> task_ok r \<Longrightarrow> P r \<Longrightarrow> task_ok (f r) \<and> task_evolves r (f r)"
    and load: "\<And>r. r \<in> set (db_tasks d) \<Longrightarrow> P r \<Longrightarrow> t_status (f r) \<in> TASK_STATUSES_COMPUTE_CAPACITY \<Longrightarrow>
      t_status r \<in> TASK_STATUSES_COMPUTE_CAPACITY \<and> t_worker_id (f r) = t_worker_id r"
  shows "safe_step cfg d (d\<lparr>db_tasks := db_update_where P f (db_tasks d)\<rparr>)"
  unfolding safe_step_def
proof (intro impI conjI allI)
  assume "tasks_ok d"
  then have wf: "db_wf d" and all: "\<And>r. r \<in> set (db_tasks d) \<Longrightarrow> task_ok r"
    by (auto simp: tasks_ok_def list_all_iff)
  show "tasks_ok (d\<lparr>db_tasks := db_update_where P f (db_tasks d)\<rparr>)"
    using row all wf db_update_where_keys [of t_task_id f P, OF id]
    by (auto simp: tasks_ok_def list_all_iff db_wf_def elim!: db_update_where_mem)
  show "list_all2 task_evolves (db_tasks d) (db_tasks (d\<lparr>db_tasks := db_update_where P f (db_tasks d)\<rparr>))"
    by (auto intro!: db_update_where_all2 simp: row all)
  show "list_all2 worker_stamped (db_workers d) (db_workers (d\<lparr>db_tasks := db_update_where P f (db_tasks d)\<rparr>))"
    by (simp add: list_all2_refl)
  fix wid
  have "compute_load (d\<lparr>db_tasks := db_update_where P f (db_tasks d)\<rparr>) wid \<le> compute_load d wid"
    using load by (auto simp: task_count_def intro!: db_count_update_where_le)
  then show "int (compute_load (d\<lparr>db_tasks := db_update_where P f (db_tasks d)\<rparr>) wid)
      \<le> max (int (compute_load d wid)) (target_per_worker (scaling cfg))" by linarith
qed

lemma lifecycle_star [intro]: "lifecycle a b \<Longrightarrow> lifecycle\<^sup>*\<^sup>* a b"
  by (rule r_into_rtranclp)

lemma lifecycle_edges [simp]:
  "lifecycle\<^sup>*\<^sup>* TASK_QUEUED TASK_DISPATCHING" "lifecycle\<^sup>*\<^sup>* TASK_DISPATCHING TASK_QUEUED"
  "lifecycle\<^sup>*\<^sup>* TASK_DISPATCHING TASK_PROCESSING" "lifecycle\<^sup>*\<^sup>* TASK_DISPATCHING TASK_STORING_RESULT"
  "lifecycle\<^sup>*\<^sup>* TASK_DISPATCHING TASK_FAILED" "lifecycle\<^sup>*\<^sup>* TASK_DISPATCHING TASK_EXPIRED"
  "lifecycle\<^sup>*\<^sup>* TASK_PROCESSING TASK_STORING_RESULT" "lifecycle\<^sup>*\<^sup>* TASK_PROCESSING TASK_FAILED"
  "lifecycle\<^sup>*\<^sup>* TASK_PROCESSING TASK_EXPIRED" "lifecycle\<^sup>*\<^sup>* TASK_STORING_RESULT TASK_COMPLETED"
  by (rule lifecycle_star, simp add: lifecycle.simps)+

lemmas row_defs = requeued_def dispatching_on_def

lemma save_task_ok [simp]: "task_ok (save_task now f r) = task_ok (f r)"
  by (simp add: task_ok_def)

lemma safe_recover: "safe_step cfg d (snd (recover_stale_dispatch_claims now d))"
proof -
  have "safe_step cfg d (d\<lparr>db_tasks := db_update_where (stale_claim now) (save_task now requeued) (db_tasks d)\<rparr>)"
    by (rule safe_update_where)
      (auto simp: requeued_def task_ok_def task_evolves_def stale_claim_def status_sets intro: lifecycle.intros)
  then show ?thesis by (simp add: recover_stale_dispatch_claims_def)
qed

lemma safe_expire_sla: "safe_step cfg d (snd (expire_client_sla_tasks now sla d))"
proof -
  have "safe_step cfg d (d\<lparr>db_tasks := db_update_where (sla_expired now sla)
      (save_task now (\<lambda>r. r\<lparr>t_client_expired_at := Some now\<rparr>)) (db_tasks d)\<rparr>)"
    by (rule safe_update_where) (auto simp: task_ok_def task_evolves_def)
  then show ?thesis by (simp add: expire_client_sla_tasks_def)
qed

text \<open>The row a dispatch works on: claimed for the worker it is about to be sent to.\<close>

definition claimed :: "string \<Rightarrow> string \<Rightarrow> db \<Rightarrow> bool" where
  "claimed tid wid d \<longleftrightarrow> (case get_task tid d of None \<Rightarrow> False
     | Some row \<Rightarrow> t_status row = TASK_DISPATCHING \<and> t_worker_id row = Some wid)"

lemma claimedD:
  assumes "claimed tid wid d"
  obtains row where "get_task tid d = Some row" "t_status row = TASK_DISPATCHING" "t_worker_id row = Some wid"
  using assms by (auto simp: claimed_def split: option.splits)

lemma safe_mark_failed:
  assumes "claimed tid wid d" shows "safe_step cfg d (mark_failed now tid err d)"
  unfolding mark_failed_def
  by (rule safe_upd_task)
    (use assms in \<open>auto elim!: claimedD simp: task_ok_def task_evolves_def status_sets intro!: lifecycle.intros r_into_rtranclp\<close>)

lemma normalize_accepted:
  "normalize_upstream_status st TASK_PROCESSING \<in>
     {TASK_PROCESSING, TASK_STORING_RESULT, TASK_COMPLETED, TASK_FAILED, TASK_EXPIRED}"
  by (auto simp: normalize_upstream_status_def UPSTREAM_TO_INTERNAL_def split: option.splits if_splits)

lemma processing_row_fields:
  "t_task_id (processing_row now wid uid base st r) = t_task_id r"
  "t_worker_id (processing_row now wid uid base st r) = Some wid"
  "t_upstream_task_id (processing_row now wid uid base st r) = Some uid"
  "t_upstream_base_url (processing_row now wid uid base st r) = Some base"
  "t_status (processing_row now wid uid base st r) =
     (if normalize_upstream_status (Some st) TASK_PROCESSING = TASK_COMPLETED then TASK_STORING_RESULT
      else normalize_upstream_status (Some st) TASK_PROCESSING)"
  "t_completed_at (processing_row now wid uid base st r) =
     (if normalize_upstream_status (Some st) TASK_PROCESSING \<in> {TASK_FAILED, TASK_EXPIRED} then Some now
      else t_completed_at r)"
  "t_result_key (processing_row now wid uid base st r) = t_result_key r"
  "t_dispatch_started_at (processing_row now wid uid base st r) = t_dispatch_started_at r"
  "t_source (processing_row now wid uid base st r) = t_source r"
  "t_payload_key (processing_row now wid uid base st r) = t_payload_key r"
  "t_options_blob (processing_row now wid uid base st r) = t_options_blob r"
  "t_created_at (processing_row now wid uid base st r) = t_created_at r"
  by (simp_all add: processing_row_def Let_def TASK_STATUSES_TERMINAL_def)

lemma processing_row_ok:
  assumes "task_ok row" and "t_status row = TASK_DISPATCHING"
  shows "task_ok (processing_row now wid uid base st row)" "task_evolves row (processing_row now wid uid base st row)"
proof -
  define n where "n = normalize_upstream_status (Some st) TASK_PROCESSING"
  have "n = TASK_PROCESSING \<or> n = TASK_STORING_RESULT \<or> n = TASK_COMPLETED \<or> n = TASK_FAILED \<or> n = TASK_EXPIRED"
    using normalize_accepted [of "Some st"] by (simp add: n_def)
  then show "task_ok (processing_row now wid uid base st row)" "task_evolves row (processing_row now wid uid base st row)"
    using assms
    by (auto simp: task_ok_def task_evolves_def processing_row_fields status_sets n_def [symmetric]
        intro: lifecycle.intros)
qed

lemma safe_mark_processing:
  assumes "claimed tid wid d" shows "safe_step cfg d (mark_processing now tid wid uid base st d)"
  unfolding mark_processing_def
proof (rule safe_upd_task)
  fix row assume "get_task tid d = Some row" "task_ok row"
  moreover from assms this have "t_status row = TASK_DISPATCHING" "t_worker_id row = Some wid"
    by (auto elim!: claimedD)
  ultimately
  show "task_ok (save_task now (processing_row now wid uid base st) row)
      \<and> task_evolves row (processing_row now wid uid base st row)
      \<and> (t_status (processing_row now wid uid base st row) \<in> TASK_STATUSES_COMPUTE_CAPACITY \<longrightarrow>
           (\<exists>w. t_worker_id (processing_row now wid uid base st row) = Some w
              \<and> (t_status row \<in> TASK_STATUSES_COMPUTE_CAPACITY \<and> t_worker_id row = Some w
                 \<or> int (compute_load d w) < target_per_worker (scaling cfg))))"
    by (simp add: processing_row_ok processing_row_fields(2) TASK_STATUSES_COMPUTE_CAPACITY_def)
qed (simp add: processing_row_fields)

lemma safe_requeue:
  assumes "claimed tid wid d" shows "safe_step cfg d (upd_task now tid requeued d)"
  by (rule safe_upd_task)
    (use assms in \<open>auto elim!: claimedD simp: requeued_def task_ok_def task_evolves_def status_sets intro!: lifecycle.intros\<close>)

lemma acquire_load:
  assumes "acquire_dispatchable cfg now locked ex d = Some (w, d')"
  shows "int (compute_load d' (w_id w)) < target_per_worker (scaling cfg)" "safe_step cfg d d'"
    "db_tasks d' = db_tasks d"
proof -
  from assms obtain v where v: "dispatchable_clause cfg d v" "w_id w = w_id v"
    and d': "d' = upd_worker now (w_id v) (\<lambda>r. r\<lparr>w_last_active_at := Some now\<rparr>) d"
    by (elim acquire_SomeD) simp
  show "int (compute_load d' (w_id w)) < target_per_worker (scaling cfg)" "safe_step cfg d d'" "db_tasks d' = db_tasks d"
    using v unfolding d' by (simp_all add: dispatchable_clause_def task_count_def)
qed

lemma get_task_same: "db_tasks d' = db_tasks d \<Longrightarrow> get_task k d' = get_task k d"
  by (simp add: get_task_def)

lemma safe_reassign:
  assumes "claimed tid wid d" and "reassign_dispatch_worker cfg now locked tid ex d = (r, d')"
  shows "safe_step cfg d d'"
    and "case r of Some w' \<Rightarrow> claimed tid (w_id w') d'
         | None \<Rightarrow> (\<exists>row. get_task tid d' = Some row \<and> t_status row = TASK_QUEUED)"
proof -
  obtain row where row: "get_task tid d = Some row" "t_status row = TASK_DISPATCHING" "t_worker_id row = Some wid"
    using assms(1) by (rule claimedD)
  have "safe_step cfg d d' \<and> (case r of Some w' \<Rightarrow> claimed tid (w_id w') d'
         | None \<Rightarrow> (\<exists>row. get_task tid d' = Some row \<and> t_status row = TASK_QUEUED))"
  proof (cases rule: reassign_cases [of tid d cfg now locked ex])
    case (requeue row')
    then show ?thesis
      using assms row safe_requeue [OF assms(1), of cfg now]
      by (auto simp: get_task_upd requeued_def)
  next
    case (reassign row' w d1)
    let ?f = "\<lambda>r :: task. r\<lparr>t_worker_id := Some (w_id w)\<rparr>"
    have d': "d' = upd_task now tid ?f d1" "r = Some w" using reassign(4) assms(2) by auto
    have same: "get_task tid d1 = Some row" using row get_task_same [OF acquire_load(3) [OF reassign(3)]] by simp
    have "safe_step cfg d1 (upd_task now tid ?f d1)"
      by (rule safe_upd_task)
        (use same row acquire_load(1) [OF reassign(3)] in \<open>auto simp: task_ok_def task_evolves_def\<close>)
    then show ?thesis
      using safe_step_trans [OF acquire_load(2) [OF reassign(3)]] same row
      by (simp add: d' claimed_def get_task_upd)
  qed (use row assms in auto)
  then show "safe_step cfg d d'" and "case r of Some w' \<Rightarrow> claimed tid (w_id w') d'
         | None \<Rightarrow> (\<exists>row. get_task tid d' = Some row \<and> t_status row = TASK_QUEUED)" by blast+
qed

lemma claim_SomeD:
  assumes "claim_next_dispatch cfg now lt lw ds d = (Some (tk, w), ds', d')"
  obtains c d1 where
    "c \<in> set (db_tasks d)" "queued_clause c" "\<not> lt (t_task_id c)"
    "\<And>t. t \<in> set (db_tasks d) \<Longrightarrow> queued_clause t \<Longrightarrow> \<not> lt (t_task_id t) \<Longrightarrow> t_created_at c \<le> t_created_at t"
    "acquire_dispatchable cfg now lw {} d = Some (w, d1)" "ds' = None"
    "tk = save_task now (dispatching_on now (w_id w)) c"
    "d' = upd_task now (t_task_id c) (dispatching_on now (w_id w)) d1"
proof -
  let ?P = "\<lambda>t. queued_clause t \<and> \<not> lt (t_task_id t)"
  from assms obtain c d1 where c: "db_first ?P t_created_at (db_tasks d) = Some c"
    and rest: "acquire_dispatchable cfg now lw {} d = Some (w, d1)" "ds' = None"
    "tk = save_task now (dispatching_on now (w_id w)) c"
    "d' = upd_task now (t_task_id c) (dispatching_on now (w_id w)) d1"
    unfolding claim_next_dispatch_def by (simp split: option.splits prod.splits)
  show ?thesis
    by (rule that [OF _ _ _ _ rest]) (use db_first_Some [OF c] in auto)
qed

lemma dispatching_on_id [simp]: "t_task_id (dispatching_on now wid r) = t_task_id r"
  by (simp add: dispatching_on_def)

lemma claim_safe:
  assumes "claim_next_dispatch cfg now lt lw ds d = (r, ds', d')"
  shows "safe_step cfg d d'"
proof (cases r)
  case None
  with assms show ?thesis
    by (auto simp: claim_next_dispatch_def split: option.splits prod.splits)
next
  case (Some a)
  obtain tk w where a: "a = (tk, w)" by (cases a)
  from assms [unfolded Some a] obtain c d1 where c: "c \<in> set (db_tasks d)" "queued_clause c"
    and acq: "acquire_dispatchable cfg now lw {} d = Some (w, d1)"
    and d': "d' = upd_task now (t_task_id c) (dispatching_on now (w_id w)) d1"
    by (rule claim_SomeD)
  have "safe_step cfg d1 d'" unfolding d'
  proof (rule safe_upd_task)
    fix row assume ok: "tasks_ok d1" and row: "get_task (t_task_id c) d1 = Some row" and "task_ok row"
    have "row = c"
      using task_row_unique [OF _ row, of c] ok c(1) acquire_load(3) [OF acq] by (simp add: tasks_ok_def)
    then show "task_ok (save_task now (dispatching_on now (w_id w)) row)
      \<and> task_evolves row (dispatching_on now (w_id w) row)
      \<and> (t_status (dispatching_on now (w_id w) row) \<in> TASK_STATUSES_COMPUTE_CAPACITY \<longrightarrow>
           (\<exists>v. t_worker_id (dispatching_on now (w_id w) row) = Some v
              \<and> (t_status row \<in> TASK_STATUSES_COMPUTE_CAPACITY \<and> t_worker_id row = Some v
                 \<or> int (compute_load d1 v) < target_per_worker (scaling cfg))))"
      using c(2) \<open>task_ok row\<close> acquire_load(1) [OF acq]
      by (simp add: dispatching_on_def task_ok_def task_evolves_def queued_clause_def status_sets lifecycle_star lifecycle.claim)
  qed simp
  then show ?thesis using acquire_load(2) [OF acq] safe_step_trans by blast
qed

lemma claim_claimed:
  assumes "claim_next_dispatch cfg now lt lw ds d = (Some (tk, w), ds', d')" and "db_wf d"
  shows "get_task (t_task_id tk) d' = Some tk" "claimed (t_task_id tk) (w_id w) d'"
proof -
  from assms(1) obtain c d1 where c: "c \<in> set (db_tasks d)"
    and acq: "acquire_dispatchable cfg now lw {} d = Some (w, d1)"
    and tk: "tk = save_task now (dispatching_on now (w_id w)) c"
    and d': "d' = upd_task now (t_task_id c) (dispatching_on now (w_id w)) d1"
    by (rule claim_SomeD)
  have "get_task (t_task_id c) d1 = Some c"
    using get_task_mem [OF assms(2) c] get_task_same [OF acquire_load(3) [OF acq]] by simp
  then show "get_task (t_task_id tk) d' = Some tk" by (simp add: tk d' get_task_upd)
  then show "claimed (t_task_id tk) (w_id w) d'" by (simp add: claimed_def tk dispatching_on_def)
qed

text \<open>What a finished dispatch leaves behind.\<close>

definition dispatch_result :: "string \<Rightarrow> exc + bool \<Rightarrow> db \<Rightarrow> bool" where
  "dispatch_result tid r d \<longleftrightarrow> (case get_task tid d of None \<Rightarrow> False
     | Some row \<Rightarrow> (case r of
          Inr True \<Rightarrow> t_status row \<in> {TASK_PROCESSING, TASK_STORING_RESULT, TASK_FAILED, TASK_EXPIRED}
                       \<and> t_upstream_task_id row \<noteq> None \<and> truthy (t_upstream_base_url row)
        | Inr False \<Rightarrow> t_status row \<in> {TASK_QUEUED, TASK_FAILED}
        | Inl _ \<Rightarrow> t_status row = TASK_DISPATCHING))"

lemma mark_processing_result:
  assumes "claimed tid wid d" and "base \<noteq> []"
  shows "dispatch_result tid (Inr True) (mark_processing now tid wid uid base st d)"
proof -
  obtain row where "get_task tid d = Some row" using assms(1) by (rule claimedD)
  moreover have "(if n = TASK_COMPLETED then TASK_STORING_RESULT else n)
      \<in> {TASK_PROCESSING, TASK_STORING_RESULT, TASK_FAILED, TASK_EXPIRED}"
    if "n = normalize_upstream_status (Some st) TASK_PROCESSING" for n
    using normalize_accepted [of "Some st"] that by auto
  ultimately show ?thesis
    using assms(2)
    by (simp add: dispatch_result_def mark_processing_def get_task_upd processing_row_fields del: insert_iff)
qed

lemma mark_failed_result:
  "claimed tid wid d \<Longrightarrow> dispatch_result tid (Inr False) (mark_failed now tid err d)"
  by (auto simp: dispatch_result_def mark_failed_def get_task_upd elim!: claimedD)

lemma submit_attempt_safe:
  assumes "claimed (t_task_id tk) (w_id w) d" and "submit_attempt cfg env tk i w ex s d = (st, s', d')"
  shows "safe_step cfg d d' \<and> (case st of Again w' \<Rightarrow> claimed (t_task_id tk) (w_id w') d'
           | Done r \<Rightarrow> dispatch_result (t_task_id tk) r d')"
proof -
  let ?tid = "t_task_id tk" and ?now = "de_clock env i"
  obtain ra sa where rb: "de_rebuild env tk s = (ra, sa)" by (cases "de_rebuild env tk s")
  obtain rr dr where rs: "reassign_dispatch_worker cfg ?now (de_locked env i) ?tid (insert (w_id w) ex) d = (rr, dr)"
    by (cases "reassign_dispatch_worker cfg ?now (de_locked env i) ?tid (insert (w_id w) ex) d")
  note R = safe_reassign [OF assms(1) rs]
  have done_r: "rr = None \<Longrightarrow> dispatch_result ?tid (Inr False) dr"
    using R(2) by (auto simp: dispatch_result_def)
  have stay: "dispatch_result ?tid (Inl e) d" for e
    using assms(1) by (auto simp: dispatch_result_def elim!: claimedD)
  note D = assms(2) [unfolded submit_attempt_def Let_def rb reassign_after_exclusion_def handle_dispatch_failure_def rs]
  show ?thesis
    using D R done_r stay safe_mark_failed [OF assms(1)] mark_failed_result [OF assms(1)]
      safe_mark_processing [OF assms(1)] mark_processing_result [OF assms(1)]
    by (auto split: sum.splits option.splits list.splits if_splits prod.splits)
qed

lemma submit_loop_safe:
  assumes "claimed (t_task_id tk) (w_id w) d" and "submit_loop cfg env tk i w ex s d = (r, s', d')"
  shows "safe_step cfg d d' \<and> dispatch_result (t_task_id tk) r d'"
  using assms
proof (induction cfg env tk i w ex s d arbitrary: r s' d' rule: submit_loop.induct)
  case (1 cfg env tk i w ex s d)
  obtain st s1 d1 where att: "submit_attempt cfg env tk i w ex s d = (st, s1, d1)"
    by (cases "submit_attempt cfg env tk i w ex s d")
  note A = submit_attempt_safe [OF "1.prems"(1) att]
  show ?case
  proof (cases st)
    case (Done r0)
    then show ?thesis using A "1.prems"(2) att by (simp add: submit_loop.simps [of cfg env tk i w ex s d])
  next
    case (Again w')
    then have "claimed (t_task_id tk) (w_id w') d1" "submit_loop cfg env tk (Suc i) w' (insert (w_id w) ex) s1 d1 = (r, s', d')"
      using A "1.prems"(2) att by (simp_all add: submit_loop.simps [of cfg env tk i w ex s d])
    then have "safe_step cfg d1 d' \<and> dispatch_result (t_task_id tk) r d'"
      using "1.IH" [OF att [symmetric] Again refl] by blast
    then show ?thesis using A safe_step_trans by blast
  qed
qed

lemma dispatch_loop_safe:
  assumes "tasks_ok d" and "dispatch_loop cfg te n k m ds s d = (r, ds', s', d')"
  shows "safe_step cfg d d'"
  using assms
proof (induction cfg te n k m ds s d arbitrary: r ds' s' d' rule: dispatch_loop.induct)
  case (2 cfg te n k m ds s d)
  obtain c ds1 d1 where claim: "claim_next_dispatch cfg (te_clock te k) (te_locked_tasks te k)
      (te_locked_workers te k) ds d = (c, ds1, d1)"
    by (cases "claim_next_dispatch cfg (te_clock te k) (te_locked_tasks te k) (te_locked_workers te k) ds d")
  note S1 = claim_safe [OF claim]
  show ?case
  proof (cases c)
    case None
    then show ?thesis using S1 "2.prems"(2) claim by simp
  next
    case (Some a)
    obtain tk w where a: "c = Some (tk, w)" using Some by (cases a) simp
    have cl: "claimed (t_task_id tk) (w_id w) d1"
      using claim_claimed(2) [OF claim [unfolded a]] "2.prems"(1) by (simp add: tasks_ok_def)
    obtain o1 s1 d2 where sub: "submit_claimed_task cfg (te_dispatch te k) tk w s d1 = (o1, s1, d2)"
      by (cases "submit_claimed_task cfg (te_dispatch te k) tk w s d1")
    have S2: "safe_step cfg d1 d2" using submit_loop_safe [OF cl sub [unfolded submit_claimed_task_def]] by blast
    note S12 = safe_step_trans [OF S1 S2]
    have ok2: "tasks_ok d2" using S12 "2.prems"(1) by (simp add: safe_step_def)
    show ?thesis
    proof (cases o1)
      case (Inl e)
      then show ?thesis using S12 "2.prems"(2) by (simp add: claim a sub)
    next
      case (Inr b)
      then have "safe_step cfg d2 d'"
        using "2.IH" [OF claim [symmetric] a refl refl sub [symmetric] Inr refl ok2] "2.prems"(2)
        by (simp add: claim a sub)
      then show ?thesis using S12 safe_step_trans by blast
    qed
  qed
qed simp

lemma updated_row_fields:
  "t_task_id (updated_row now p r) = t_task_id r"
  "t_worker_id (updated_row now p r) = t_worker_id r"
  "t_upstream_task_id (updated_row now p r) = t_upstream_task_id r"
  "t_upstream_base_url (updated_row now p r) = t_upstream_base_url r"
  "t_result_key (updated_row now p r) = t_result_key r"
  "t_dispatch_started_at (updated_row now p r) = t_dispatch_started_at r"
  "t_source (updated_row now p r) = t_source r"
  "t_payload_key (updated_row now p r) = t_payload_key r"
  "t_options_blob (updated_row now p r) = t_options_blob r"
  "t_created_at (updated_row now p r) = t_created_at r"
  by (simp_all add: updated_row_def Let_def)

lemma updated_row_status:
  assumes "t_status r = TASK_PROCESSING"
  obtains "t_status (updated_row now p r) \<in> {TASK_PROCESSING, TASK_STORING_RESULT}"
      "t_completed_at (updated_row now p r) = t_completed_at r"
  | "t_status (updated_row now p r) \<in> {TASK_FAILED, TASK_EXPIRED}"
      "t_completed_at (updated_row now p r) \<noteq> None"
proof (cases "p_status p")
  case None
  with assms that(1) show ?thesis by (simp add: updated_row_def Let_def apply_upstream_payload_def)
next
  case (Some st)
  define n where "n = normalize_upstream_status st TASK_PROCESSING"
  have "n = TASK_PROCESSING \<or> n = TASK_STORING_RESULT \<or> n = TASK_COMPLETED \<or> n = TASK_FAILED \<or> n = TASK_EXPIRED"
    using normalize_accepted [of st] by (simp add: n_def)
  with assms that show ?thesis
    by (elim disjE) (simp_all add: updated_row_def Let_def apply_upstream_payload_def Some n_def [symmetric])
qed

lemma updated_row_ok:
  assumes "task_ok r" and "t_status r = TASK_PROCESSING"
  shows "task_ok (updated_row now p r)" "task_evolves r (updated_row now p r)"
  using assms
  by (rule_tac [!] updated_row_status [OF assms(2), of now p])
    (auto simp: task_ok_def task_evolves_def updated_row_fields status_sets)

lemma safe_same_status:
  assumes "\<And>r. t_task_id (f r) = t_task_id r \<and> t_status (f r) = t_status r \<and> t_worker_id (f r) = t_worker_id r
      \<and> t_upstream_task_id (f r) = t_upstream_task_id r \<and> t_upstream_base_url (f r) = t_upstream_base_url r
      \<and> t_result_key (f r) = t_result_key r \<and> t_completed_at (f r) = t_completed_at r
      \<and> t_dispatch_started_at (f r) = t_dispatch_started_at r \<and> t_source (f r) = t_source r
      \<and> t_payload_key (f r) = t_payload_key r \<and> t_options_blob (f r) = t_options_blob r
      \<and> t_created_at (f r) = t_created_at r"
  shows "safe_step cfg d (upd_task now tid f d)"
proof (rule safe_upd_task)
  fix row assume "task_ok row"
  with assms [of row] show "task_ok (save_task now f row) \<and> task_evolves row (f row)
      \<and> (t_status (f row) \<in> TASK_STATUSES_COMPUTE_CAPACITY \<longrightarrow>
           (\<exists>w. t_worker_id (f row) = Some w
              \<and> (t_status row \<in> TASK_STATUSES_COMPUTE_CAPACITY \<and> t_worker_id row = Some w
                 \<or> int (compute_load d w) < target_per_worker (scaling cfg))))"
    by (auto simp: task_ok_def task_evolves_def status_sets)
qed (use assms in simp)

lemma safe_defer: "safe_step cfg d (defer_task_poll now tid d)"
  unfolding defer_task_poll_def by (rule safe_same_status) simp

lemma safe_clear_cache_key: "safe_step cfg d (clear_cache_key now tid d)"
  unfolding clear_cache_key_def by (rule safe_same_status) simp

lemma safe_commit_fields [simp, intro]:
  assumes "\<And>r. worker_stamped r (f r)"
  shows "safe_step cfg d (commit_fields now wid f d)"
  unfolding commit_fields_def
  by (rule safe_upd_worker) (rule worker_stamped_trans [OF assms worker_stamped_updated])

lemma safe_apply_upstream:
  assumes "get_task tid d = Some row" "t_status row = TASK_PROCESSING"
  shows "safe_step cfg d (upd_task now tid (updated_row now p) d)"
proof (rule safe_upd_task)
  fix row' assume "get_task tid d = Some row'" "task_ok row'"
  then have st: "t_status row' = TASK_PROCESSING" "task_ok row'" using assms by simp_all
  then obtain w where "t_worker_id row' = Some w" by (auto simp: task_ok_def)
  with st show "task_ok (save_task now (updated_row now p) row') \<and> task_evolves row' (updated_row now p row')
      \<and> (t_status (updated_row now p row') \<in> TASK_STATUSES_COMPUTE_CAPACITY \<longrightarrow>
           (\<exists>w. t_worker_id (updated_row now p row') = Some w
              \<and> (t_status row' \<in> TASK_STATUSES_COMPUTE_CAPACITY \<and> t_worker_id row' = Some w
                 \<or> int (compute_load d w) < target_per_worker (scaling cfg))))"
    by (simp add: updated_row_ok updated_row_fields(2) TASK_STATUSES_COMPUTE_CAPACITY_def)
qed (simp add: updated_row_fields)

lemma refresh_cases:
  obtains
    (same) "snd (refresh_task_from_upstream now poll tid d) = d"
  | (deferred) "snd (refresh_task_from_upstream now poll tid d) = defer_task_poll now tid d"
  | (applied) row p where "get_task tid d = Some row" "t_status row \<notin> TASK_STATUSES_TERMINAL"
      "truthy (t_upstream_task_id row)"
      "snd (refresh_task_from_upstream now poll tid d)
        = upd_task now tid (\<lambda>r. r\<lparr>t_next_poll_at := None\<rparr>) (upd_task now tid (updated_row now p) d)"
proof (cases "get_task tid d")
  case None
  then show ?thesis by (intro same) (simp add: refresh_task_from_upstream_def)
next
  case (Some row)
  let ?url = "the (t_upstream_base_url row) @ ''/tasks/'' @ the (t_upstream_task_id row)"
  show ?thesis
  proof (cases "t_status row \<in> TASK_STATUSES_TERMINAL \<or> \<not> truthy (t_upstream_task_id row)
      \<or> \<not> truthy (t_upstream_base_url row)")
    case True
    then show ?thesis by (intro same) (auto simp: refresh_task_from_upstream_def Some)
  next
    case False
    then show ?thesis
    proof (cases "poll ?url")
      case None
      then show ?thesis using False by (intro deferred) (simp add: refresh_task_from_upstream_def Some)
    next
      case (Some p)
      then show ?thesis using False \<open>get_task tid d = Some row\<close>
        by (intro applied [of row p])
          (simp_all add: refresh_task_from_upstream_def apply_upstream_payload_task_def Let_def
            get_task_upd updated_row_fields)
    qed
  qed
qed

lemma safe_refresh:
  assumes "tasks_ok d" and "\<And>row. get_task tid d = Some row \<Longrightarrow> t_status row \<noteq> TASK_STORING_RESULT"
  shows "safe_step cfg d (snd (refresh_task_from_upstream now poll tid d))"
proof (cases rule: refresh_cases [of now poll tid d])
  case (applied row p)
  have "task_ok row" using assms(1) get_task_Some [OF applied(1)] by (simp add: tasks_ok_def list_all_iff)
  then have "t_status row = TASK_PROCESSING"
    using applied(2,3) assms(2) [OF applied(1)]
    by (cases "t_status row") (auto simp: task_ok_def status_sets)
  then have "safe_step cfg d (upd_task now tid (updated_row now p) d)"
    using safe_apply_upstream applied(1) by blast
  moreover have "safe_step cfg (upd_task now tid (updated_row now p) d)
      (upd_task now tid (\<lambda>r. r\<lparr>t_next_poll_at := None\<rparr>) (upd_task now tid (updated_row now p) d))"
    by (rule safe_same_status) simp
  ultimately show ?thesis unfolding applied(4) by (rule safe_step_trans)
qed (simp_all add: safe_defer)

lemma refresh_other:
  "k \<noteq> tid \<Longrightarrow> get_task k (snd (refresh_task_from_upstream now poll tid d)) = get_task k d"
  by (cases rule: refresh_cases [of now poll tid d])
    (simp_all add: defer_task_poll_def get_task_upd updated_row_fields)

lemma sync_one_step:
  "snd (sync_one now poll tk d) = snd (refresh_task_from_upstream now poll (t_task_id tk) d)
   \<or> (\<exists>wid. snd (sync_one now poll tk d) = commit_fields now wid (\<lambda>w. w\<lparr>w_last_active_at := Some now\<rparr>)
          (snd (refresh_task_from_upstream now poll (t_task_id tk) d)))"
  by (cases "refresh_task_from_upstream now poll (t_task_id tk) d")
    (auto simp: sync_one_def split: option.splits)

lemma sync_one_safe:
  assumes "safe_step cfg d (snd (refresh_task_from_upstream now poll (t_task_id tk) d))"
  shows "safe_step cfg d (snd (sync_one now poll tk d))"
  using sync_one_step [of now poll tk d]
proof
  assume "\<exists>wid. snd (sync_one now poll tk d) = commit_fields now wid (\<lambda>w. w\<lparr>w_last_active_at := Some now\<rparr>)
          (snd (refresh_task_from_upstream now poll (t_task_id tk) d))"
  then obtain wid where "snd (sync_one now poll tk d) = commit_fields now wid (\<lambda>w. w\<lparr>w_last_active_at := Some now\<rparr>)
          (snd (refresh_task_from_upstream now poll (t_task_id tk) d))" ..
  then show ?thesis using safe_step_trans [OF assms safe_commit_fields] by simp
qed (use assms in simp)

lemma sync_one_other:
  assumes "k \<noteq> t_task_id tk"
  shows "get_task k (snd (sync_one now poll tk d)) = get_task k d"
  using sync_one_step [of now poll tk d] refresh_other [OF assms, of now poll d]
  by (auto simp: commit_fields_def)

lemma sync_all_safe:
  assumes "tasks_ok d" and "distinct (map t_task_id tks)"
    and "\<And>tk row. tk \<in> set tks \<Longrightarrow> get_task (t_task_id tk) d = Some row \<Longrightarrow> t_status row \<noteq> TASK_STORING_RESULT"
  shows "safe_step cfg d (snd (sync_all clock poll i tks d))"
  using assms
proof (induction clock poll i tks d rule: sync_all.induct)
  case (2 clock poll i tk tks d)
  obtain b d1 where one: "sync_one (clock i) (poll i) tk d = (b, d1)" by (cases "sync_one (clock i) (poll i) tk d")
  have "safe_step cfg d (snd (refresh_task_from_upstream (clock i) (poll i) (t_task_id tk) d))"
    by (rule safe_refresh) (use "2.prems" in auto)
  then have S1: "safe_step cfg d d1" using sync_one_safe one by (metis snd_conv)
  have same: "get_task (t_task_id x) d1 = get_task (t_task_id x) d" if "x \<in> set tks" for x
  proof -
    have "t_task_id x \<noteq> t_task_id tk" using that "2.prems"(2) by (auto simp: image_iff)
    from sync_one_other [OF this, of "clock i" "poll i" d] show ?thesis by (simp add: one)
  qed
  have "safe_step cfg d1 (snd (sync_all clock poll (Suc i) tks d1))"
  proof (rule "2.IH" [OF one [symmetric]])
    show "tasks_ok d1" using S1 "2.prems"(1) by (simp add: safe_step_def)
    show "distinct (map t_task_id tks)" using "2.prems"(2) by simp
    show "\<And>x row. x \<in> set tks \<Longrightarrow> get_task (t_task_id x) d1 = Some row \<Longrightarrow> t_status row \<noteq> TASK_STORING_RESULT"
      using "2.prems"(3) same by (metis list.set_intros(2))
  qed
  then have "safe_step cfg d (snd (sync_all clock poll (Suc i) tks d1))" by (rule safe_step_trans [OF S1])
  then show ?case by (simp add: one split: prod.splits) (metis snd_conv)
qed simp

lemma db_select_distinct:
  assumes "distinct (map key rows)" shows "distinct (map key (db_select P ord n rows))"
proof -
  have "distinct (map key (sort_key ord (filter P rows)))"
    using assms by (simp add: distinct_map inj_on_def)
  then show ?thesis by (simp add: db_select_def take_map [symmetric])
qed

lemma sync_safe:
  assumes "tasks_ok d"
  shows "safe_step cfg d (snd (sync_dispatched_task_statuses now clock poll n d))"
  unfolding sync_dispatched_task_statuses_def
proof (rule sync_all_safe [OF assms])
  let ?tks = "db_select (sync_clause now) (\<lambda>t. (t_next_poll_at t, t_updated_at t)) n (db_tasks d)"
  have wf: "db_wf d" using assms by (simp add: tasks_ok_def)
  then show "distinct (map t_task_id ?tks)" by (intro db_select_distinct) (simp add: db_wf_def)
  fix tk row assume "tk \<in> set ?tks" "get_task (t_task_id tk) d = Some row"
  then have "row = tk" "sync_clause now tk" using db_select_set get_task_mem [OF wf] by fastforce+
  then show "t_status row \<noteq> TASK_STORING_RESULT" by (auto simp: sync_clause_def)
qed

text \<open>The dispatch loop with a bound on the number of attempts.\<close>

fun submit_fuel ::
    "nat \<Rightarrow> gateway_settings \<Rightarrow> ('s, 'p) dispatch_env \<Rightarrow> task \<Rightarrow> nat \<Rightarrow> worker \<Rightarrow> string set \<Rightarrow> 's \<Rightarrow> db
      \<Rightarrow> ((exc + bool) \<times> 's \<times> db) option" where
  "submit_fuel 0 cfg env tk i w excluded s d = None"
| "submit_fuel (Suc n) cfg env tk i w excluded s d =
    (case submit_attempt cfg env tk i w excluded s d of
       (Done r, s', d') \<Rightarrow> Some (r, s', d')
     | (Again w', s', d') \<Rightarrow> submit_fuel n cfg env tk (Suc i) w' (insert (w_id w) excluded) s' d')"

lemma submit_fuel_enough:
  "card (worker_ids d - insert (w_id w) ex) < n \<Longrightarrow>
    submit_fuel n cfg env tk i w ex s d = Some (submit_loop cfg env tk i w ex s d)"
proof (induction n arbitrary: i w ex s d)
  case (Suc n)
  obtain st s1 d1 where att: "submit_attempt cfg env tk i w ex s d = (st, s1, d1)"
    by (cases "submit_attempt cfg env tk i w ex s d")
  show ?case
  proof (cases st)
    case (Done r)
    then show ?thesis using att by (simp add: submit_loop.simps [of cfg env tk i w ex s d])
  next
    case (Again w')
    then show ?thesis
      using Suc.IH [of d1 w' "insert (w_id w) ex" "Suc i" s1] submit_attempt_measure [of w' s1 d1 cfg env tk i w ex s d]
        att Suc.prems
      by (simp add: submit_loop.simps [of cfg env tk i w ex s d])
  qed
qed simp

text \<open>A database with one serviceable worker and one queued task, on which the properties are
  evaluated, and an environment in which every submission is accepted.\<close>

definition example_task :: task where
  "example_task = (new_task ''t1'' 0)\<lparr>t_payload_key := Some ''payloads/t1.bin''\<rparr>"

definition example_db :: db where
  "example_db = empty_db\<lparr>db_workers := [example_worker], db_tasks := [example_task]\<rparr>"

definition example_env :: "(unit, unit) dispatch_env" where
  "example_env = \<lparr>de_clock = \<lambda>_. 20, de_locked = \<lambda>_ _. False, de_rebuild = \<lambda>_ s. (Inr (Some ()), s),
     de_submit = \<lambda>_ _ _. Inr (Some ''u1'', Some ''queued'')\<rparr>"

definition example_claimed :: db where
  "example_claimed = example_db\<lparr>db_tasks := [dispatching_on 10 ''cloud-1'' example_task]\<rparr>"

lemma example_wf: "tasks_ok example_db"
  by code_simp

lemma example_claim:
  "\<exists>a ds' d'. claim_next_dispatch default_settings 9 (\<lambda>_. False) (\<lambda>_. False) None example_db = (Some a, ds', d')"
proof -
  have "fst (claim_next_dispatch default_settings 9 (\<lambda>_. False) (\<lambda>_. False) None example_db) \<noteq> None"
    by code_simp
  then show ?thesis by (metis option.exhaust prod.collapse)
qed

section \<open>Properties\<close>

text \<open>C5: Claiming is first-in-first-out and picks a worker with a free slot. The claimed task is an
  unlocked queued task no older queued task precedes, it becomes the only row that changes, bound to
  a serviceable worker below its limit; nothing is claimed exactly when no unlocked task is queued or
  no worker is dispatchable, and then the database is unchanged.\<close>

theorem claim_next_dispatch_correct:
  assumes "db_wf d" and "claim_next_dispatch cfg now lt lw ds d = (r, ds', d')"
  shows "case r of
     None \<Rightarrow> d' = d \<and> ({t \<in> set (db_tasks d). queued_clause t \<and> \<not> lt (t_task_id t)} = {}
         \<or> {w \<in> set (db_workers d). dispatchable_clause cfg d w \<and> \<not> lw (w_id w)} = {})
   | Some (tk, w) \<Rightarrow>
       (\<exists>c \<in> set (db_tasks d). queued_clause c \<and> \<not> lt (t_task_id c) \<and> t_task_id c = t_task_id tk
          \<and> {t \<in> set (db_tasks d). queued_clause t \<and> \<not> lt (t_task_id t) \<and> t_created_at t < t_created_at c} = {})
       \<and> get_task (t_task_id tk) d' = Some tk
       \<and> t_status tk = TASK_DISPATCHING \<and> t_worker_id tk = Some (w_id w) \<and> t_dispatch_started_at tk = Some now
       \<and> serviceable_clause cfg w \<and> int (compute_load d (w_id w)) < target_per_worker (scaling cfg)
       \<and> (\<forall>k. k \<noteq> t_task_id tk \<longrightarrow> get_task k d' = get_task k d)"
proof (cases r)
  case None
  with assms(2) have "d' = d \<and> (db_first (\<lambda>t. queued_clause t \<and> \<not> lt (t_task_id t)) t_created_at (db_tasks d) = None
      \<or> acquire_dispatchable cfg now lw {} d = None)"
    by (auto simp: claim_next_dispatch_def split: option.splits prod.splits)
  then show ?thesis using None by (auto simp: db_first_None acquire_None)
next
  case (Some a)
  obtain tk w where a: "r = Some (tk, w)" using Some by (cases a) simp
  from assms(2) [unfolded a] obtain c d1 where c: "c \<in> set (db_tasks d)" "queued_clause c" "\<not> lt (t_task_id c)"
    and first: "\<And>t. t \<in> set (db_tasks d) \<Longrightarrow> queued_clause t \<Longrightarrow> \<not> lt (t_task_id t) \<Longrightarrow> t_created_at c \<le> t_created_at t"
    and acq: "acquire_dispatchable cfg now lw {} d = Some (w, d1)"
    and tk: "tk = save_task now (dispatching_on now (w_id w)) c"
    and d': "d' = upd_task now (t_task_id c) (dispatching_on now (w_id w)) d1"
    by (elim claim_SomeD) (rule that; assumption)
  from acq obtain v where v: "dispatchable_clause cfg d v"
    "w = save_worker now (\<lambda>r. r\<lparr>w_last_active_at := Some now\<rparr>) v"
    by (rule acquire_SomeD)
  have "serviceable_clause cfg w \<and> int (compute_load d (w_id w)) < target_per_worker (scaling cfg)"
    using v by (simp add: dispatchable_clause_def serviceable_clause_def deployment_clause_def)
  moreover have "{t \<in> set (db_tasks d). queued_clause t \<and> \<not> lt (t_task_id t) \<and> t_created_at t < t_created_at c} = {}"
    using first by force
  moreover have "\<forall>k. k \<noteq> t_task_id tk \<longrightarrow> get_task k d' = get_task k d"
    using get_task_same [OF acquire_load(3) [OF acq]] by (simp add: d' tk get_task_upd)
  moreover have "t_task_id c = t_task_id tk" "t_status tk = TASK_DISPATCHING" "t_worker_id tk = Some (w_id w)"
    "t_dispatch_started_at tk = Some now" by (simp_all add: tk dispatching_on_def)
  ultimately show ?thesis
    unfolding a option.case prod.case
    using c claim_claimed(1) [OF assms(2) [unfolded a] assms(1)] by blast
qed

theorem claim_next_dispatch_correct_witness:
  "\<exists>tk w ds' d'. claim_next_dispatch default_settings 9 (\<lambda>_. False) (\<lambda>_. False) None example_db
      = (Some (tk, w), ds', d') \<and> t_status tk = TASK_DISPATCHING \<and> t_worker_id tk = Some (w_id w)
      \<and> get_task (t_task_id tk) d' = Some tk \<and> serviceable_clause default_settings w"
proof -
  obtain a ds' d' where eq: "claim_next_dispatch default_settings 9 (\<lambda>_. False) (\<lambda>_. False) None example_db
      = (Some a, ds', d')" using example_claim by blast
  have wf: "db_wf example_db" using example_wf by (simp add: tasks_ok_def)
  from claim_next_dispatch_correct [OF wf eq] eq show ?thesis by (cases a) auto
qed

text \<open>C6: A dispatch always ends with the task accounted for. When it reports success the task carries
  the worker's task id and address and is being processed, stored or already rejected by the worker;
  when it reports failure the task is back in the queue or failed; and when an exception escapes,
  the claim still stands, so that it can be recovered.\<close>

theorem submit_claimed_task_outcome:
  assumes "claimed (t_task_id tk) (w_id w) d" and "submit_claimed_task cfg env tk w s d = (r, s', d')"
  shows "dispatch_result (t_task_id tk) r d'"
  using submit_loop_safe [OF assms(1) assms(2) [unfolded submit_claimed_task_def]] by (rule conjunct2)

theorem submit_claimed_task_outcome_witness:
  "claimed ''t1'' ''cloud-1'' example_claimed
   \<and> dispatch_result ''t1'' (Inr True)
       (snd (snd (submit_claimed_task default_settings example_env (dispatching_on 10 ''cloud-1'' example_task)
          example_worker () example_claimed)))"
proof -
  let ?tk = "dispatching_on 10 ''cloud-1'' example_task"
  have c: "claimed (t_task_id ?tk) (w_id example_worker) example_claimed" by code_simp
  have r: "fst (submit_claimed_task default_settings example_env ?tk example_worker () example_claimed) = Inr True"
    by code_simp
  obtain s' d' where eq: "submit_claimed_task default_settings example_env ?tk example_worker () example_claimed
      = (Inr True, s', d')" using r by (metis prod.collapse)
  have ids: "t_task_id ?tk = ''t1''" "w_id example_worker = ''cloud-1''" by code_simp+
  show ?thesis
    using submit_claimed_task_outcome [OF c eq] c ids eq by simp
qed

text \<open>C37: The dispatch loop ends after at most one attempt per known worker plus one: with that much
  fuel the bounded loop returns what the unbounded one returns.\<close>

theorem submit_claimed_task_terminates:
  "submit_fuel (Suc (length (db_workers d))) cfg env tk 0 w {} s d = Some (submit_claimed_task cfg env tk w s d)"
proof -
  have "card (worker_ids d - insert (w_id w) {}) \<le> card (worker_ids d)" by (intro card_mono) auto
  also have "\<dots> \<le> length (db_workers d)"
    using card_length [of "map w_id (db_workers d)"] by (simp add: worker_ids_def)
  finally show ?thesis
    unfolding submit_claimed_task_def by (intro submit_fuel_enough) simp
qed

text \<open>Stale-claim recovery requeues exactly the claims older than two minutes that never got an
  upstream task id, clears their worker and claim time, reports how many there were, and leaves
  every other task untouched.\<close>

lemma recover_stale_dispatch_claims_correct:
  "case recover_stale_dispatch_claims now d of (n, d') \<Rightarrow>
     n = length (filter (stale_claim now) (db_tasks d))
     \<and> list_all2 (\<lambda>t t'. if stale_claim now t
          then queued_clause t' = (t_upstream_base_url t = None) \<and> t_status t' = TASK_QUEUED \<and> t_worker_id t' = None
            \<and> t_dispatch_started_at t' = None \<and> t_task_id t' = t_task_id t \<and> t_created_at t' = t_created_at t
          else t' = t) (db_tasks d) (db_tasks d')
     \<and> {t \<in> set (db_tasks d'). stale_claim now t} = {}"
  by (auto simp: recover_stale_dispatch_claims_def db_count_def list_all2_conv_all_nth db_update_where_def
      requeued_def queued_clause_def stale_claim_def)

end
