(* ===== verification/Results.thy ===== *)
theory Results
  imports Task_Repo Cache
begin

text \<open>
  \<^verbatim>\<open>tasks/results.py\<close> and the result persistence of \<^verbatim>\<open>scheduler/task_repository.py\<close>: a
  finished task's result is fetched from its worker, stored as an object, and only then does the row
  point to it. What the worker answers to the fetch is an argument. The concurrent persistence of
  several tasks works on different rows; it is modelled in list order, with the transactions other
  processes commit during a cache population as the argument \<open>pe_interfere\<close>.
\<close>

section \<open>Definitions\<close>

definition store_result :: "'s store_ops \<Rightarrow> string \<Rightarrow> bytes \<Rightarrow> string \<Rightarrow> 's \<Rightarrow> (exc + string) \<times> 's" where
  "store_result store tid data result_format s =
    (let key = result_key tid result_format;
         content_type = (if result_format = RESULT_FORMAT_ZIP then ''application/zip'' else ''application/json'')
     in apfst (map_sum id (\<lambda>_. key)) (os_put store key data content_type None s))"

record persist_env =
  pe_clock :: "nat \<Rightarrow> time"
  pe_fetch :: "nat \<Rightarrow> string \<Rightarrow> exc + bytes"
  pe_generation :: "nat \<Rightarrow> string"
  pe_interfere :: "nat \<Rightarrow> db \<Rightarrow> db"

text \<open>\<open>i\<close> numbers the fetches of one pass; \<open>cached\<close> says whether a cache service was given.\<close>

definition fetch_and_store_result ::
    "'s store_ops \<Rightarrow> persist_env \<Rightarrow> bool \<Rightarrow> nat \<Rightarrow> string \<Rightarrow> string \<Rightarrow> string \<Rightarrow> 's \<Rightarrow> db
      \<Rightarrow> (exc + string \<times> bytes) \<times> 's \<times> db" where
  "fetch_and_store_result store env cached i tid upstream_task_id upstream_base_url s d =
    (case pe_fetch env i (upstream_base_url @ ''/tasks/'' @ upstream_task_id @ ''/result'') of
       Inl e \<Rightarrow> (Inl e, s, d)
     | Inr content \<Rightarrow>
         (case store_result store tid content RESULT_FORMAT_ZIP s of
            (Inl e, s1) \<Rightarrow> (Inl e, s1, d)
          | (Inr key, s1) \<Rightarrow>
              (case complete_with_result (pe_clock env i) tid key RESULT_FORMAT_ZIP d of
                 Inl e \<Rightarrow> (Inl e, snd (safe_delete store (Some key) s1), d)
               | Inr (cache_key, d1) \<Rightarrow>
                   if cached \<and> truthy cache_key
                   then (case populate_from_task store (pe_interfere env i) (pe_generation env i) tid (the cache_key)
                                RESULT_FORMAT_ZIP s1 d1 of
                           (_, s2, d2) \<Rightarrow> (Inr (key, content), s2, d2))
                   else (Inr (key, content), s1, d1))))"

definition read_result :: "'s store_ops \<Rightarrow> string \<Rightarrow> 's \<Rightarrow> db \<Rightarrow> (exc + bytes \<times> string option) \<times> 's" where
  "read_result store tid s d =
    (case get_task tid d of
       None \<Rightarrow> (Inl (KeyError tid), s)
     | Some row \<Rightarrow>
         (case t_result_key row of
            None \<Rightarrow> (Inl (KeyError tid), s)
          | Some key \<Rightarrow> apfst (map_sum id (\<lambda>data. (data, t_result_format row))) (os_get store key s)))"

definition persist_one :: "'s store_ops \<Rightarrow> persist_env \<Rightarrow> bool \<Rightarrow> nat \<Rightarrow> task \<Rightarrow> 's \<Rightarrow> db \<Rightarrow> nat \<times> nat \<times> 's \<times> db" where
  "persist_one store env cached i tk s d =
    (if \<not> truthy (t_upstream_task_id tk) \<or> \<not> truthy (t_upstream_base_url tk) then (0, 0, s, d)
     else (case fetch_and_store_result store env cached i (t_task_id tk) (the (t_upstream_task_id tk))
                  (the (t_upstream_base_url tk)) s d of
             (Inr _, s', d') \<Rightarrow> (1, 0, s', d')
           | (Inl _, s', d') \<Rightarrow> (0, 1, s', defer_task_poll (pe_clock env i) (t_task_id tk) d')))"

fun persist_pending_results ::
    "'s store_ops \<Rightarrow> persist_env \<Rightarrow> bool \<Rightarrow> nat \<Rightarrow> task list \<Rightarrow> 's \<Rightarrow> db \<Rightarrow> nat \<times> nat \<times> 's \<times> db" where
  "persist_pending_results store env cached i [] s d = (0, 0, s, d)"
| "persist_pending_results store env cached i (tk # tks) s d =
    (case persist_one store env cached i tk s d of
       (st, fl, s', d') \<Rightarrow>
         (case persist_pending_results store env cached (Suc i) tks s' d' of
            (stored, failed, s'', d'') \<Rightarrow> (st + stored, fl + failed, s'', d'')))"

section \<open>Lemmas\<close>

lemma complete_with_result_cases:
  "complete_with_result now tid key fmt d =
    (case get_task tid d of None \<Rightarrow> Inl (KeyError tid)
     | Some row \<Rightarrow> Inr (t_cache_key row, upd_task now tid (\<lambda>r. r\<lparr>t_result_key := Some key,
           t_result_format := Some fmt, t_status := TASK_COMPLETED,
           t_completed_at := (if t_completed_at r = None then Some now else t_completed_at r)\<rparr>) d))"
  by (simp add: complete_with_result_def)

lemma complete_safe:
  assumes "get_task tid d = Some row" and "t_status row = TASK_STORING_RESULT"
    and "complete_with_result now tid key fmt d = Inr (ck, d')"
  shows "safe_step cfg d d'"
proof -
  let ?f = "\<lambda>r. r\<lparr>t_result_key := Some key, t_result_format := Some fmt, t_status := TASK_COMPLETED,
           t_completed_at := (if t_completed_at r = None then Some now else t_completed_at r)\<rparr>"
  have "safe_step cfg d (upd_task now tid ?f d)"
    by (rule safe_upd_task) (use assms(1,2) in \<open>auto simp: task_ok_def task_evolves_def status_sets\<close>)
  then show ?thesis using assms by (simp add: complete_with_result_def)
qed

lemma publish_tables: "db_tasks (snd (publish_object ck g dest fmt d)) = db_tasks d"
    "db_workers (snd (publish_object ck g dest fmt d)) = db_workers d"
  by (simp_all add: publish_object_def Let_def)

lemma publish_wf: "db_wf d \<Longrightarrow> db_wf (snd (publish_object ck g dest fmt d))"
  by (simp add: publish_object_def Let_def db_wf_def db_update_where_keys)

lemma populate_id_cases:
  assumes "populate_from_task store (\<lambda>d. d) g tid ck fmt s d = (r, s', d')"
  shows "d' = d \<or> (\<exists>e. d' = snd (publish_object ck e (cache_object_key ck (Some g)) fmt d))"
proof -
  let ?dest = "cache_object_key ck (Some g)"
  obtain c s1 where copy: "os_copy store (result_key tid RESULT_FORMAT_ZIP) ?dest s = (c, s1)"
    by (cases "os_copy store (result_key tid RESULT_FORMAT_ZIP) ?dest s")
  show ?thesis
  proof (cases c)
    case (Inl e)
    then show ?thesis using assms copy by (cases e) (simp_all add: populate_from_task_def)
  next
    case (Inr u)
    then show ?thesis using assms copy
      by (cases "get_cache_row ck d")
        (auto simp: populate_from_task_def Let_def split: prod.splits if_splits, metis snd_conv)
  qed
qed

lemma populate_contents:
  assumes "object_store store contents"
    and "populate_from_task store (\<lambda>d. d) g tid ck fmt s d = (r, s', d')"
    and "k \<noteq> cache_object_key ck (Some g)"
  shows "contents s' k = contents s k"
proof -
  let ?dest = "cache_object_key ck (Some g)"
  obtain c s1 where copy: "os_copy store (result_key tid RESULT_FORMAT_ZIP) ?dest s = (c, s1)"
    by (cases "os_copy store (result_key tid RESULT_FORMAT_ZIP) ?dest s")
  have "contents s1 k = contents s k" using object_store.copy_frame [OF assms(1) copy assms(3)] .
  moreover have "contents (snd (safe_delete store (Some ?dest) s1)) k = contents s1 k"
    using object_store.safe_delete_frame [OF assms(1), of "Some ?dest" s1 _ _ k] assms(3) by (metis option.inject prod.collapse)
  moreover have "s' = s1 \<or> s' = snd (safe_delete store (Some ?dest) s1)"
  proof (cases c)
    case (Inl e)
    then show ?thesis using assms(2) copy by (cases e) (simp_all add: populate_from_task_def)
  next
    case (Inr u)
    then show ?thesis using assms(2) copy
      by (cases "get_cache_row ck d") (auto simp: populate_from_task_def Let_def split: prod.splits if_splits)
  qed
  ultimately show ?thesis by auto
qed

lemma populate_safe:
  assumes "populate_from_task store (\<lambda>d. d) g tid ck fmt s d = (r, s', d')"
  shows "safe_step cfg d d'" "db_tasks d' = db_tasks d"
proof -
  from populate_id_cases [OF assms]
  have "safe_step cfg d d' \<and> db_tasks d' = db_tasks d"
    by (auto simp: safe_step_def tasks_ok_def task_count_def publish_tables list_all2_refl intro: publish_wf)
  then show "safe_step cfg d d'" "db_tasks d' = db_tasks d" by blast+
qed

lemma fetch_cases [consumes 1, case_names failed stored]:
  assumes "fetch_and_store_result store env cached i tid uid base s d = (r, s', d')"
  obtains (failed) e where "r = Inl e" "d' = d"
  | (stored) content n s1 ck d1 where "r = Inr (result_key tid ''zip'', content)"
      "pe_fetch env i (base @ ''/tasks/'' @ uid @ ''/result'') = Inr content"
      "os_put store (result_key tid ''zip'') content ''application/zip'' None s = (Inr n, s1)"
      "complete_with_result (pe_clock env i) tid (result_key tid ''zip'') ''zip'' d = Inr (ck, d1)"
      "s' = s1 \<and> d' = d1 \<or> (\<exists>q. populate_from_task store (pe_interfere env i) (pe_generation env i) tid (the ck)
          ''zip'' s1 d1 = (q, s', d'))"
proof (cases "pe_fetch env i (base @ ''/tasks/'' @ uid @ ''/result'')")
  case (Inl e)
  then show ?thesis using assms by (intro failed [of e]) (simp_all add: fetch_and_store_result_def)
next
  case (Inr content)
  note F = this
  let ?key = "result_key tid ''zip''"
  obtain p s1 where put: "os_put store ?key content ''application/zip'' None s = (p, s1)"
    by (cases "os_put store ?key content ''application/zip'' None s")
  have store: "store_result store tid content ''zip'' s = (map_sum id (\<lambda>_. ?key) p, s1)"
    by (simp add: store_result_def RESULT_FORMAT_ZIP_def put)
  note D = assms [unfolded fetch_and_store_result_def F sum.case RESULT_FORMAT_ZIP_def store prod.case]
  show ?thesis
  proof (cases p)
    case (Inl e)
    then show ?thesis using D by (intro failed [of e]) simp_all
  next
    case (Inr n)
    note P = this
    show ?thesis
    proof (cases "complete_with_result (pe_clock env i) tid ?key ''zip'' d")
      case (Inl e)
      then show ?thesis using D P by (intro failed [of e]) simp_all
    next
      case (Inr c)
      obtain ck d1 where c: "c = (ck, d1)" by (cases c)
      have "r = Inr (?key, content)"
        "s' = s1 \<and> d' = d1 \<or> (\<exists>q. populate_from_task store (pe_interfere env i) (pe_generation env i) tid (the ck)
          ''zip'' s1 d1 = (q, s', d'))"
        using D P Inr c by (auto split: if_splits prod.splits)
      then show ?thesis using stored F put P Inr c by simp
    qed
  qed
qed

lemma fetch_safe:
  assumes "fetch_and_store_result store env cached i tid uid base s d = (r, s', d')"
    and "pe_interfere env i = (\<lambda>d. d)"
    and "\<And>row. get_task tid d = Some row \<Longrightarrow> t_status row = TASK_STORING_RESULT"
  shows "safe_step cfg d d'" and "k \<noteq> tid \<Longrightarrow> get_task k d' = get_task k d"
proof -
  show "safe_step cfg d d'"
  using assms(1)
  proof (cases rule: fetch_cases)
    case (stored content n s1 ck d1)
    from stored(4) obtain row where row: "get_task tid d = Some row"
      by (auto simp: complete_with_result_def split: option.splits)
    have "safe_step cfg d d1" using complete_safe [OF row assms(3) [OF row] stored(4)] .
    then show ?thesis using stored(5) populate_safe(1) safe_step_trans assms(2) by metis
  qed simp
  show "get_task k d' = get_task k d" if "k \<noteq> tid"
  using assms(1)
  proof (cases rule: fetch_cases)
    case (stored content n s1 ck d1)
    have "get_task k d1 = get_task k d"
      using stored(4) that by (auto simp: complete_with_result_def get_task_upd split: option.splits)
    then show ?thesis using stored(5) populate_safe(2) get_task_same assms(2) by metis
  qed simp
qed

lemma persist_one_safe:
  assumes "persist_one store env cached i tk s d = (st, fl, s', d')"
    and "pe_interfere env i = (\<lambda>d. d)"
    and "\<And>row. get_task (t_task_id tk) d = Some row \<Longrightarrow> t_status row = TASK_STORING_RESULT"
  shows "safe_step cfg d d'" and "k \<noteq> t_task_id tk \<Longrightarrow> get_task k d' = get_task k d"
proof -
  obtain r s1 d1 where F: "fetch_and_store_result store env cached i (t_task_id tk) (the (t_upstream_task_id tk))
      (the (t_upstream_base_url tk)) s d = (r, s1, d1)"
    by (cases "fetch_and_store_result store env cached i (t_task_id tk) (the (t_upstream_task_id tk))
      (the (t_upstream_base_url tk)) s d")
  note S = fetch_safe [OF F assms(2,3)]
  have d': "d' = d \<or> d' = d1 \<or> d' = defer_task_poll (pe_clock env i) (t_task_id tk) d1"
    using assms(1) F by (auto simp: persist_one_def split: if_splits sum.splits)
  show "safe_step cfg d d'" using d' S(1) safe_defer safe_step_trans safe_step_refl by metis
  show "k \<noteq> t_task_id tk \<Longrightarrow> get_task k d' = get_task k d"
    using d' S(2) by (auto simp: defer_task_poll_def get_task_upd)
qed

lemma persist_all_safe:
  assumes "persist_pending_results store env cached i tks s d = (n, m, s', d')"
    and "\<And>j. pe_interfere env j = (\<lambda>d. d)" and "distinct (map t_task_id tks)"
    and "\<And>tk row. tk \<in> set tks \<Longrightarrow> get_task (t_task_id tk) d = Some row \<Longrightarrow> t_status row = TASK_STORING_RESULT"
  shows "safe_step cfg d d'"
  using assms
proof (induction tks arbitrary: i s d n m)
  case (Cons tk tks)
  obtain st fl s1 d1 where one: "persist_one store env cached i tk s d = (st, fl, s1, d1)"
    by (cases "persist_one store env cached i tk s d")
  obtain st' fl' where rest: "persist_pending_results store env cached (Suc i) tks s1 d1 = (st', fl', s', d')"
    using Cons.prems(1) one by (auto split: prod.splits)
  have mem: "\<And>row. get_task (t_task_id tk) d = Some row \<Longrightarrow> t_status row = TASK_STORING_RESULT"
    using Cons.prems(4) [of tk] by simp
  note S = persist_one_safe [OF one Cons.prems(2) mem]
  have "safe_step cfg d1 d'"
  proof (rule Cons.IH [OF rest Cons.prems(2)])
    show "distinct (map t_task_id tks)" using Cons.prems(3) by simp
    fix x row assume x: "x \<in> set tks" "get_task (t_task_id x) d1 = Some row"
    have "t_task_id x \<noteq> t_task_id tk" using x Cons.prems(3) by (auto simp: image_iff)
    then have "get_task (t_task_id x) d = Some row" using S(2) x(2) by simp
    then show "t_status row = TASK_STORING_RESULT" using Cons.prems(4) [of x] x by simp
  qed
  then show ?case using S(1) safe_step_trans by blast
qed simp

lemma persist_safe:
  assumes "tasks_ok d" and "\<And>j. pe_interfere env j = (\<lambda>d. d)"
    and "persist_pending_results store env cached 0 (list_unstored_completed now lim d) s d = (n, m, s', d')"
  shows "safe_step cfg d d'"
proof (rule persist_all_safe [OF assms(3,2)])
  have wf: "db_wf d" using assms(1) by (simp add: tasks_ok_def)
  then show "distinct (map t_task_id (list_unstored_completed now lim d))"
    unfolding list_unstored_completed_def by (intro db_select_distinct) (simp add: db_wf_def)
  fix tk row assume "tk \<in> set (list_unstored_completed now lim d)" "get_task (t_task_id tk) d = Some row"
  then have "row = tk" "unstored_clause now tk"
    using db_select_set get_task_mem [OF wf] unfolding list_unstored_completed_def by fastforce+
  then show "t_status row = TASK_STORING_RESULT" by (auto simp: unstored_clause_def)
qed

section \<open>Properties\<close>

text \<open>C33: The result a client reads is the one the worker produced. When a result was fetched and
  stored, the task is completed, its row points to the stored object, and reading the task's result
  afterwards yields the worker's bytes and the format of the archive, whether or not the copy into
  the cache succeeded.\<close>

theorem fetch_then_read:
  assumes "object_store store contents"
    and "fetch_and_store_result store env cached i tid uid base s d = (Inr (key, content), s1, d1)"
    and "pe_interfere env i = (\<lambda>d. d)" and "pe_generation env i \<noteq> []"
    and "os_get store key s1 = (Inr data, s2)"
  shows "pe_fetch env i (base @ ''/tasks/'' @ uid @ ''/result'') = Inr content
    \<and> (\<exists>row. get_task tid d1 = Some row \<and> t_status row = TASK_COMPLETED \<and> t_result_key row = Some key)
    \<and> read_result store tid s1 d1 = (Inr (content, Some ''zip''), s2)"
using assms(2)
proof (cases rule: fetch_cases)
  case (stored content' n sa ck da)
  let ?key = "result_key tid ''zip''"
  have key: "key = ?key" "content' = content" using stored(1) by simp_all
  have "contents sa ?key = Some content" using object_store.put_ok [OF assms(1) stored(3)] key by simp
  moreover have "contents s1 ?key = contents sa ?key"
  proof -
    have ne: "?key \<noteq> cache_object_key (the ck) (Some (pe_generation env i))" using assms(4) by (simp add: key_shapes)
    show ?thesis
      using stored(5)
    proof
      assume "\<exists>q. populate_from_task store (pe_interfere env i) (pe_generation env i) tid (the ck) ''zip'' sa da = (q, s1, d1)"
      then obtain q where "populate_from_task store (\<lambda>d. d) (pe_generation env i) tid (the ck) ''zip'' sa da = (q, s1, d1)"
        unfolding assms(3) by blast
      then show ?thesis by (rule populate_contents [OF assms(1) _ ne])
    qed simp
  qed
  moreover have "contents s1 ?key = Some data" using object_store.get_ok [OF assms(1,5)] key by simp
  ultimately have "data = content" by simp
  have "get_task tid d1 = get_task tid da"
    using stored(5) populate_safe(2) get_task_same assms(3) by metis
  moreover from stored(4) obtain row where "get_task tid da = Some row" "t_status row = TASK_COMPLETED"
    "t_result_key row = Some ?key" "t_result_format row = Some ''zip''"
    by (auto simp: complete_with_result_def get_task_upd split: option.splits)
  ultimately show ?thesis
    using stored(2) key assms(5) \<open>data = content\<close> by (simp add: read_result_def)
qed simp

definition example_persist :: persist_env where
  "example_persist = \<lparr>pe_clock = \<lambda>_. 50, pe_fetch = \<lambda>_ _. Inr [7], pe_generation = \<lambda>_. ''g'', pe_interfere = \<lambda>_ d. d\<rparr>"

definition example_finished :: db where
  "example_finished = empty_db\<lparr>db_tasks := [(new_task ''t1'' 0)\<lparr>t_status := TASK_STORING_RESULT\<rparr>]\<rparr>"

theorem fetch_then_read_witness:
  "\<exists>key s1 d1. fetch_and_store_result example_store example_persist True 0 ''t1'' ''u1'' ''http://w'' Map.empty example_finished
      = (Inr (key, [7]), s1, d1)
    \<and> read_result example_store ''t1'' s1 d1 = (Inr ([7], Some ''zip''), s1)"
proof -
  let ?s1 = "Map.empty((''b'', ''results/t1.zip'') \<mapsto> [7])"
  obtain d1 where F: "fetch_and_store_result example_store example_persist True 0 ''t1'' ''u1'' ''http://w'' Map.empty
      example_finished = (Inr (''results/t1.zip'', [7]), ?s1, d1)"
    by (simp add: fetch_and_store_result_def store_result_def example_persist_def S3ObjectStore_def s3_put_def
        memory_client_def key_shapes RESULT_FORMAT_ZIP_def Let_def complete_with_result_def get_task_def db_get_def
        example_finished_def new_task_def)
  have get: "os_get example_store ''results/t1.zip'' ?s1 = (Inr [7], ?s1)"
    by (simp add: S3ObjectStore_def s3_get_def memory_client_def)
  have env: "pe_interfere example_persist 0 = (\<lambda>d. d)" "pe_generation example_persist 0 \<noteq> []"
    by (simp_all add: example_persist_def)
  from fetch_then_read [OF example_cache_facts(5) F env get] F show ?thesis by blast
qed

end
