(* ===== verification/Reconcile.thy ===== *)
theory Reconcile
  imports Worker_Repo
begin

text \<open>
  The reconciliation half of \<^verbatim>\<open>scheduler/scheduler.py\<close>: comparing the workers table with the VMs
  the cloud reports. \<open>compute_ops\<close> is the abstract class \<open>ComputeProvider\<close> of
  \<^verbatim>\<open>cloud/base.py\<close> on an opaque provider state \<open>'c\<close>. A \<open>world\<close> is the database, the provider
  state and the list of commands issued to the provider so far, so that what is started, stopped or
  terminated can be stated. One reconciliation reads the clock once (\<open>now\<close>). The workers the code
  holds as detached objects are passed along explicitly, because some steps change them in place.
  \<open>instance_id\<close> is a unique column: a write that would repeat one raises.
\<close>

section \<open>Definitions\<close>

record 'c compute_ops =
  cp_discover :: "string \<Rightarrow> 'c \<Rightarrow> (exc + DiscoveredInstance list) \<times> 'c"
  cp_launch :: "string \<Rightarrow> string \<Rightarrow> int \<Rightarrow> 'c \<Rightarrow> (exc + string) \<times> 'c"
  cp_start :: "string \<Rightarrow> 'c \<Rightarrow> (exc + unit) \<times> 'c"
  cp_stop :: "string \<Rightarrow> 'c \<Rightarrow> (exc + unit) \<times> 'c"
  cp_terminate :: "string \<Rightarrow> 'c \<Rightarrow> (exc + unit) \<times> 'c"
  cp_get_state :: "string \<Rightarrow> 'c \<Rightarrow> (exc + InstanceState) \<times> 'c"
  cp_get_private_ip :: "string \<Rightarrow> 'c \<Rightarrow> (exc + string option) \<times> 'c"

datatype provider_call = Launch string string int | Start string | Stop string | Terminate string

record 'c world =
  wd_db :: db
  wd_cloud :: 'c
  wd_calls :: "provider_call list"

text \<open>Sequencing: an exception ends the operation with the effects so far.\<close>

definition and_then :: "(exc + 'a) \<times> 'w \<Rightarrow> ('a \<Rightarrow> 'w \<Rightarrow> (exc + 'b) \<times> 'w) \<Rightarrow> (exc + 'b) \<times> 'w" where
  "and_then r k = (case r of (Inl e, w) \<Rightarrow> (Inl e, w) | (Inr x, w) \<Rightarrow> k x w)"

definition provider_query :: "('c \<Rightarrow> (exc + 'a) \<times> 'c) \<Rightarrow> 'c world \<Rightarrow> (exc + 'a) \<times> 'c world" where
  "provider_query f W = (case f (wd_cloud W) of (r, c') \<Rightarrow> (r, W\<lparr>wd_cloud := c'\<rparr>))"

definition provider_command ::
    "provider_call \<Rightarrow> ('c \<Rightarrow> (exc + 'a) \<times> 'c) \<Rightarrow> 'c world \<Rightarrow> (exc + 'a) \<times> 'c world" where
  "provider_command call f W =
    (case f (wd_cloud W) of (r, c') \<Rightarrow> (r, W\<lparr>wd_cloud := c', wd_calls := wd_calls W @ [call]\<rparr>))"

definition on_db :: "(db \<Rightarrow> db) \<Rightarrow> 'c world \<Rightarrow> 'c world" where
  "on_db f W = W\<lparr>wd_db := f (wd_db W)\<rparr>"

definition instance_taken :: "string \<Rightarrow> string \<Rightarrow> db \<Rightarrow> bool" where
  "instance_taken wid iid d \<longleftrightarrow> list_ex (\<lambda>w. w_id w \<noteq> wid \<and> w_instance_id w = Some iid) (db_workers d)"

text \<open>\<open>commit_fields\<close> with an \<open>instance_id\<close> among the fields.\<close>

definition commit_instance ::
    "time \<Rightarrow> string \<Rightarrow> string \<Rightarrow> (worker \<Rightarrow> worker) \<Rightarrow> 'c world \<Rightarrow> (exc + unit) \<times> 'c world" where
  "commit_instance now wid iid setattrs W =
    (if get_worker_row wid (wd_db W) \<noteq> None \<and> instance_taken wid iid (wd_db W)
     then (Inl (OtherException None ''IntegrityError: workers.instance_id''), W)
     else (Inr (), on_db (commit_fields now wid (\<lambda>r. (setattrs r)\<lparr>w_instance_id := Some iid\<rparr>)) W))"

subsection \<open>Discovery\<close>

definition is_managed :: "DiscoveredInstance \<Rightarrow> bool" where
  "is_managed inst \<longleftrightarrow> map_of (di_tags inst) TAG_MANAGED = Some ''true''
     \<and> map_of (di_tags inst) TAG_ROLE = Some TAG_ROLE_WORKER"

definition terminate_unowned_vm ::
    "'c compute_ops \<Rightarrow> time \<Rightarrow> DiscoveredInstance \<Rightarrow> string \<Rightarrow> 'c world \<Rightarrow> 'c world" where
  "terminate_unowned_vm provider now inst reason W =
    (if di_state inst \<in> {TERMINATING, TERMINATED} then W
     else (case provider_command (Terminate (di_instance_id inst)) (cp_terminate provider (di_instance_id inst)) W of
             (Inr _, W') \<Rightarrow> on_db (record_scaling_event_now now ''terminate'' reason None ''reconciliation'' None) W'
           | (Inl _, W') \<Rightarrow> W'))"

text \<open>The instance kept for a worker with several VMs: its own if still there, else the least id.\<close>

definition canonical_instance :: "DiscoveredInstance list \<Rightarrow> worker option \<Rightarrow> string" where
  "canonical_instance instances w =
    (let ids = map di_instance_id instances;
         least = (case sort ids of [] \<Rightarrow> [] | i # _ \<Rightarrow> i)
     in case w of
          None \<Rightarrow> least
        | Some w \<Rightarrow> (case w_instance_id w of
            Some iid \<Rightarrow> if iid \<noteq> [] \<and> iid \<in> set ids then iid else least
          | None \<Rightarrow> least))"

definition terminate_others ::
    "'c compute_ops \<Rightarrow> time \<Rightarrow> string \<Rightarrow> string \<Rightarrow> DiscoveredInstance list \<Rightarrow> 'c world \<Rightarrow> 'c world" where
  "terminate_others provider now wid canonical_id instances W =
     fold (\<lambda>inst W. if di_instance_id inst = canonical_id then W
        else terminate_unowned_vm provider now inst
               (''duplicate vm for worker '' @ wid @ '' (kept '' @ canonical_id @ '')'') W) instances W"

text \<open>Returns the kept instance and the workers with the changed object.\<close>

definition resolve_duplicate_vms ::
    "'c compute_ops \<Rightarrow> time \<Rightarrow> string \<Rightarrow> DiscoveredInstance list \<Rightarrow> worker list \<Rightarrow> 'c world
      \<Rightarrow> (exc + DiscoveredInstance \<times> worker list) \<times> 'c world" where
  "resolve_duplicate_vms provider now wid instances workers W =
    (let w = find (\<lambda>w. w_id w = wid) workers;
         canonical_id = canonical_instance instances w
     in case find (\<lambda>inst. di_instance_id inst = canonical_id) instances of
          None \<Rightarrow> (Inl (OtherException None ''StopIteration''), W)
        | Some primary \<Rightarrow>
            (case w of
               Some wk \<Rightarrow>
                 if w_instance_id wk \<noteq> Some canonical_id
                 then and_then (commit_instance now wid canonical_id
                          (\<lambda>r. r\<lparr>w_cloud_state := cloud_state_from_instance (di_state primary)\<rparr>) W)
                        (\<lambda>_ W'. (Inr (primary, map (\<lambda>v. if w_id v = wid then v\<lparr>w_instance_id := Some canonical_id\<rparr> else v) workers),
                                 terminate_others provider now wid canonical_id instances W'))
                 else (Inr (primary, workers), terminate_others provider now wid canonical_id instances W)
             | None \<Rightarrow> (Inr (primary, workers), terminate_others provider now wid canonical_id instances W)))"

text \<open>\<open>discovered_by_worker\<close>: the managed instances that carry a worker id, grouped by it in the order
  of first appearance.\<close>

definition owned_by :: "string \<Rightarrow> DiscoveredInstance list \<Rightarrow> DiscoveredInstance list" where
  "owned_by wid insts = filter (\<lambda>i. di_worker_id i = Some wid) insts"

definition discovered_worker_ids :: "DiscoveredInstance list \<Rightarrow> string list" where
  "discovered_worker_ids managed = rev (remdups (rev (map (\<lambda>i. the (di_worker_id i))
     (filter (\<lambda>i. truthy (di_worker_id i)) managed))))"

fun dedupe ::
    "'c compute_ops \<Rightarrow> time \<Rightarrow> DiscoveredInstance list \<Rightarrow> string list \<Rightarrow> (string \<times> DiscoveredInstance) list
      \<Rightarrow> worker list \<Rightarrow> 'c world \<Rightarrow> (exc + (string \<times> DiscoveredInstance) list \<times> worker list) \<times> 'c world" where
  "dedupe provider now managed [] primary workers W = (Inr (primary, workers), W)"
| "dedupe provider now managed (wid # wids) primary workers W =
    (case owned_by wid managed of
       [inst] \<Rightarrow> dedupe provider now managed wids (primary @ [(wid, inst)]) workers W
     | instances \<Rightarrow>
         and_then (resolve_duplicate_vms provider now wid instances workers W)
           (\<lambda>(inst, workers') W'. dedupe provider now managed wids (primary @ [(wid, inst)]) workers' W'))"

definition discover_and_dedupe ::
    "'c compute_ops \<Rightarrow> time \<Rightarrow> DiscoveredInstance list \<Rightarrow> worker list \<Rightarrow> 'c world
      \<Rightarrow> (exc + (string \<times> DiscoveredInstance) list \<times> worker list) \<times> 'c world" where
  "discover_and_dedupe provider now discovered workers W =
    (let managed = filter is_managed discovered
     in dedupe provider now managed (discovered_worker_ids managed) [] workers W)"

definition should_skip_reconcile :: "gateway_settings \<Rightarrow> time \<Rightarrow> worker \<Rightarrow> bool" where
  "should_skip_reconcile cfg now w \<longleftrightarrow>
     (w_failure_count w \<ge> max_failures cfg \<and> w_desired_state w \<noteq> CLOUD_STATE_TERMINATED)
     \<or> (w_failure_count w < max_failures cfg
        \<and> (case w_retry_after w of None \<Rightarrow> False | Some t \<Rightarrow> t > now))"

definition orphan_reason :: "DiscoveredInstance \<Rightarrow> string" where
  "orphan_reason inst = (if truthy (di_worker_id inst)
     then ''orphan vm for unknown worker '' @ the (di_worker_id inst) else ''managed vm missing worker id tag'')"

definition terminate_orphan_vms ::
    "'c compute_ops \<Rightarrow> time \<Rightarrow> DiscoveredInstance list \<Rightarrow> string set \<Rightarrow> 'c world \<Rightarrow> 'c world" where
  "terminate_orphan_vms provider now managed worker_ids W =
     fold (\<lambda>inst W. if truthy (di_worker_id inst) \<and> the (di_worker_id inst) \<in> worker_ids then W
        else terminate_unowned_vm provider now inst (orphan_reason inst) W) managed W"

subsection \<open>One worker\<close>

text \<open>\<open>_sync_discovered_state\<close>: the row and the object follow the discovered VM.\<close>

definition sync_discovered_state ::
    "time \<Rightarrow> worker \<Rightarrow> DiscoveredInstance \<Rightarrow> 'c world \<Rightarrow> (exc + worker) \<times> 'c world" where
  "sync_discovered_state now w inst W =
    and_then
      (if w_instance_id w \<noteq> Some (di_instance_id inst)
       then and_then (commit_instance now (w_id w) (di_instance_id inst) id W)
              (\<lambda>_ W'. (Inr (w\<lparr>w_instance_id := Some (di_instance_id inst)\<rparr>), W'))
       else (Inr w, W))
      (\<lambda>w W'.
        let st = cloud_state_from_instance (di_state inst) in
        if st \<noteq> CLOUD_STATE_UNKNOWN \<and> w_cloud_state w \<noteq> st
        then (Inr (w\<lparr>w_cloud_state := st\<rparr>), on_db (commit_fields now (w_id w) (\<lambda>r. r\<lparr>w_cloud_state := st\<rparr>)) W')
        else (Inr w, W'))"

text \<open>\<open>_ReconcileResult\<close>: whether to reset the cloud retries, and whether a failure was recorded.\<close>

type_synonym reconcile_result = "bool \<times> bool"

definition launch_missing_instance ::
    "'c compute_ops \<Rightarrow> time \<Rightarrow> worker \<Rightarrow> DiscoveredInstance option \<Rightarrow> 'c world \<Rightarrow> (exc + reconcile_result) \<times> 'c world" where
  "launch_missing_instance provider now w discovered W =
    (case discovered of
       Some inst \<Rightarrow>
         and_then (commit_instance now (w_id w) (di_instance_id inst)
             (\<lambda>r. r\<lparr>w_cloud_state := cloud_state_from_instance (di_state inst)\<rparr>) W)
           (\<lambda>_ W'. (Inr (True, False), W'))
     | None \<Rightarrow>
         and_then (provider_command (Launch (w_id w) (w_deployment_id w) (w_generation w))
             (cp_launch provider (w_id w) (w_deployment_id w) (w_generation w)) W)
           (\<lambda>iid W'. and_then (commit_instance now (w_id w) iid (\<lambda>r. r\<lparr>w_cloud_state := CLOUD_STATE_PENDING\<rparr>) W')
             (\<lambda>_ W''. (Inr (True, False), W''))))"

definition transition_power_state ::
    "'c compute_ops \<Rightarrow> time \<Rightarrow> worker \<Rightarrow> string \<Rightarrow> cloud_state \<Rightarrow> 'c world \<Rightarrow> (exc + reconcile_result option) \<times> 'c world" where
  "transition_power_state provider now w iid st W =
    (if w_desired_state w = CLOUD_STATE_RUNNING \<and> st = CLOUD_STATE_STOPPED
     then and_then (provider_command (Start iid) (cp_start provider iid) W)
       (\<lambda>_ W'. (Inr (Some (True, False)), on_db (commit_fields now (w_id w) (\<lambda>r. r\<lparr>w_cloud_state := CLOUD_STATE_PENDING,
          w_failure_count := 0, w_retry_after := None, w_start_requested_at := Some now, w_ready_at := None\<rparr>)) W'))
     else if w_desired_state w = CLOUD_STATE_STOPPED \<and> st = CLOUD_STATE_RUNNING
     then and_then (provider_command (Stop iid) (cp_stop provider iid) W)
       (\<lambda>_ W'. (Inr (Some (True, False)), on_db (commit_fields now (w_id w) (\<lambda>r. r\<lparr>w_cloud_state := CLOUD_STATE_STOPPING\<rparr>)) W'))
     else if w_desired_state w = CLOUD_STATE_TERMINATED \<and> st \<noteq> CLOUD_STATE_TERMINATED
     then and_then (provider_command (Terminate iid) (cp_terminate provider iid) W)
       (\<lambda>_ W'. (Inr (Some (True, False)), on_db (commit_fields now (w_id w) (\<lambda>r. r\<lparr>w_cloud_state := CLOUD_STATE_TERMINATING\<rparr>)) W'))
     else (Inr None, W))"

definition worker_base_url :: "string \<Rightarrow> string" where
  "worker_base_url ip = ''http://'' @ ip @ '':8000''"

definition record_failure_in ::
    "gateway_settings \<Rightarrow> time \<Rightarrow> string \<Rightarrow> string \<Rightarrow> bool \<Rightarrow> 'c world \<Rightarrow> (exc + unit) \<times> 'c world" where
  "record_failure_in cfg now wid err retryable W =
    (case record_failure cfg now wid err retryable (wd_db W) of
       Inl e \<Rightarrow> (Inl e, W)
     | Inr d' \<Rightarrow> (Inr (), W\<lparr>wd_db := d'\<rparr>))"

definition check_running_readiness ::
    "gateway_settings \<Rightarrow> 'c compute_ops \<Rightarrow> time \<Rightarrow> worker \<Rightarrow> string \<Rightarrow> 'c world \<Rightarrow> (exc + bool) \<times> 'c world" where
  "check_running_readiness cfg provider now w iid W =
    and_then (provider_query (cp_get_private_ip provider iid) W)
      (\<lambda>ip W'.
        let W1 = (if truthy ip \<and> w_base_url w \<noteq> Some (worker_base_url (the ip))
                  then on_db (commit_fields now (w_id w) (\<lambda>r. r\<lparr>w_base_url := Some (worker_base_url (the ip))\<rparr>)) W'
                  else W');
            deadline = (case w_start_requested_at w of Some t \<Rightarrow> t | None \<Rightarrow> w_created_at w)
        in if w_ready_at w = None \<and> now - deadline > seconds (launch_readiness_timeout_seconds (reconciliation cfg))
              \<and> \<not> w_healthy w
           then and_then (record_failure_in cfg now (w_id w) ''launch readiness timeout'' True W1)
                  (\<lambda>_ W2. (Inr True, W2))
           else (Inr False, W1))"

definition observe_state :: "time \<Rightarrow> worker \<Rightarrow> cloud_state \<Rightarrow> 'c world \<Rightarrow> worker \<times> 'c world" where
  "observe_state now w st W =
    (if st \<noteq> w_cloud_state w
     then (let W1 = on_db (commit_fields now (w_id w) (\<lambda>r. r\<lparr>w_cloud_state := st\<rparr>)) W;
               W2 = (if st \<in> {CLOUD_STATE_STOPPED, CLOUD_STATE_TERMINATED}
                     then on_db (commit_fields now (w_id w) (\<lambda>r. r\<lparr>w_base_url := None, w_ready_at := None,
                            w_healthy := False, w_last_health_checked_at := Some now\<rparr>)) W1
                     else W1)
           in (w\<lparr>w_cloud_state := st\<rparr>, W2))
     else (w, W))"

definition reconcile_instance ::
    "gateway_settings \<Rightarrow> 'c compute_ops \<Rightarrow> time \<Rightarrow> worker \<Rightarrow> string \<Rightarrow> 'c world \<Rightarrow> (exc + reconcile_result) \<times> 'c world" where
  "reconcile_instance cfg provider now w iid W =
    and_then (provider_query (cp_get_state provider iid) W)
      (\<lambda>state W1.
        let st = cloud_state_from_instance state in
        if st = CLOUD_STATE_TERMINATED \<and> w_desired_state w \<in> {CLOUD_STATE_RUNNING, CLOUD_STATE_STOPPED}
        then (Inr (True, False), on_db (finalize_disappeared_instance now (w_id w) ''cloud instance terminated or missing'') W1)
        else
          (case observe_state now w st W1 of
             (w', W2) \<Rightarrow>
               and_then (transition_power_state provider now w' iid st W2)
                 (\<lambda>transitioned W3. case transitioned of
                    Some result \<Rightarrow> (Inr result, W3)
                  | None \<Rightarrow>
                      if w_desired_state w' = CLOUD_STATE_RUNNING \<and> st = CLOUD_STATE_RUNNING
                      then and_then (check_running_readiness cfg provider now w' iid W3)
                             (\<lambda>failed W4. (Inr (\<not> failed, failed), W4))
                      else (Inr (True, False), W3))))"

definition reconcile_one_worker ::
    "gateway_settings \<Rightarrow> 'c compute_ops \<Rightarrow> time \<Rightarrow> worker \<Rightarrow> DiscoveredInstance option \<Rightarrow> 'c world
      \<Rightarrow> (exc + reconcile_result) \<times> 'c world" where
  "reconcile_one_worker cfg provider now w discovered W =
    and_then (case discovered of None \<Rightarrow> (Inr w, W) | Some inst \<Rightarrow> sync_discovered_state now w inst W)
      (\<lambda>w W1. case w_instance_id w of
         None \<Rightarrow>
           if w_desired_state w = CLOUD_STATE_RUNNING then launch_missing_instance provider now w discovered W1
           else (Inr (True, False),
                 (if w_desired_state w = CLOUD_STATE_TERMINATED
                  then on_db (commit_fields now (w_id w) (\<lambda>r. r\<lparr>w_cloud_state := CLOUD_STATE_TERMINATED,
                         w_terminated_at := Some now\<rparr>)) W1
                  else W1))
       | Some iid \<Rightarrow> reconcile_instance cfg provider now w iid W1)"

definition reconcile_guarded ::
    "gateway_settings \<Rightarrow> 'c compute_ops \<Rightarrow> time \<Rightarrow> (string \<times> DiscoveredInstance) list \<Rightarrow> worker \<Rightarrow> 'c world
      \<Rightarrow> (exc + unit) \<times> 'c world" where
  "reconcile_guarded cfg provider now primary w W =
    (if should_skip_reconcile cfg now w then (Inr (), W)
     else (case reconcile_one_worker cfg provider now w (map_of primary (w_id w)) W of
             (Inr (reset_cloud_retries, failure_recorded), W') \<Rightarrow>
               (Inr (), if reset_cloud_retries \<and> \<not> failure_recorded
                        then on_db (reset_cloud_failures now (w_id w)) W' else W')
           | (Inl (CloudError category code msg retryable), W') \<Rightarrow>
               record_failure_in cfg now (w_id w) (exc_str (CloudError category code msg retryable)) retryable W'
           | (Inl e, W') \<Rightarrow> record_failure_in cfg now (w_id w) (exc_str e) True W'))"

fun reconcile_all ::
    "gateway_settings \<Rightarrow> 'c compute_ops \<Rightarrow> time \<Rightarrow> (string \<times> DiscoveredInstance) list \<Rightarrow> worker list \<Rightarrow> 'c world
      \<Rightarrow> (exc + unit) \<times> 'c world" where
  "reconcile_all cfg provider now primary [] W = (Inr (), W)"
| "reconcile_all cfg provider now primary (w # ws) W =
     and_then (reconcile_guarded cfg provider now primary w W)
       (\<lambda>_ W'. reconcile_all cfg provider now primary ws W')"

definition reconcile_workers ::
    "gateway_settings \<Rightarrow> 'c compute_ops \<Rightarrow> time \<Rightarrow> 'c world \<Rightarrow> (exc + unit) \<times> 'c world" where
  "reconcile_workers cfg provider now W =
    (let workers = list_deployment_workers cfg (wd_db W) in
     and_then (provider_query (cp_discover provider (deployment_id cfg)) W)
       (\<lambda>discovered W1.
         and_then (discover_and_dedupe provider now discovered workers W1)
           (\<lambda>(primary, workers') W2.
             and_then (reconcile_all cfg provider now primary workers' W2)
               (\<lambda>_ W3. (Inr (), terminate_orphan_vms provider now (filter is_managed discovered)
                          (w_id ` set workers) W3)))))"

section \<open>Lemmas: what a reconciliation may change\<close>

text \<open>How a worker row may change: it keeps its identity, a terminated worker stays so, the wish to
  terminate is never taken back, and a worker never becomes a replacement later.\<close>

definition worker_evolves :: "worker \<Rightarrow> worker \<Rightarrow> bool" where
  "worker_evolves w w' \<longleftrightarrow> w_id w' = w_id w \<and> w_provider w' = w_provider w \<and> w_deployment_id w' = w_deployment_id w
     \<and> w_created_at w' = w_created_at w \<and> w_generation w' = w_generation w
     \<and> (w_terminated_at w \<noteq> None \<longrightarrow> w_terminated_at w' \<noteq> None)
     \<and> (w_desired_state w = CLOUD_STATE_TERMINATED \<longrightarrow> w_desired_state w' = CLOUD_STATE_TERMINATED)
     \<and> (w_replacement_for w' = w_replacement_for w \<or> w_replacement_for w' = None)"

text \<open>Tasks and cache untouched, no worker row added or dropped.\<close>

definition fleet_step :: "db \<Rightarrow> db \<Rightarrow> bool" where
  "fleet_step d d' \<longleftrightarrow> db_tasks d' = db_tasks d \<and> db_cache d' = db_cache d
     \<and> list_all2 worker_evolves (db_workers d) (db_workers d')"

lemma worker_evolves_refl [simp]: "worker_evolves w w"
  by (simp add: worker_evolves_def)

lemma worker_evolves_trans: "worker_evolves a b \<Longrightarrow> worker_evolves b c \<Longrightarrow> worker_evolves a c"
  by (auto simp: worker_evolves_def)

lemma fleet_step_refl [simp, intro]: "fleet_step d d"
  by (simp add: fleet_step_def list_all2_refl)

lemma fleet_step_trans [trans]: "fleet_step a b \<Longrightarrow> fleet_step b c \<Longrightarrow> fleet_step a c"
  unfolding fleet_step_def using list_all2_trans [of worker_evolves worker_evolves worker_evolves] worker_evolves_trans
  by (metis (no_types, lifting))

interpretation fleet: step_relation fleet_step
  by unfold_locales (auto intro: fleet_step_trans)

lemma fleet_upd_worker:
  "(\<And>r. worker_evolves r (save_worker now f r)) \<Longrightarrow> fleet_step d (upd_worker now wid f d)"
  by (auto simp: fleet_step_def intro!: db_update_all2)

lemma fleet_commit [intro]:
  assumes "\<And>r. worker_evolves r (f r)" shows "fleet_step d (commit_fields now wid f d)"
  unfolding commit_fields_def by (rule fleet_upd_worker) (use assms in \<open>simp add: worker_evolves_def\<close>)

lemma fleet_event [simp, intro]: "fleet_step d (record_scaling_event_now now a r w t q d)"
  by (simp add: fleet_step_def list_all2_refl)

lemma fleet_record_failure:
  assumes "record_failure cfg now wid err retryable d = Inr d'" shows "fleet_step d d'"
proof -
  have "worker_evolves r (save_worker now (\<lambda>r. case failed_row cfg now err retryable r of Some r' \<Rightarrow> r' | None \<Rightarrow> r) r)" for r
    by (auto simp: worker_evolves_def failed_row_def Let_def split: option.splits if_splits)
  then show ?thesis
    by (rule_tac record_failure_Inr [OF assms]) (auto intro: fleet_upd_worker)
qed

lemma fleet_reset [simp, intro]: "fleet_step d (reset_cloud_failures now wid d)"
  unfolding reset_cloud_failures_def by (rule fleet_upd_worker) (simp add: worker_evolves_def)

lemma fleet_finalize_disappeared [simp, intro]: "fleet_step d (finalize_disappeared_instance now wid reason d)"
  unfolding finalize_disappeared_instance_def by (rule fleet_commit) (simp add: worker_evolves_def)

lemma fleet_ids: "fleet_step d d' \<Longrightarrow> map w_id (db_workers d') = map w_id (db_workers d)"
  unfolding fleet_step_def worker_evolves_def by (auto simp: list_all2_conv_all_nth intro!: nth_equalityI)

lemma fleet_wf: "fleet_step d d' \<Longrightarrow> db_wf d \<Longrightarrow> db_wf d'"
  using fleet_ids [of d d'] by (simp add: db_wf_def fleet_step_def)

lemma list_all2_count:
  assumes "list_all2 R xs ys" and "\<And>x y. R x y \<Longrightarrow> P y \<Longrightarrow> P x"
  shows "db_count P ys \<le> db_count P xs"
  using assms(1) by (induction rule: list_all2_induct) (auto simp: db_count_Cons dest: assms(2))

lemma fleet_count: "fleet_step d d' \<Longrightarrow> count_workers cfg d' \<le> count_workers cfg d"
  unfolding count_workers_def count_where_def fleet_step_def
  using list_all2_count [of worker_evolves "db_workers d" "db_workers d'" "deployment_clause cfg"]
  by (auto simp: worker_evolves_def deployment_clause_def)

text \<open>The same on worlds, together with which provider commands were issued.\<close>

definition world_step :: "(provider_call \<Rightarrow> bool) \<Rightarrow> 'c world \<Rightarrow> 'c world \<Rightarrow> bool" where
  "world_step P W W' \<longleftrightarrow> fleet_step (wd_db W) (wd_db W')
     \<and> (\<exists>cs. wd_calls W' = wd_calls W @ cs \<and> list_all P cs)"

lemma world_step_refl [simp, intro]: "world_step P W W"
  by (auto simp: world_step_def)

lemma world_step_trans [trans]: "world_step P A B \<Longrightarrow> world_step P B C \<Longrightarrow> world_step P A C"
  unfolding world_step_def using fleet_step_trans by (metis append.assoc list_all_append)

lemma world_step_mono: "world_step P A B \<Longrightarrow> (\<And>c. P c \<Longrightarrow> Q c) \<Longrightarrow> world_step Q A B"
  unfolding world_step_def using list.pred_mono_strong by (metis (mono_tags, lifting))

lemma step_on_db: "fleet_step (wd_db W) (f (wd_db W)) \<Longrightarrow> world_step P W (on_db f W)"
  by (auto simp: world_step_def on_db_def)

lemma step_commit: "(\<And>r. worker_evolves r (f r)) \<Longrightarrow> world_step P W (on_db (commit_fields now wid f) W)"
  by (rule step_on_db) blast

lemma step_query: "provider_query f W = (r, W') \<Longrightarrow> world_step P W W'"
  by (auto simp: provider_query_def world_step_def split: prod.splits)

lemma step_command: "P call \<Longrightarrow> provider_command call f W = (r, W') \<Longrightarrow> world_step P W W'"
  by (auto simp: provider_command_def world_step_def split: prod.splits)

lemma step_commit_instance:
  assumes "commit_instance now wid iid f W = (r, W')" and "\<And>r. worker_evolves r (f r)"
  shows "world_step P W W'"
proof -
  have "worker_evolves r ((f r)\<lparr>w_instance_id := Some iid\<rparr>)" for r
    using assms(2) [of r] by (simp add: worker_evolves_def)
  then show ?thesis using assms(1) by (auto simp: commit_instance_def split: if_splits intro!: step_commit)
qed

lemma step_record_failure_in: "record_failure_in cfg now wid err rt W = (r, W') \<Longrightarrow> world_step P W W'"
  using fleet_record_failure by (auto simp: record_failure_in_def world_step_def split: sum.splits)

text \<open>Sequencing preserves a step property of both parts.\<close>

lemma step_and_then:
  assumes "and_then r k = (x, W')" and "world_step P W (snd r)"
    and "\<And>v W1. r = (Inr v, W1) \<Longrightarrow> k v W1 = (x, W') \<Longrightarrow> world_step P W1 W'"
  shows "world_step P W W'"
  using assms world_step_trans
  by (cases r; cases "fst r") (fastforce simp: and_then_def)+

lemma step_terminate_unowned:
  assumes "di_state inst \<notin> {TERMINATING, TERMINATED} \<Longrightarrow> P (Terminate (di_instance_id inst))"
  shows "world_step P W (terminate_unowned_vm provider now inst reason W)"
proof (cases "di_state inst \<in> {TERMINATING, TERMINATED}")
  case True
  then show ?thesis by (simp add: terminate_unowned_vm_def)
next
  case False
  obtain r W1 where c: "provider_command (Terminate (di_instance_id inst)) (cp_terminate provider (di_instance_id inst)) W = (r, W1)"
    by (cases "provider_command (Terminate (di_instance_id inst)) (cp_terminate provider (di_instance_id inst)) W")
  have s1: "world_step P W W1" using step_command [OF _ c] assms False by blast
  have s2: "world_step P W1 (on_db (record_scaling_event_now now ''terminate'' reason None ''reconciliation'' None) W1)"
    by (rule step_on_db) simp
  show ?thesis using False s1 world_step_trans [OF s1 s2]
    by (cases r) (simp_all add: terminate_unowned_vm_def c)
qed

interpretation world: step_relation "world_step P" for P
  by unfold_locales (auto intro: world_step_trans)

text \<open>One worker: what each part may issue.\<close>

lemma step_sync:
  assumes "sync_discovered_state now w inst W = (r, W')"
  shows "world_step P W W'"
proof (rule step_and_then [OF assms [unfolded sync_discovered_state_def]])
  show "world_step P W (snd (if w_instance_id w \<noteq> Some (di_instance_id inst)
       then and_then (commit_instance now (w_id w) (di_instance_id inst) id W)
              (\<lambda>_ W'. (Inr (w\<lparr>w_instance_id := Some (di_instance_id inst)\<rparr>), W'))
       else (Inr w, W)))"
    by (cases "commit_instance now (w_id w) (di_instance_id inst) id W"; cases "fst (commit_instance now (w_id w) (di_instance_id inst) id W)")
       (auto simp: and_then_def dest: step_commit_instance)
qed (auto simp: Let_def worker_evolves_def split: if_splits intro!: step_commit)

lemma sync_worker:
  assumes "sync_discovered_state now w inst W = (Inr w', W')"
  shows "w_instance_id w' = Some (di_instance_id inst) \<and> w_desired_state w' = w_desired_state w \<and> w_id w' = w_id w"
  using assms
  by (auto simp: sync_discovered_state_def and_then_def commit_instance_def Let_def split: if_splits)

lemma step_commit_then:
  assumes "and_then (commit_instance now wid iid f W) (\<lambda>_ W'. (x, W')) = (r, W')"
    and "\<And>r. worker_evolves r (f r)"
  shows "world_step P W W'"
proof (cases "commit_instance now wid iid f W")
  case (Pair q W1)
  have "W' = W1" using assms(1) Pair by (cases q) (simp_all add: and_then_def)
  then show ?thesis using step_commit_instance [OF Pair assms(2)] by simp
qed

lemma step_launch:
  assumes "launch_missing_instance provider now w discovered W = (r, W')"
    and "discovered = None \<Longrightarrow> P (Launch (w_id w) (w_deployment_id w) (w_generation w))"
  shows "world_step P W W'"
proof (cases discovered)
  case None
  obtain l W1 where c: "provider_command (Launch (w_id w) (w_deployment_id w) (w_generation w))
             (cp_launch provider (w_id w) (w_deployment_id w) (w_generation w)) W = (l, W1)" (is "?c = _") by (cases ?c)
  have s1: "world_step P W W1" using step_command [OF _ c] assms(2) None by blast
  show ?thesis
  proof (cases l)
    case (Inl e)
    then show ?thesis using assms(1) None c s1 by (simp add: launch_missing_instance_def and_then_def)
  next
    case (Inr iid)
    have "and_then (commit_instance now (w_id w) iid (\<lambda>r. r\<lparr>w_cloud_state := CLOUD_STATE_PENDING\<rparr>) W1)
             (\<lambda>_ W''. (Inr (True, False), W'')) = (r, W')"
      using assms(1) None c Inr by (simp add: launch_missing_instance_def and_then_def)
    then have "world_step P W1 W'" by (rule step_commit_then) (simp add: worker_evolves_def)
    then show ?thesis using s1 world_step_trans by blast
  qed
next
  case (Some inst)
  show ?thesis
    by (rule step_commit_then [OF assms(1) [unfolded launch_missing_instance_def Some option.case]])
      (simp add: worker_evolves_def)
qed

lemma step_transition:
  assumes "transition_power_state provider now w iid st W = (r, W')"
    and "w_desired_state w = CLOUD_STATE_RUNNING \<Longrightarrow> P (Start iid)"
    and "w_desired_state w = CLOUD_STATE_STOPPED \<Longrightarrow> P (Stop iid)"
    and "w_desired_state w = CLOUD_STATE_TERMINATED \<Longrightarrow> P (Terminate iid)"
  shows "world_step P W W'"
proof -
  have cmd: "world_step P W W'" if "and_then (provider_command call f W) (\<lambda>_ W'. (x, on_db (commit_fields now wid g) W')) = (r, W')"
    and "P call" and "\<And>r. worker_evolves r (g r)" for call f x wid g
    by (rule step_and_then [OF that(1)])
      (use that in \<open>auto intro!: step_command [OF _ surjective_pairing] step_commit\<close>)
  show ?thesis
    using assms unfolding transition_power_state_def
    by (auto split: if_splits intro!: cmd simp: worker_evolves_def)
qed

lemma step_readiness:
  assumes "check_running_readiness cfg provider now w iid W = (r, W')"
  shows "world_step P W W'"
proof (rule step_and_then [OF assms [unfolded check_running_readiness_def]], goal_cases)
  case 1
  show ?case by (intro step_query [OF surjective_pairing])
next
  case (2 ip W1)
  let ?W1 = "if truthy ip \<and> w_base_url w \<noteq> Some (worker_base_url (the ip))
      then on_db (commit_fields now (w_id w) (\<lambda>r. r\<lparr>w_base_url := Some (worker_base_url (the ip))\<rparr>)) W1 else W1"
  have s1: "world_step P W1 ?W1" by (auto intro!: step_commit simp: worker_evolves_def)
  have "world_step P ?W1 W'"
  proof (cases "record_failure_in cfg now (w_id w) ''launch readiness timeout'' True ?W1")
    case (Pair q W2)
    then show ?thesis using 2(2) step_record_failure_in [OF Pair]
      by (cases q) (auto simp: Let_def and_then_def split: if_splits)
  qed
  then show ?case using s1 world_step_trans by blast
qed

lemma step_observe: "world_step P W (snd (observe_state now w st W))"
proof -
  have s: "world_step P W (on_db (commit_fields now wid f) W)" if "\<And>r. worker_evolves r (f r)" for W :: "'a world" and wid f
    using that by (rule step_commit)
  show ?thesis
    unfolding observe_state_def Let_def
    by (auto intro!: s simp: worker_evolves_def intro: world_step_trans [OF s s])
qed

lemma observe_worker:
  "w_desired_state (fst (observe_state now w st W)) = w_desired_state w"
  by (simp add: observe_state_def Let_def)

lemma step_instance:
  assumes "reconcile_instance cfg provider now w iid W = (r, W')"
    and "w_desired_state w = CLOUD_STATE_RUNNING \<Longrightarrow> P (Start iid)"
    and "w_desired_state w = CLOUD_STATE_STOPPED \<Longrightarrow> P (Stop iid)"
    and "w_desired_state w = CLOUD_STATE_TERMINATED \<Longrightarrow> P (Terminate iid)"
  shows "world_step P W W'"
proof (rule step_and_then [OF assms(1) [unfolded reconcile_instance_def]], goal_cases)
  case 1
  show ?case by (intro step_query [OF surjective_pairing])
next
  case (2 state W1)
  let ?st = "cloud_state_from_instance state"
  obtain w' W2 where obs: "observe_state now w ?st W1 = (w', W2)" by (cases "observe_state now w ?st W1")
  have s2: "world_step P W1 W2" using step_observe [of P W1 now w ?st] obs by simp
  have des: "w_desired_state w' = w_desired_state w" using observe_worker [of now w ?st W1] obs by simp
  have "world_step P W2 W'" if "and_then (transition_power_state provider now w' iid ?st W2)
       (\<lambda>transitioned W3. case transitioned of
          Some result \<Rightarrow> (Inr result, W3)
        | None \<Rightarrow>
            if w_desired_state w' = CLOUD_STATE_RUNNING \<and> ?st = CLOUD_STATE_RUNNING
            then and_then (check_running_readiness cfg provider now w' iid W3)
                   (\<lambda>failed W4. (Inr (\<not> failed, failed), W4))
            else (Inr (True, False), W3)) = (r, W')"
  proof (rule step_and_then [OF that], goal_cases)
    case 1
    show ?case by (rule step_transition [OF surjective_pairing]) (use assms(2-4) des in simp_all)
  next
    case (2 q W3)
    have rd: "world_step P W3 W'" if "and_then (check_running_readiness cfg provider now w' iid W3)
                   (\<lambda>failed W4. (Inr (\<not> failed, failed), W4)) = (r, W')"
      by (rule step_and_then [OF that]) (auto intro: step_readiness [OF surjective_pairing])
    show ?case using 2(2) rd by (auto split: option.splits if_splits)
  qed
  then show ?case using 2(2) s2 world_step_trans obs
    by (auto simp: Let_def split: if_splits intro!: step_on_db)
qed

lemma step_one_worker:
  assumes "reconcile_one_worker cfg provider now w discovered W = (r, W')"
    and iid: "iid = (case discovered of Some inst \<Rightarrow> Some (di_instance_id inst) | None \<Rightarrow> w_instance_id w)"
    and "iid = None \<Longrightarrow> w_desired_state w = CLOUD_STATE_RUNNING \<Longrightarrow> P (Launch (w_id w) (w_deployment_id w) (w_generation w))"
    and "\<And>i. iid = Some i \<Longrightarrow> w_desired_state w = CLOUD_STATE_RUNNING \<Longrightarrow> P (Start i)"
    and "\<And>i. iid = Some i \<Longrightarrow> w_desired_state w = CLOUD_STATE_STOPPED \<Longrightarrow> P (Stop i)"
    and "\<And>i. iid = Some i \<Longrightarrow> w_desired_state w = CLOUD_STATE_TERMINATED \<Longrightarrow> P (Terminate i)"
  shows "world_step P W W'"
proof (rule step_and_then [OF assms(1) [unfolded reconcile_one_worker_def]], goal_cases)
  case 1
  show ?case by (cases discovered) (auto intro: step_sync [OF surjective_pairing])
next
  case (2 v W1)
  have v: "w_instance_id v = iid \<and> w_desired_state v = w_desired_state w \<and> (discovered = None \<longrightarrow> v = w)"
    using 2(1) iid by (cases discovered) (auto dest: sync_worker)
  show ?case
  proof (cases iid)
    case None
    then have "discovered = None" using iid by (cases discovered) auto
    with v have [simp]: "v = w" by simp
    show ?thesis
    proof (cases "w_desired_state w = CLOUD_STATE_RUNNING")
      case True
      then have "launch_missing_instance provider now w discovered W1 = (r, W')" using 2(2) v None by simp
      then show ?thesis by (rule step_launch) (use assms(3) None True in simp)
    next
      case False
      then show ?thesis using 2(2) v None by (auto intro!: step_commit simp: worker_evolves_def split: if_splits)
    qed
  next
    case (Some i)
    then have "reconcile_instance cfg provider now v i W1 = (r, W')" using 2(2) v by simp
    then show ?thesis by (rule step_instance) (use assms(4-6) Some v in simp_all)
  qed
qed

lemma step_guarded:
  assumes "reconcile_guarded cfg provider now primary w W = (r, W')"
    and "\<And>q V. reconcile_one_worker cfg provider now w (map_of primary (w_id w)) W = (q, V) \<Longrightarrow>
      \<not> should_skip_reconcile cfg now w \<Longrightarrow> world_step P W V"
  shows "world_step P W W'"
proof (cases "should_skip_reconcile cfg now w")
  case True
  then show ?thesis using assms(1) by (simp add: reconcile_guarded_def)
next
  case False
  obtain q V where one: "reconcile_one_worker cfg provider now w (map_of primary (w_id w)) W = (q, V)" (is "?o = _")
    by (cases ?o)
  have s1: "world_step P W V" using assms(2) one False by blast
  have "world_step P V W'"
    using assms(1) False
    by (auto simp: reconcile_guarded_def one step_record_failure_in split: sum.splits exc.splits if_splits intro!: step_on_db)
  then show ?thesis using s1 world_step_trans by blast
qed

lemma step_all:
  assumes "reconcile_all cfg provider now primary ws W = (r, W')"
    and "\<And>w V V' q. w \<in> set ws \<Longrightarrow> reconcile_guarded cfg provider now primary w V = (q, V') \<Longrightarrow> world_step P V V'"
  shows "world_step P W W'"
  using assms
proof (induction ws arbitrary: W)
  case (Cons w ws)
  show ?case
  proof (rule step_and_then [OF Cons.prems(1) [unfolded reconcile_all.simps]], goal_cases)
    case 1
    show ?case by (rule Cons.prems(2) [OF _ surjective_pairing]) simp
  next
    case (2 u W1)
    have "world_step P V V'" if "v \<in> set ws" "reconcile_guarded cfg provider now primary v V = (q, V')" for v V V' q
      by (rule Cons.prems(2) [OF _ that(2)]) (use that(1) in simp)
    with 2(2) show ?case by (rule Cons.IH)
  qed
qed simp

subsection \<open>Which commands a reconciliation may issue\<close>

text \<open>The VM a worker keeps: the canonical one of the VMs tagged with its id, else the recorded one.\<close>

definition kept_instance :: "DiscoveredInstance list \<Rightarrow> worker \<Rightarrow> string option" where
  "kept_instance managed w =
    (if w_id w \<in> set (discovered_worker_ids managed)
     then Some (canonical_instance (owned_by (w_id w) managed) (Some w)) else w_instance_id w)"

text \<open>A VM that no known worker keeps.\<close>

definition superfluous :: "worker list \<Rightarrow> DiscoveredInstance list \<Rightarrow> DiscoveredInstance \<Rightarrow> bool" where
  "superfluous workers managed inst \<longleftrightarrow> di_state inst \<notin> {TERMINATING, TERMINATED}
     \<and> (truthy (di_worker_id inst) \<longrightarrow>
          (case find (\<lambda>w. Some (w_id w) = di_worker_id inst) workers of
             None \<Rightarrow> True | Some w \<Rightarrow> kept_instance managed w \<noteq> Some (di_instance_id inst)))"

definition acted_on :: "gateway_settings \<Rightarrow> time \<Rightarrow> DiscoveredInstance list \<Rightarrow> cloud_state \<Rightarrow> string option \<Rightarrow> worker \<Rightarrow> bool" where
  "acted_on cfg now managed desired iid w \<longleftrightarrow>
     w_desired_state w = desired \<and> kept_instance managed w = iid \<and> \<not> should_skip_reconcile cfg now w"

fun justified ::
    "gateway_settings \<Rightarrow> time \<Rightarrow> worker list \<Rightarrow> DiscoveredInstance list \<Rightarrow> provider_call \<Rightarrow> bool" where
  "justified cfg now workers managed (Launch wid dep gen) \<longleftrightarrow>
     list_ex (\<lambda>w. acted_on cfg now managed CLOUD_STATE_RUNNING None w
        \<and> w_id w = wid \<and> w_deployment_id w = dep \<and> w_generation w = gen) workers"
| "justified cfg now workers managed (Start iid) \<longleftrightarrow> list_ex (acted_on cfg now managed CLOUD_STATE_RUNNING (Some iid)) workers"
| "justified cfg now workers managed (Stop iid) \<longleftrightarrow> list_ex (acted_on cfg now managed CLOUD_STATE_STOPPED (Some iid)) workers"
| "justified cfg now workers managed (Terminate iid) \<longleftrightarrow>
     list_ex (acted_on cfg now managed CLOUD_STATE_TERMINATED (Some iid)) workers
     \<or> list_ex (\<lambda>inst. di_instance_id inst = iid \<and> superfluous workers managed inst) managed"

lemma find_id:
  assumes "distinct (map w_id ws)" and "w \<in> set ws"
  shows "find (\<lambda>v. w_id v = w_id w) ws = Some w"
  using assms by (induction ws) auto

lemma canonical_single [simp]: "canonical_instance [inst] w = di_instance_id inst"
  by (auto simp: canonical_instance_def Let_def split: option.splits)

lemma canonical_mem:
  assumes "instances \<noteq> []" shows "canonical_instance instances w \<in> di_instance_id ` set instances"
proof -
  obtain i ids where srt: "sort (map di_instance_id instances) = i # ids"
    using assms by (cases "sort (map di_instance_id instances)") (auto dest: arg_cong [of _ _ length])
  then have "i \<in> set (map di_instance_id instances)" by (metis list.set_intros(1) set_sort)
  then show ?thesis using srt by (auto simp: canonical_instance_def Let_def split: option.splits)
qed

lemma discovered_owned:
  "wid \<in> set (discovered_worker_ids managed) \<longleftrightarrow> wid \<noteq> [] \<and> owned_by wid managed \<noteq> []"
proof -
  have "wid \<noteq> [] \<and> owned_by wid managed \<noteq> [] \<longleftrightarrow> (\<exists>i \<in> set managed. di_worker_id i = Some wid \<and> truthy (di_worker_id i))"
    by (auto simp: owned_by_def filter_empty_conv)
  then show ?thesis by (auto simp: discovered_worker_ids_def image_iff elim!: truthy.elims)
qed

lemma discovered_distinct: "distinct (discovered_worker_ids managed)"
  by (simp add: discovered_worker_ids_def)

text \<open>Only the recorded instance of an object changes while duplicates are resolved.\<close>

definition rebound :: "string set \<Rightarrow> worker \<Rightarrow> worker \<Rightarrow> bool" where
  "rebound ids w w' \<longleftrightarrow> (\<exists>i. w' = w\<lparr>w_instance_id := i\<rparr>) \<and> (w_id w \<notin> ids \<longrightarrow> w' = w)"

lemma rebound_refl [simp]: "rebound ids w w"
proof -
  have "w = w\<lparr>w_instance_id := w_instance_id w\<rparr>" by simp
  then show ?thesis unfolding rebound_def by blast
qed

lemma rebound_mono: "rebound ids w w' \<Longrightarrow> ids \<subseteq> ids' \<Longrightarrow> rebound ids' w w'"
  by (auto simp: rebound_def)

lemma rebound_trans: "rebound ids w w' \<Longrightarrow> rebound ids w' w'' \<Longrightarrow> rebound ids w w''"
  by (auto simp: rebound_def)

lemma rebound_find:
  "list_all2 (rebound ids) ws ws' \<Longrightarrow> wid \<notin> ids \<Longrightarrow> find (\<lambda>w. w_id w = wid) ws' = find (\<lambda>w. w_id w = wid) ws"
  by (induction rule: list_all2_induct) (auto simp: rebound_def)

lemma step_terminate_others:
  assumes "\<And>inst. inst \<in> set instances \<Longrightarrow> di_instance_id inst \<noteq> cid \<Longrightarrow> di_state inst \<notin> {TERMINATING, TERMINATED}
      \<Longrightarrow> P (Terminate (di_instance_id inst))"
  shows "world_step P W (terminate_others provider now wid cid instances W)"
  unfolding terminate_others_def
  by (rule world.fold_step) (use assms in \<open>auto intro!: step_terminate_unowned\<close>)

lemma resolve_step:
  assumes "resolve_duplicate_vms provider now wid instances ws W = (r, W')"
    and "\<And>inst. inst \<in> set instances \<Longrightarrow> di_instance_id inst \<noteq> canonical_instance instances (find (\<lambda>w. w_id w = wid) ws)
      \<Longrightarrow> di_state inst \<notin> {TERMINATING, TERMINATED} \<Longrightarrow> P (Terminate (di_instance_id inst))"
  shows "world_step P W W' \<and> (\<forall>inst ws'. r = Inr (inst, ws') \<longrightarrow> list_all2 (rebound {wid}) ws ws'
    \<and> di_instance_id inst = canonical_instance instances (find (\<lambda>w. w_id w = wid) ws))"
proof -
  let ?w = "find (\<lambda>w. w_id w = wid) ws"
  let ?c = "canonical_instance instances ?w"
  have others: "world_step P V (terminate_others provider now wid ?c instances V)" for V :: "'a world"
    by (rule step_terminate_others) (use assms(2) in blast)
  show ?thesis
  proof (cases "find (\<lambda>inst. di_instance_id inst = ?c) instances")
    case None
    then show ?thesis using assms(1) by (auto simp: resolve_duplicate_vms_def Let_def)
  next
    case (Some primary)
    then have cid: "di_instance_id primary = ?c" by (auto simp: find_Some_iff)
    have same: "list_all2 (rebound {wid}) ws ws" by (simp add: list_all2_refl)
    show ?thesis
    proof (cases "\<exists>wk. ?w = Some wk \<and> w_instance_id wk \<noteq> Some ?c")
      case False
      then have "(r, W') = (Inr (primary, ws), terminate_others provider now wid ?c instances W)"
        using assms(1) Some by (auto simp: resolve_duplicate_vms_def Let_def split: option.splits)
      then show ?thesis using others same cid by auto
    next
      case True
      let ?ws = "map (\<lambda>v. if w_id v = wid then v\<lparr>w_instance_id := Some ?c\<rparr> else v) ws"
      obtain q W1 where c: "commit_instance now wid ?c
          (\<lambda>r. r\<lparr>w_cloud_state := cloud_state_from_instance (di_state primary)\<rparr>) W = (q, W1)" (is "?commit = _")
        by (cases ?commit)
      have s1: "world_step P W W1" by (rule step_commit_instance [OF c]) (simp add: worker_evolves_def)
      have "rebound {wid} v (if w_id v = wid then v\<lparr>w_instance_id := Some ?c\<rparr> else v)" for v
        by (cases "w_id v = wid") (auto simp: rebound_def)
      then have reb: "list_all2 (rebound {wid}) ws ?ws" by (simp add: list.rel_map list.rel_refl_strong)
      have "(r, W') = (case q of Inl e \<Rightarrow> (Inl e, W1)
          | Inr _ \<Rightarrow> (Inr (primary, ?ws), terminate_others provider now wid ?c instances W1))"
        using assms(1) Some True c by (auto simp: resolve_duplicate_vms_def Let_def and_then_def split: sum.splits)
      then show ?thesis using s1 world_step_trans [OF s1 others] reb cid by (cases q) auto
    qed
  qed
qed

text \<open>One round of the loop: the kept instance of one worker id.\<close>

definition dedupe_one ::
    "'c compute_ops \<Rightarrow> time \<Rightarrow> DiscoveredInstance list \<Rightarrow> string \<Rightarrow> worker list \<Rightarrow> 'c world
      \<Rightarrow> (exc + DiscoveredInstance \<times> worker list) \<times> 'c world" where
  "dedupe_one provider now managed wid ws W =
    (case owned_by wid managed of
       [inst] \<Rightarrow> (Inr (inst, ws), W)
     | instances \<Rightarrow> resolve_duplicate_vms provider now wid instances ws W)"

lemma dedupe_one_step:
  assumes "dedupe_one provider now managed wid ws W = (q, W1)"
    and "find (\<lambda>w. w_id w = wid) ws = find (\<lambda>w. w_id w = wid) orig"
    and "\<And>inst. inst \<in> set (owned_by wid managed)
      \<Longrightarrow> di_instance_id inst \<noteq> canonical_instance (owned_by wid managed) (find (\<lambda>w. w_id w = wid) orig)
      \<Longrightarrow> di_state inst \<notin> {TERMINATING, TERMINATED} \<Longrightarrow> P (Terminate (di_instance_id inst))"
  shows "world_step P W W1 \<and> (\<forall>inst ws1. q = Inr (inst, ws1) \<longrightarrow> list_all2 (rebound {wid}) ws ws1
    \<and> di_instance_id inst = canonical_instance (owned_by wid managed) (find (\<lambda>w. w_id w = wid) orig))"
proof (cases "\<exists>inst. owned_by wid managed = [inst]")
  case True
  then show ?thesis using assms(1) by (auto simp: dedupe_one_def list_all2_refl)
next
  case False
  then have "resolve_duplicate_vms provider now wid (owned_by wid managed) ws W = (q, W1)"
    using assms(1) by (simp add: dedupe_one_def split: list.splits)
  then show ?thesis unfolding assms(2) [symmetric] by (rule resolve_step) (use assms(2,3) in simp_all)
qed

lemma dedupe_step:
  assumes "dedupe provider now managed wids primary ws W = (r, W')" and "distinct wids"
    and "\<And>wid. wid \<in> set wids \<Longrightarrow> find (\<lambda>w. w_id w = wid) ws = find (\<lambda>w. w_id w = wid) orig"
    and "set wids \<inter> fst ` set primary = {}"
    and "\<And>wid inst. wid \<in> set wids \<Longrightarrow> inst \<in> set (owned_by wid managed)
      \<Longrightarrow> di_instance_id inst \<noteq> canonical_instance (owned_by wid managed) (find (\<lambda>w. w_id w = wid) orig)
      \<Longrightarrow> di_state inst \<notin> {TERMINATING, TERMINATED} \<Longrightarrow> P (Terminate (di_instance_id inst))"
  shows "world_step P W W' \<and> (\<forall>primary' ws'. r = Inr (primary', ws') \<longrightarrow> list_all2 (rebound (set wids)) ws ws'
    \<and> (\<forall>wid. map_option di_instance_id (map_of primary' wid) =
         (if wid \<in> set wids then Some (canonical_instance (owned_by wid managed) (find (\<lambda>w. w_id w = wid) orig))
          else map_option di_instance_id (map_of primary wid))))"
  using assms
proof (induction wids arbitrary: primary ws W)
  case Nil
  then show ?case by (auto simp: list_all2_refl)
next
  case (Cons wid wids)
  let ?insts = "owned_by wid managed"
  let ?c = "canonical_instance ?insts (find (\<lambda>w. w_id w = wid) orig)"
  have "world_step P W W1 \<and> (\<forall>inst ws1. q = Inr (inst, ws1) \<longrightarrow> list_all2 (rebound {wid}) ws ws1 \<and> di_instance_id inst = ?c)"
    if "dedupe_one provider now managed wid ws W = (q, W1)" for q W1
    by (rule dedupe_one_step [OF that]) (use Cons.prems(3,5) in auto)
  moreover have "and_then (dedupe_one provider now managed wid ws W)
      (\<lambda>(inst, ws') W'. dedupe provider now managed wids (primary @ [(wid, inst)]) ws' W') = (r, W')"
    using Cons.prems(1) by (simp add: dedupe_one_def and_then_def split: list.splits)
  ultimately obtain q W1 where k: "and_then (q, W1) (\<lambda>(inst, ws') W'. dedupe provider now managed wids (primary @ [(wid, inst)]) ws' W') = (r, W')"
    and s1: "world_step P W W1"
    and q: "\<And>inst ws1. q = Inr (inst, ws1) \<Longrightarrow> list_all2 (rebound {wid}) ws ws1 \<and> di_instance_id inst = ?c"
    by (cases "dedupe_one provider now managed wid ws W") auto
  show ?case
  proof (cases q)
    case (Inl e)
    then show ?thesis using k s1 by (auto simp: and_then_def)
  next
    case (Inr a)
    obtain inst ws1 where a: "a = (inst, ws1)" by (cases a)
    note q1 = q [OF Inr [unfolded a]]
    have rest: "dedupe provider now managed wids (primary @ [(wid, inst)]) ws1 W1 = (r, W')" using k Inr a by (simp add: and_then_def)
    have fnd: "find (\<lambda>w. w_id w = v) ws1 = find (\<lambda>w. w_id w = v) orig" if "v \<in> set wids" for v
      using rebound_find [OF conjunct1 [OF q1], of v] Cons.prems(2,3) that by auto
    have fresh: "set wids \<inter> fst ` set (primary @ [(wid, inst)]) = {}" using Cons.prems(2,4) by auto
    have IH: "world_step P W1 W' \<and> (\<forall>primary' ws'. r = Inr (primary', ws') \<longrightarrow> list_all2 (rebound (set wids)) ws1 ws'
      \<and> (\<forall>v. map_option di_instance_id (map_of primary' v) =
         (if v \<in> set wids then Some (canonical_instance (owned_by v managed) (find (\<lambda>w. w_id w = v) orig))
          else map_option di_instance_id (map_of (primary @ [(wid, inst)]) v))))"
      by (rule Cons.IH [OF rest _ fnd fresh]) (use Cons.prems(2,5) in auto)
    have "list_all2 (rebound (set (wid # wids))) ws ws'" if "list_all2 (rebound (set wids)) ws1 ws'" for ws'
      by (rule list_all2_trans [OF _ conjunct1 [OF q1] that])
        (auto intro: rebound_trans rebound_mono)
    moreover have "map_of primary wid = None" using Cons.prems(4) by (auto simp: map_of_eq_None_iff)
    ultimately show ?thesis using IH world_step_trans [OF s1] q1 by (auto simp: map_add_def split: option.splits)
  qed
qed

lemma step_orphans:
  assumes "\<And>inst. inst \<in> set managed \<Longrightarrow> di_state inst \<notin> {TERMINATING, TERMINATED}
      \<Longrightarrow> \<not> (truthy (di_worker_id inst) \<and> the (di_worker_id inst) \<in> ids) \<Longrightarrow> P (Terminate (di_instance_id inst))"
  shows "world_step P W (terminate_orphan_vms provider now managed ids W)"
  unfolding terminate_orphan_vms_def
  by (rule world.fold_step) (use assms in \<open>auto intro!: step_terminate_unowned\<close>)

lemma rebound_skip: "rebound ids w w' \<Longrightarrow> should_skip_reconcile cfg now w' = should_skip_reconcile cfg now w"
  by (auto simp: rebound_def should_skip_reconcile_def)

lemma find_flip: "find (\<lambda>w. Some (w_id w) = Some wid) ws = find (\<lambda>w. w_id w = wid) ws"
  by simp

text \<open>The heart of the matter: every command is justified by the workers table and the discovered VMs
  as they were at the start.\<close>

lemma guarded_justified:
  assumes "distinct (map w_id ws)" and "w \<in> set ws" and "rebound ids w w'" and "ids = set (discovered_worker_ids managed)"
    and "map_option di_instance_id (map_of primary (w_id w)) =
      (if w_id w \<in> ids then Some (canonical_instance (owned_by (w_id w) managed) (find (\<lambda>v. w_id v = w_id w) ws)) else None)"
    and "reconcile_guarded cfg provider now primary w' W = (q, W')"
  shows "world_step (justified cfg now ws managed) W W'"
proof (rule step_guarded [OF assms(6)])
  fix q V
  assume one: "reconcile_one_worker cfg provider now w' (map_of primary (w_id w')) W = (q, V)"
    and noskip: "\<not> should_skip_reconcile cfg now w'"
  obtain i where w': "w' = w\<lparr>w_instance_id := i\<rparr>" using assms(3) by (auto simp: rebound_def)
  have kept: "kept_instance managed w =
      (case map_of primary (w_id w') of Some inst \<Rightarrow> Some (di_instance_id inst) | None \<Rightarrow> w_instance_id w')"
    using assms(3,4,5) find_id [OF assms(1,2)] w'
    by (auto simp: kept_instance_def rebound_def split: option.splits if_splits)
  have act: "acted_on cfg now managed (w_desired_state w) (kept_instance managed w) w"
    using noskip rebound_skip [OF assms(3)] by (simp add: acted_on_def)
  show "world_step (justified cfg now ws managed) W V"
    by (rule step_one_worker [OF one kept])
      (use act assms(2) w' in \<open>auto simp: list_ex_iff intro!: bexI [of _ w]\<close>)
qed

lemma reconcile_justified:
  assumes "db_wf (wd_db W)" and "cp_discover provider (deployment_id cfg) (wd_cloud W) = (Inr discovered, c)"
    and "reconcile_workers cfg provider now W = (r, W')"
  defines "ws \<equiv> list_deployment_workers cfg (wd_db W)" and "managed \<equiv> filter is_managed discovered"
  shows "world_step (justified cfg now ws managed) W W'"
proof -
  let ?P = "justified cfg now ws managed" and ?ids = "discovered_worker_ids managed"
  define W1 where "W1 = W\<lparr>wd_cloud := c\<rparr>"
  have dist: "distinct (map w_id ws)"
    using assms(1) unfolding ws_def list_deployment_workers_def db_wf_def by (simp add: distinct_map_filter)
  have s1: "world_step ?P W W1" by (auto simp: W1_def world_step_def)
  have run: "and_then (dedupe provider now managed ?ids [] ws W1)
      (\<lambda>(primary, ws') W2. and_then (reconcile_all cfg provider now primary ws' W2)
        (\<lambda>_ W3. (Inr (), terminate_orphan_vms provider now managed (w_id ` set ws) W3))) = (r, W')"
    using assms(3) unfolding reconcile_workers_def Let_def provider_query_def assms(2) discover_and_dedupe_def
      ws_def managed_def W1_def by (simp add: and_then_def)
  have dup: "?P (Terminate (di_instance_id inst))" if "wid \<in> set ?ids" "inst \<in> set (owned_by wid managed)"
    "di_instance_id inst \<noteq> canonical_instance (owned_by wid managed) (find (\<lambda>w. w_id w = wid) ws)"
    "di_state inst \<notin> {TERMINATING, TERMINATED}" for wid inst
  proof -
    have mem: "inst \<in> set managed" "di_worker_id inst = Some wid" using that(2) by (auto simp: owned_by_def)
    have "w_id w = wid" if "find (\<lambda>w. w_id w = wid) ws = Some w" for w using that by (auto simp: find_Some_iff)
    then have "case find (\<lambda>w. w_id w = wid) ws of None \<Rightarrow> True | Some w \<Rightarrow> kept_instance managed w \<noteq> Some (di_instance_id inst)"
      using that(1,3) by (cases "find (\<lambda>w. w_id w = wid) ws") (simp_all add: kept_instance_def)
    then have "superfluous ws managed inst" using that(4) unfolding superfluous_def mem(2) find_flip by blast
    then show ?thesis using mem by (auto simp: list_ex_iff)
  qed
  have orphan: "?P (Terminate (di_instance_id inst))" if "inst \<in> set managed" "di_state inst \<notin> {TERMINATING, TERMINATED}"
    "\<not> (truthy (di_worker_id inst) \<and> the (di_worker_id inst) \<in> w_id ` set ws)" for inst
  proof -
    have "superfluous ws managed inst"
      using that by (auto simp: superfluous_def truthy_Some find_Some_iff image_iff split: option.splits)
    then show ?thesis using that(1) by (auto simp: list_ex_iff)
  qed
  have "world_step ?P W1 W'"
  proof (rule step_and_then [OF run], goal_cases)
    case 1
    show ?case by (rule conjunct1 [OF dedupe_step [OF surjective_pairing discovered_distinct, where orig = ws]]) (use dup in auto)
  next
    case (2 a W2)
    obtain primary ws' where a: "a = (primary, ws')" by (cases a)
    have D: "list_all2 (rebound (set ?ids)) ws ws'"
      "\<And>wid. map_option di_instance_id (map_of primary wid) =
         (if wid \<in> set ?ids then Some (canonical_instance (owned_by wid managed) (find (\<lambda>w. w_id w = wid) ws)) else None)"
      using dedupe_step [OF 2(1) discovered_distinct, where orig = ws and P = "\<lambda>_. True"] a by auto
    have k: "and_then (reconcile_all cfg provider now primary ws' W2)
        (\<lambda>_ W3. (Inr (), terminate_orphan_vms provider now managed (w_id ` set ws) W3)) = (r, W')"
      using 2(2) a by simp
    have all: "world_step ?P V V'" if m: "w' \<in> set ws'" and g: "reconcile_guarded cfg provider now primary w' V = (q, V')" for w' V V' q
    proof -
      obtain w where w: "w \<in> set ws" "rebound (set ?ids) w w'"
        using D(1) m by (metis list_all2_conv_all_nth in_set_conv_nth)
      show ?thesis by (rule guarded_justified [OF dist w refl D(2) g])
    qed
    have orphans: "world_step ?P V (terminate_orphan_vms provider now managed (w_id ` set ws) V)" for V :: "'a world"
      by (rule step_orphans) (rule orphan)
    show ?case
    proof (rule step_and_then [OF k])
      show "world_step ?P W2 (snd (reconcile_all cfg provider now primary ws' W2))"
        by (rule step_all [OF surjective_pairing]) (rule all)
    qed (use orphans in auto)
  qed
  with s1 show ?thesis by (rule world_step_trans)
qed

text \<open>A deployment with one worker, the VM it records and a second VM tagged with its id.\<close>

definition example_instance :: "string \<Rightarrow> DiscoveredInstance" where
  "example_instance iid = \<lparr>di_instance_id = iid, di_worker_id = Some ''cloud-1'', di_state = RUNNING,
     di_tags = [(TAG_MANAGED, ''true''), (TAG_ROLE, TAG_ROLE_WORKER), (TAG_WORKER_ID, ''cloud-1'')]\<rparr>"

definition example_provider :: "unit compute_ops" where
  "example_provider = \<lparr>cp_discover = (\<lambda>_ c. (Inr [example_instance ''i-2'', example_instance ''i-1''], c)),
     cp_launch = (\<lambda>_ _ _ c. (Inr ''i-9'', c)), cp_start = (\<lambda>_ c. (Inr (), c)), cp_stop = (\<lambda>_ c. (Inr (), c)),
     cp_terminate = (\<lambda>_ c. (Inr (), c)), cp_get_state = (\<lambda>_ c. (Inr RUNNING, c)),
     cp_get_private_ip = (\<lambda>_ c. (Inr (Some ''10.0.0.1''), c))\<rparr>"

definition example_world :: "unit world" where
  "example_world = \<lparr>wd_db = empty_db\<lparr>db_workers := [example_worker]\<rparr>, wd_cloud = (), wd_calls = []\<rparr>"

lemma example_world_facts:
  "db_wf (wd_db example_world)"
  "cp_discover example_provider (deployment_id default_settings) (wd_cloud example_world)
     = (Inr [example_instance ''i-2'', example_instance ''i-1''], ())"
  "filter is_managed [example_instance ''i-2'', example_instance ''i-1''] = [example_instance ''i-2'', example_instance ''i-1'']"
  "list_deployment_workers default_settings (wd_db example_world) = [example_worker]"
  "wd_calls example_world = []"
  "fst (reconcile_workers default_settings example_provider 9 example_world) = Inr ()"
  "wd_calls (snd (reconcile_workers default_settings example_provider 9 example_world)) = [Terminate ''i-2'']"
  by code_simp+

lemma example_run:
  "reconcile_workers default_settings example_provider 9 example_world
    = (Inr (), snd (reconcile_workers default_settings example_provider 9 example_world))"
  using example_world_facts(6) by (metis prod.collapse)

section \<open>Properties\<close>

text \<open>C7: Reconciliation issues no command without cause. A VM is launched only for a worker that should
  run and has none; started only for a worker that should run and stopped only for one that should be
  stopped; terminated only when its worker should be terminated, or when no known worker keeps it;
  never for a worker that is stalled or backing off. Tasks, cache and the set of workers stay as they
  are, whether or not the reconciliation ends with an exception.\<close>

theorem reconcile_workers_justified:
  assumes "db_wf (wd_db W)" and "cp_discover provider (deployment_id cfg) (wd_cloud W) = (Inr discovered, c)"
    and "reconcile_workers cfg provider now W = (r, W')"
  shows "\<exists>calls. wd_calls W' = wd_calls W @ calls
    \<and> list_all (justified cfg now (list_deployment_workers cfg (wd_db W)) (filter is_managed discovered)) calls
    \<and> db_tasks (wd_db W') = db_tasks (wd_db W) \<and> db_cache (wd_db W') = db_cache (wd_db W)
    \<and> map w_id (db_workers (wd_db W')) = map w_id (db_workers (wd_db W))"
  using reconcile_justified [OF assms] fleet_ids by (auto simp: world_step_def fleet_step_def)

theorem reconcile_workers_justified_witness:
  "wd_calls (snd (reconcile_workers default_settings example_provider 9 example_world)) = [Terminate ''i-2'']
   \<and> justified default_settings 9 [example_worker] [example_instance ''i-2'', example_instance ''i-1''] (Terminate ''i-2'')"
  using reconcile_workers_justified [OF example_world_facts(1,2) example_run]
  unfolding example_world_facts(3-5,7) by auto

text \<open>The VM a worker keeps is not terminated while the worker should not terminate.\<close>

lemma kept_vm_spared:
  assumes "db_wf (wd_db W)" and "cp_discover provider (deployment_id cfg) (wd_cloud W) = (Inr discovered, c)"
    and "reconcile_workers cfg provider now W = (r, W')"
    and "distinct (map di_instance_id discovered)"
    and "w \<in> set (list_deployment_workers cfg (wd_db W))" and "w_desired_state w \<noteq> CLOUD_STATE_TERMINATED"
    and "inst \<in> set discovered" and "is_managed inst" and "di_worker_id inst = Some (w_id w)" and "w_id w \<noteq> []"
    and "kept_instance (filter is_managed discovered) w = Some (di_instance_id inst)"
    and "\<And>v. v \<in> set (db_workers (wd_db W)) \<Longrightarrow> w_id v \<noteq> w_id w \<Longrightarrow> w_instance_id v \<noteq> Some (di_instance_id inst)"
  shows "\<exists>calls. wd_calls W' = wd_calls W @ calls \<and> Terminate (di_instance_id inst) \<notin> set calls"
proof -
  let ?ws = "list_deployment_workers cfg (wd_db W)" and ?managed = "filter is_managed discovered"
  have dist: "distinct (map w_id ?ws)"
    using assms(1) unfolding list_deployment_workers_def db_wf_def by (simp add: distinct_map_filter)
  have same: "i = inst" if "i \<in> set discovered" "di_instance_id i = di_instance_id inst" for i
    using assms(4,7) that by (auto simp: distinct_map inj_on_def)
  have "\<not> superfluous ?ws ?managed i" if "i \<in> set ?managed" "di_instance_id i = di_instance_id inst" for i
    using same [of i] that find_id [OF dist assms(5)] assms(9-11) by (simp add: superfluous_def)
  moreover have "\<not> acted_on cfg now ?managed CLOUD_STATE_TERMINATED (Some (di_instance_id inst)) v" if v: "v \<in> set ?ws" for v
  proof (cases "w_id v = w_id w")
    case True
    then have "v = w" using dist v assms(5) by (metis distinct_map inj_onD)
    then show ?thesis using assms(6) by (simp add: acted_on_def)
  next
    case False
    have "w_instance_id v \<noteq> Some (di_instance_id inst)"
      using assms(12) [of v] v False by (simp add: list_deployment_workers_def)
    moreover have "canonical_instance (owned_by (w_id v) ?managed) (Some v) \<noteq> di_instance_id inst"
      if o: "w_id v \<in> set (discovered_worker_ids ?managed)"
    proof
      assume c: "canonical_instance (owned_by (w_id v) ?managed) (Some v) = di_instance_id inst"
      have "owned_by (w_id v) ?managed \<noteq> []" using o by (simp add: discovered_owned)
      from canonical_mem [OF this, of "Some v"] c obtain i
        where "i \<in> set (owned_by (w_id v) ?managed)" "di_instance_id i = di_instance_id inst" by auto
      then show False using same [of i] assms(9) False by (auto simp: owned_by_def)
    qed
    ultimately show ?thesis by (auto simp: acted_on_def kept_instance_def)
  qed
  ultimately have "\<not> justified cfg now ?ws ?managed (Terminate (di_instance_id inst))"
    unfolding justified.simps list_ex_iff by blast
  moreover obtain calls where "wd_calls W' = wd_calls W @ calls" "list_all (justified cfg now ?ws ?managed) calls"
    using reconcile_justified [OF assms(1-3)] by (auto simp only: world_step_def)
  ultimately show ?thesis by (intro exI [of _ calls]) (auto simp only: list_all_iff)
qed

lemma recorded_vm_kept:
  assumes "inst \<in> set managed" and "di_worker_id inst = Some (w_id w)" and "w_id w \<noteq> []"
    and "w_instance_id w = Some (di_instance_id inst)" and "di_instance_id inst \<noteq> []"
  shows "kept_instance managed w = Some (di_instance_id inst)"
proof -
  have owned: "inst \<in> set (owned_by (w_id w) managed)" using assms(1,2) by (simp add: owned_by_def)
  then have "w_id w \<in> set (discovered_worker_ids managed)" using assms(3) by (auto simp: discovered_owned)
  moreover have "canonical_instance (owned_by (w_id w) managed) (Some w) = di_instance_id inst"
    using owned assms(4,5) by (auto simp: canonical_instance_def Let_def)
  ultimately show ?thesis by (simp add: kept_instance_def)
qed

text \<open>C8: A VM in use is never terminated. When the row of a worker that should not terminate records a VM,
  that VM is discovered with the worker's id on it, the cloud reports every VM once and no other
  worker records it, then no reconciliation terminates it, however many duplicates or orphans it removes.\<close>

theorem reconcile_spares_recorded_vm:
  assumes "db_wf (wd_db W)" and "cp_discover provider (deployment_id cfg) (wd_cloud W) = (Inr discovered, c)"
    and "reconcile_workers cfg provider now W = (r, W')"
    and "distinct (map di_instance_id discovered)"
    and "w \<in> set (list_deployment_workers cfg (wd_db W))" and "w_desired_state w \<noteq> CLOUD_STATE_TERMINATED"
    and "inst \<in> set discovered" and "is_managed inst" and "di_worker_id inst = Some (w_id w)" and "w_id w \<noteq> []"
    and "w_instance_id w = Some (di_instance_id inst)" and "di_instance_id inst \<noteq> []"
    and "\<And>v. v \<in> set (db_workers (wd_db W)) \<Longrightarrow> w_id v \<noteq> w_id w \<Longrightarrow> w_instance_id v \<noteq> Some (di_instance_id inst)"
  shows "\<exists>calls. wd_calls W' = wd_calls W @ calls \<and> Terminate (di_instance_id inst) \<notin> set calls"
proof -
  have "kept_instance (filter is_managed discovered) w = Some (di_instance_id inst)"
    by (rule recorded_vm_kept) (use assms(7-12) in simp_all)
  then show ?thesis by (rule kept_vm_spared [OF assms(1-10) _ assms(13)])
qed

theorem reconcile_spares_recorded_vm_witness:
  "w_instance_id example_worker = Some ''i-1''
   \<and> Terminate ''i-1'' \<notin> set (wd_calls (snd (reconcile_workers default_settings example_provider 9 example_world)))"
proof -
  have recorded: "w_instance_id example_worker = Some (di_instance_id (example_instance ''i-1''))" by code_simp
  have id: "di_instance_id (example_instance ''i-1'') = ''i-1''" by code_simp
  have "\<exists>calls. wd_calls (snd (reconcile_workers default_settings example_provider 9 example_world)) = wd_calls example_world @ calls
      \<and> Terminate (di_instance_id (example_instance ''i-1'')) \<notin> set calls"
    by (rule reconcile_spares_recorded_vm [OF example_world_facts(1,2) example_run _ _ _ _ _ _ _ recorded])
      (simp_all only: example_world_facts(4), simp_all add: example_world_def example_worker_def example_instance_def
        is_managed_def new_worker_def TAG_MANAGED_def TAG_ROLE_def)
  then show ?thesis using recorded unfolding id example_world_facts(5) by simp
qed

end
