(* ===== verification/Fleet.thy ===== *)
theory Fleet
  imports Reconcile Json
begin

text \<open>
  The slow half of \<^verbatim>\<open>scheduler/scheduler.py\<close> on the workers table: stalled workers, health
  probing, autoscaling, drains and rotations. An operation that loops over workers reads them once and
  then works on these detached objects, as the code does. One operation reads the clock once
  (\<open>now\<close>); identifiers of new workers are arguments. What a worker answers to a health probe is
  the argument \<open>get\<close>: an exception of the HTTP client, or a status code with the parsed body,
  where \<open>None\<close> is a body that is not JSON. Logging and metrics are left out.
\<close>

section \<open>Definitions\<close>

subsection \<open>Stalled workers\<close>

definition mark_terminated :: "time \<Rightarrow> string \<Rightarrow> string \<Rightarrow> db \<Rightarrow> db" where
  "mark_terminated now wid reason d =
     record_scaling_event_now now ''terminate'' reason (Some wid) ''reconciliation'' None
       (commit_fields now wid (\<lambda>r. r\<lparr>w_desired_state := CLOUD_STATE_TERMINATED\<rparr>) d)"

definition active_work :: "string \<Rightarrow> db \<Rightarrow> bool" where
  "active_work wid d \<longleftrightarrow> count_inflight_tasks wid d > 0 \<or> count_unstored_results wid d > 0"

definition converge_stalled_worker :: "gateway_settings \<Rightarrow> time \<Rightarrow> worker \<Rightarrow> db \<Rightarrow> db" where
  "converge_stalled_worker cfg now w d =
    (if \<not> active_work (w_id w) d
     then (if w_desired_state w \<noteq> CLOUD_STATE_TERMINATED
           then mark_terminated now (w_id w) ''stalled worker with no active upstream work'' d else d)
     else
       (let (stalled_at, d1) =
              (case w_stalled_at w of
                 None \<Rightarrow> (now, commit_fields now (w_id w) (\<lambda>r. r\<lparr>w_stalled_at := Some now\<rparr>) d)
               | Some t \<Rightarrow> (t, d))
        in if now - stalled_at \<ge> seconds (stalled_worker_grace_seconds (reconciliation cfg))
              \<and> w_desired_state w \<noteq> CLOUD_STATE_TERMINATED
           then mark_terminated now (w_id w) ''stalled worker grace period expired'' d1 else d1))"

definition converge_stalled_workers :: "gateway_settings \<Rightarrow> time \<Rightarrow> db \<Rightarrow> db" where
  "converge_stalled_workers cfg now d =
     fold (converge_stalled_worker cfg now) (find_stalled_workers cfg d) d"

subsection \<open>Health\<close>

definition STATUS_PORT :: int where "STATUS_PORT = 8001"

text \<open>\<open>str\<close> and \<open>repr\<close> of parsed JSON. In \<open>repr\<close> of a string the quote is chosen as Python does,
  and what is not printable in the first 256 code points is escaped.\<close>

definition repr_char :: "char \<Rightarrow> char \<Rightarrow> string" where
  "repr_char q c =
    (let n = of_char c :: nat in
     if c = q \<or> c = CHR 92 then [CHR 92, c]
     else if n = 9 then [CHR 92, CHR ''t''] else if n = 10 then [CHR 92, CHR ''n'']
     else if n = 13 then [CHR 92, CHR ''r'']
     else if n < 32 \<or> (127 \<le> n \<and> n \<le> 160) \<or> n = 173 then [CHR 92, CHR ''x'', hex_digit (n div 16), hex_digit (n mod 16)]
     else [c])"

definition repr_string :: "string \<Rightarrow> string" where
  "repr_string s =
    (let q = (if CHR 39 \<in> set s \<and> CHR 34 \<notin> set s then CHR 34 else CHR 39)
     in [q] @ concat (map (repr_char q) s) @ [q])"

fun py_repr :: "json \<Rightarrow> string" where
  "py_repr JNull = ''None''"
| "py_repr (JBool b) = (if b then ''True'' else ''False'')"
| "py_repr (JInt n) = show_int n"
| "py_repr (JStr s) = repr_string s"
| "py_repr (JList xs) = ''['' @ join '', '' (map py_repr xs) @ '']''"
| "py_repr (JObj kvs) = ''{'' @ join '', '' (map (\<lambda>(k, v). repr_string k @ '': '' @ py_repr v) kvs) @ ''}''"

definition py_str :: "json \<Rightarrow> string" where
  "py_str v = (case v of JStr s \<Rightarrow> s | _ \<Rightarrow> py_repr v)"

fun json_truthy :: "json \<Rightarrow> bool" where
  "json_truthy JNull = False"
| "json_truthy (JBool b) = b"
| "json_truthy (JInt n) = (n \<noteq> 0)"
| "json_truthy (JStr s) = (s \<noteq> [])"
| "json_truthy (JList xs) = (xs \<noteq> [])"
| "json_truthy (JObj kvs) = (kvs \<noteq> [])"

text \<open>\<open>urllib.parse.urlsplit\<close> on addresses without brackets, as \<open>worker_base_url\<close> makes them.\<close>

definition is_alpha :: "char \<Rightarrow> bool" where
  "is_alpha c \<longleftrightarrow> (CHR ''a'' \<le> c \<and> c \<le> CHR ''z'') \<or> (CHR ''A'' \<le> c \<and> c \<le> CHR ''Z'')"

definition scheme_char :: "char \<Rightarrow> bool" where
  "scheme_char c \<longleftrightarrow> is_alpha c \<or> is_digit c \<or> c \<in> {CHR ''+'', CHR ''-'', CHR ''.''}"

definition url_scheme :: "string \<Rightarrow> string \<times> string" where
  "url_scheme url =
    (let pre = takeWhile (\<lambda>c. c \<noteq> CHR '':'') url; rest = dropWhile (\<lambda>c. c \<noteq> CHR '':'') url
     in if rest \<noteq> [] \<and> pre \<noteq> [] \<and> is_alpha (hd pre) \<and> list_all scheme_char pre
        then (py_lower pre, tl rest) else ([], url))"

definition url_netloc :: "string \<Rightarrow> string" where
  "url_netloc rest = (if take 2 rest = ''//''
     then takeWhile (\<lambda>c. c \<notin> {CHR ''/'', CHR 63, CHR 35}) (drop 2 rest) else [])"

definition url_hostname :: "string \<Rightarrow> string option" where
  "url_hostname netloc =
    (let hostinfo = rev (takeWhile (\<lambda>c. c \<noteq> CHR 64) (rev netloc));
         name = takeWhile (\<lambda>c. c \<noteq> CHR '':'') hostinfo
     in if name = [] then None
        else Some (py_lower (takeWhile (\<lambda>c. c \<noteq> CHR 37) name) @ dropWhile (\<lambda>c. c \<noteq> CHR 37) name))"

definition status_url :: "string \<Rightarrow> string" where
  "status_url base_url =
    (let (scheme, rest) = url_scheme base_url
     in scheme @ ''://'' @ (case url_hostname (url_netloc rest) of None \<Rightarrow> ''None'' | Some h \<Rightarrow> h)
        @ '':'' @ show_int STATUS_PORT)"

type_synonym http_get = "string \<Rightarrow> exc + int \<times> (string + json)"

text \<open>What \<open>except (httpx.HTTPError, ValueError)\<close> catches of the client's exceptions.\<close>

fun http_error :: "exc \<Rightarrow> bool" where
  "http_error (HTTPStatusError _ _) = True"
| "http_error (TransportError _) = True"
| "http_error _ = False"

text \<open>\<open>body.get(key)\<close>: the outer result is the missing attribute of a body that is no object.\<close>

definition body_get :: "string \<Rightarrow> json \<Rightarrow> exc + json option" where
  "body_get key body = (case body of JObj kvs \<Rightarrow> Inr (map_of kvs key) | _ \<Rightarrow> Inl (OtherException None ''AttributeError: get''))"

definition lower_status :: "json option \<Rightarrow> string" where
  "lower_status v = py_lower (case v of None \<Rightarrow> [] | Some x \<Rightarrow> py_str x)"

definition repr_opt :: "json option \<Rightarrow> string" where
  "repr_opt v = (case v of None \<Rightarrow> ''None'' | Some x \<Rightarrow> py_repr x)"

definition opt_truthy :: "json option \<Rightarrow> bool" where
  "opt_truthy v = (case v of None \<Rightarrow> False | Some x \<Rightarrow> json_truthy x)"

text \<open>\<open>raise_for_status\<close> accepts the 2xx statuses only. Failures of the transport, of the status and of the
  JSON parser become \<open>None\<close>, other exceptions pass.\<close>

definition worker_json_get :: "http_get \<Rightarrow> string \<Rightarrow> exc + json option" where
  "worker_json_get get url =
    (case get url of
       Inl e \<Rightarrow> if http_error e then Inr None else Inl e
     | Inr (status, body) \<Rightarrow>
         if 200 \<le> status \<and> status < 300
         then (case body of Inl _ \<Rightarrow> Inr None | Inr v \<Rightarrow> Inr (Some v))
         else Inr None)"

definition poll_provisioning_status :: "http_get \<Rightarrow> string \<Rightarrow> exc + bool \<times> string option" where
  "poll_provisioning_status get base_url =
    (case get (status_url base_url @ ''/health'') of
       Inl e \<Rightarrow> if http_error e then Inr (False, Some (exc_str e)) else Inl e
     | Inr (_, Inl msg) \<Rightarrow> Inr (False, Some msg)
     | Inr (_, Inr body) \<Rightarrow>
         (case (body_get ''status'' body, body_get ''stage'' body, body_get ''detail'' body) of
            (Inr status, Inr stage, Inr detail) \<Rightarrow>
              if lower_status status = ''ready'' then Inr (True, None)
              else (let err = (if opt_truthy stage then ''stage='' @ py_str (the stage) else ''status='' @ repr_opt status)
                    in Inr (False, Some (if opt_truthy detail then err @ '' detail='' @ py_str (the detail) else err)))
          | _ \<Rightarrow> Inl (OtherException None ''AttributeError: get'')))"

definition poll_health :: "http_get \<Rightarrow> string \<Rightarrow> exc + bool \<times> string option" where
  "poll_health get base_url =
    (case get (base_url @ ''/health'') of
       Inl e \<Rightarrow> if http_error e then Inr (False, Some (exc_str e)) else Inl e
     | Inr (status_code, body) \<Rightarrow>
         if status_code \<noteq> 200 then Inr (False, Some (''HTTP '' @ show_int status_code))
         else (case body of
                 Inl msg \<Rightarrow> Inr (False, Some msg)
               | Inr v \<Rightarrow>
                   (case body_get ''status'' v of
                      Inl e \<Rightarrow> Inl e
                    | Inr status \<Rightarrow>
                        if lower_status status \<notin> {''healthy'', ''ok''} then Inr (False, Some (''status='' @ repr_opt status))
                        else Inr (True, None))))"

definition check_worker_health :: "http_get \<Rightarrow> worker \<Rightarrow> exc + string \<times> bool \<times> string option \<times> bool" where
  "check_worker_health get w =
    (let provisioning = (w_ready_at w = None);
         base_url = (case w_base_url w of None \<Rightarrow> [] | Some u \<Rightarrow> u)
     in case (if provisioning then poll_provisioning_status get base_url else poll_health get base_url) of
          Inl e \<Rightarrow> Inl e
        | Inr (ok, err) \<Rightarrow> Inr (w_id w, ok, err, provisioning))"

text \<open>\<open>asyncio.gather\<close>: all probes run, the first exception wins.\<close>

fun gather :: "(exc + 'a) list \<Rightarrow> exc + 'a list" where
  "gather [] = Inr []"
| "gather (r # rs) = (case r of Inl e \<Rightarrow> Inl e | Inr x \<Rightarrow> (case gather rs of Inl e \<Rightarrow> Inl e | Inr xs \<Rightarrow> Inr (x # xs)))"

definition refresh_worker_health ::
    "gateway_settings \<Rightarrow> http_get \<Rightarrow> time \<Rightarrow> db \<Rightarrow> (exc + nat) \<times> db" where
  "refresh_worker_health cfg get now d =
    (case list_health_check_candidates cfg 32 d of
       [] \<Rightarrow> (Inr 0, d)
     | workers \<Rightarrow>
         (case gather (map (check_worker_health get) workers) of
            Inl e \<Rightarrow> (Inl e, d)
          | Inr results \<Rightarrow> (case apply_health_checks now results d of (n, d') \<Rightarrow> (Inr n, d'))))"

subsection \<open>Autoscaling\<close>

definition integrity_error :: "db_error \<Rightarrow> exc" where
  "integrity_error _ = OtherException None ''IntegrityError: workers.id''"

definition compute_signal :: "gateway_settings \<Rightarrow> db \<Rightarrow> ScalingSignal" where
  "compute_signal cfg d = compute_scaling_signal (collect_scaling_inputs cfg d)
     (target_per_worker (scaling cfg)) (min_workers (scaling cfg)) (max_workers (scaling cfg))"

definition scale_up :: "gateway_settings \<Rightarrow> time \<Rightarrow> string \<Rightarrow> db \<Rightarrow> exc + bool \<times> db" where
  "scale_up cfg now new_id d =
    (case find_stopped_worker cfg d of
       Some stopped \<Rightarrow>
         Inr (True, commit_fields now (w_id stopped) (\<lambda>r. r\<lparr>w_desired_state := CLOUD_STATE_RUNNING,
           w_failure_count := 0, w_retry_after := None, w_start_requested_at := Some now, w_ready_at := None\<rparr>) d)
     | None \<Rightarrow>
         if count_workers cfg d < max_workers (scaling cfg)
         then map_sum integrity_error (\<lambda>(_, d'). (True, d')) (create_cloud_worker cfg now new_id d)
         else if count_stalled_workers cfg d > 0 \<and> count_serviceable_workers cfg d = 0
            \<and> count_workers cfg d < max_workers (scaling cfg) + 1
         then map_sum integrity_error (\<lambda>(_, d'). (True, d')) (create_cloud_worker cfg now new_id d)
         else Inr (False, d))"

text \<open>\<open>has_provider\<close>: whether a compute provider is configured; the second component is
  \<open>_last_scale_up\<close>.\<close>

definition apply_autoscaling ::
    "gateway_settings \<Rightarrow> bool \<Rightarrow> time \<Rightarrow> string \<Rightarrow> time option \<Rightarrow> db \<Rightarrow> (exc + unit) \<times> time option \<times> db" where
  "apply_autoscaling cfg has_provider now new_id last_scale_up d =
    (if \<not> has_provider then (Inr (), last_scale_up, d)
     else
       (let signal = compute_signal cfg d;
            provisioned = serviceable_workers signal + starting_workers signal
        in if should_scale_up signal
           then
             (let zero_recovery = (provisioned = 0 \<and> desired_workers signal > 0)
              in if \<not> zero_recovery
                    \<and> (case last_scale_up of None \<Rightarrow> False
                       | Some t \<Rightarrow> now - t < seconds (scale_up_cooldown_seconds (scaling cfg)))
                 then (Inr (), last_scale_up, d)
                 else (case scale_up cfg now new_id d of
                         Inl e \<Rightarrow> (Inl e, last_scale_up, d)
                       | Inr (False, d') \<Rightarrow> (Inr (), last_scale_up, d')
                       | Inr (True, d') \<Rightarrow>
                           (Inr (), Some now,
                            record_scaling_event_now now ''start''
                              (''desired '' @ show_int (desired_workers signal) @ '' > provisioned '' @ show_int provisioned)
                              None ''autoscaler'' None d')))
           else if should_scale_down signal
           then (case find_idle_worker cfg (now - seconds (idle_cooldown_seconds (scaling cfg))) d of
                   None \<Rightarrow> (Inr (), last_scale_up, d)
                 | Some idle \<Rightarrow>
                     (Inr (), last_scale_up,
                      record_scaling_event_now now ''stop'' ''serviceable exceeds desired'' (Some (w_id idle)) ''autoscaler'' None
                        (commit_fields now (w_id idle)
                          (\<lambda>r. r\<lparr>w_draining := True, w_drain_target := Some CLOUD_STATE_STOPPED\<rparr>) d)))
           else (Inr (), last_scale_up, d)))"

subsection \<open>Drains and rotations\<close>

definition advance_drain :: "gateway_settings \<Rightarrow> time \<Rightarrow> worker \<Rightarrow> db \<Rightarrow> db" where
  "advance_drain cfg now w d =
    (if count_inflight_tasks (w_id w) d > 0 \<or> count_unstored_results (w_id w) d > 0 then d
     else if has_active_replacement_for cfg (w_id w) d
     then (if get_ready_replacement_for cfg (w_id w) d = None then d
           else commit_fields now (w_id w) (\<lambda>r. r\<lparr>w_desired_state := CLOUD_STATE_TERMINATED\<rparr>) d)
     else if w_drain_target w = Some CLOUD_STATE_TERMINATED
     then commit_fields now (w_id w) (\<lambda>r. r\<lparr>w_desired_state := CLOUD_STATE_TERMINATED\<rparr>) d
     else commit_fields now (w_id w) (\<lambda>r. r\<lparr>w_desired_state := CLOUD_STATE_STOPPED,
            w_draining := False, w_drain_target := None\<rparr>) d)"

definition advance_drains :: "gateway_settings \<Rightarrow> time \<Rightarrow> db \<Rightarrow> db" where
  "advance_drains cfg now d = fold (advance_drain cfg now) (find_draining_workers cfg d) d"

definition worker_is_ready :: "worker \<Rightarrow> bool" where
  "worker_is_ready w \<longleftrightarrow> w_desired_state w = CLOUD_STATE_RUNNING \<and> w_cloud_state w = CLOUD_STATE_RUNNING
     \<and> w_healthy w \<and> w_ready_at w \<noteq> None \<and> w_base_url w \<noteq> None"

definition progress_rotation :: "gateway_settings \<Rightarrow> time \<Rightarrow> worker \<Rightarrow> db \<Rightarrow> db" where
  "progress_rotation cfg now replacement d =
    (case w_replacement_for replacement of
       None \<Rightarrow> d
     | Some old_id \<Rightarrow>
         (let old = (if old_id = [] then None else get_worker cfg old_id d) in
          if w_desired_state replacement \<noteq> CLOUD_STATE_TERMINATED \<and> \<not> worker_is_ready replacement
             \<and> (case w_start_requested_at replacement of None \<Rightarrow> False
                | Some t \<Rightarrow> now - t > seconds (readiness_timeout_seconds (rotation cfg)))
          then commit_fields now (w_id replacement) (\<lambda>r. r\<lparr>w_desired_state := CLOUD_STATE_TERMINATED\<rparr>) d
          else (case old of
                  None \<Rightarrow> d
                | Some o_row \<Rightarrow>
                    if worker_is_ready replacement \<and> \<not> w_draining o_row \<and> w_terminated_at o_row = None
                    then commit_fields now (w_id o_row) (\<lambda>r. r\<lparr>w_draining := True\<rparr>) d else d)))"

definition progress_rotations :: "gateway_settings \<Rightarrow> time \<Rightarrow> db \<Rightarrow> db" where
  "progress_rotations cfg now d = fold (progress_rotation cfg now) (find_replacement_workers cfg d) d"

definition finalize_terminations :: "gateway_settings \<Rightarrow> time \<Rightarrow> db \<Rightarrow> db" where
  "finalize_terminations cfg now d =
     fold (\<lambda>w. finalize_terminated_worker now (w_id w)) (find_workers_pending_termination_finalize cfg d) d"

definition start_new_rotations :: "gateway_settings \<Rightarrow> bool \<Rightarrow> time \<Rightarrow> string \<Rightarrow> db \<Rightarrow> (exc + unit) \<times> db" where
  "start_new_rotations cfg has_provider now new_id d =
    (if \<not> has_provider then (Inr (), d)
     else if count_active_replacements cfg d > 0 then (Inr (), d)
     else if count_workers cfg d \<ge> max_workers (scaling cfg) + 1 then (Inr (), d)
     else
       (case (case find_emergency_rotation_target cfg d of
                Some target \<Rightarrow> Some target
              | None \<Rightarrow> find_scheduled_rotation_target cfg (now - seconds (rotation_interval_seconds (rotation cfg))) d) of
          None \<Rightarrow> (Inr (), d)
        | Some target \<Rightarrow>
            (case start_rotation_replacement cfg now new_id target d of
               Inl e \<Rightarrow> (Inl (integrity_error e), d)
             | Inr (_, d') \<Rightarrow> (Inr (), d'))))"

text \<open>The second component is \<open>_next_rotation_check_at\<close>.\<close>

definition advance_drains_and_rotations ::
    "gateway_settings \<Rightarrow> bool \<Rightarrow> time \<Rightarrow> string \<Rightarrow> time option \<Rightarrow> db \<Rightarrow> (exc + unit) \<times> time option \<times> db" where
  "advance_drains_and_rotations cfg has_provider now new_id next_check d =
    (let d1 = finalize_terminations cfg now (advance_drains cfg now (progress_rotations cfg now d))
     in if next_check = None \<or> now \<ge> the next_check
        then (case start_new_rotations cfg has_provider now new_id d1 of
                (Inl e, d2) \<Rightarrow> (Inl e, next_check, d2)
              | (Inr _, d2) \<Rightarrow> (Inr (), Some (now + seconds (rotation_interval_seconds (rotation cfg))), d2))
        else (Inr (), next_check, d1))"

section \<open>Lemmas\<close>

lemma fleet_commit_row:
  assumes "db_wf d" and "get_worker_row wid d = Some w" and "worker_evolves w (f w)"
  shows "fleet_step d (commit_fields now wid f d)"
proof -
  have "worker_evolves r (save_worker now (\<lambda>r. (f r)\<lparr>w_updated_at := now\<rparr>) r)" if "r \<in> set (db_workers d)" "w_id r = wid" for r
  proof -
    have "r = w" using get_worker_row_mem [OF assms(1) that(1)] that(2) assms(2) by simp
    then show ?thesis using assms(3) by (simp add: worker_evolves_def)
  qed
  then show ?thesis unfolding commit_fields_def fleet_step_def upd_worker_def
    by (auto simp: db_update_def list.rel_map intro!: list.rel_refl_strong)
qed

text \<open>A loop over rows read beforehand, each round of which writes at most the row it is about: every
  round still sees its row as it was read.\<close>

lemma fold_snapshot:
  assumes "I d" and "distinct (map w_id ws)" and "\<And>w. w \<in> set ws \<Longrightarrow> get_worker_row (w_id w) d = Some w"
    and step: "\<And>w d'. w \<in> set ws \<Longrightarrow> I d' \<Longrightarrow> get_worker_row (w_id w) d' = Some w \<Longrightarrow> fleet_step d' (f w d') \<and> I (f w d')"
    and frame: "\<And>w d' k. w \<in> set ws \<Longrightarrow> k \<noteq> w_id w \<Longrightarrow> get_worker_row k (f w d') = get_worker_row k d'"
  shows "fleet_step d (fold f ws d) \<and> I (fold f ws d)
    \<and> (\<forall>k. k \<notin> w_id ` set ws \<longrightarrow> get_worker_row k (fold f ws d) = get_worker_row k d)
    \<and> (\<forall>w \<in> set ws. \<exists>d'. fleet_step d d' \<and> I d' \<and> get_worker_row (w_id w) d' = Some w
         \<and> fleet_step (f w d') (fold f ws d)
         \<and> get_worker_row (w_id w) (fold f ws d) = get_worker_row (w_id w) (f w d'))"
  using assms
proof (induction ws arbitrary: d)
  case (Cons w ws)
  let ?d1 = "f w d"
  have one: "fleet_step d ?d1" "I ?d1" using Cons.prems(1,3,4) by simp_all
  have rows: "get_worker_row (w_id v) ?d1 = Some v" if "v \<in> set ws" for v
  proof -
    have "w_id v \<noteq> w_id w" using Cons.prems(2) that by (metis distinct.simps(2) image_eqI list.set_map list.simps(9))
    then show ?thesis using Cons.prems(3) [of v] Cons.prems(5) [of w "w_id v" d] that by simp
  qed
  have IH: "fleet_step ?d1 (fold f ws ?d1) \<and> I (fold f ws ?d1)
    \<and> (\<forall>k. k \<notin> w_id ` set ws \<longrightarrow> get_worker_row k (fold f ws ?d1) = get_worker_row k ?d1)
    \<and> (\<forall>v \<in> set ws. \<exists>d'. fleet_step ?d1 d' \<and> I d' \<and> get_worker_row (w_id v) d' = Some v
         \<and> fleet_step (f v d') (fold f ws ?d1)
         \<and> get_worker_row (w_id v) (fold f ws ?d1) = get_worker_row (w_id v) (f v d'))"
  proof (rule Cons.IH [OF one(2) _ rows])
    show "distinct (map w_id ws)" using Cons.prems(2) by simp
  qed (use Cons.prems(4,5) in auto)
  have other: "get_worker_row k ?d1 = get_worker_row k d" if "k \<noteq> w_id w" for k
    using Cons.prems(5) [of w k d] that by simp
  have "\<exists>d'. fleet_step d d' \<and> I d' \<and> get_worker_row (w_id v) d' = Some v \<and> fleet_step (f v d') (fold f ws ?d1)
      \<and> get_worker_row (w_id v) (fold f ws ?d1) = get_worker_row (w_id v) (f v d')" if v: "v \<in> set (w # ws)" for v
  proof (cases "v = w")
    case True
    have "w_id w \<notin> w_id ` set ws" using Cons.prems(2) by auto
    then have "get_worker_row (w_id w) (fold f ws ?d1) = get_worker_row (w_id w) ?d1" using IH by blast
    moreover have "get_worker_row (w_id w) d = Some w" using Cons.prems(3) by simp
    ultimately show ?thesis unfolding True using conjunct1 [OF IH] Cons.prems(1) by (intro exI [of _ d] conjI) simp_all
  next
    case False
    then have "v \<in> set ws" using v by simp
    then show ?thesis using IH fleet_step_trans [OF one(1)] by meson
  qed
  moreover have "fleet_step d (fold f ws ?d1)" using IH fleet_step_trans [OF one(1)] by blast
  moreover have "\<forall>k. k \<notin> w_id ` set (w # ws) \<longrightarrow> get_worker_row k (fold f ws ?d1) = get_worker_row k d"
    using IH other by auto
  ultimately show ?case using IH by simp
qed simp

lemma snapshot_filter:
  assumes "db_wf d"
  shows "distinct (map w_id (filter P (db_workers d)))"
    and "w \<in> set (filter P (db_workers d)) \<Longrightarrow> get_worker_row (w_id w) d = Some w"
  using assms get_worker_row_mem [OF assms, of w] by (auto simp: db_wf_def distinct_map_filter)

text \<open>Every operation of this theory that adds no worker is a step of the fleet.\<close>

lemma fleet_mark_terminated: "fleet_step d (mark_terminated now wid reason d)"
  unfolding mark_terminated_def
  by (rule fleet_step_trans [OF fleet_commit fleet_event]) (simp add: worker_evolves_def)

lemma fleet_converge_one: "fleet_step d (converge_stalled_worker cfg now w d)"
proof -
  have stamp: "fleet_step d (commit_fields now (w_id w) (\<lambda>r. r\<lparr>w_stalled_at := Some now\<rparr>) d)"
    by (rule fleet_commit) (simp add: worker_evolves_def)
  show ?thesis
    using stamp fleet_mark_terminated fleet_step_trans [OF stamp fleet_mark_terminated]
    by (auto simp: converge_stalled_worker_def split: option.splits)
qed

lemma fleet_converge: "fleet_step d (converge_stalled_workers cfg now d)"
  unfolding converge_stalled_workers_def by (rule fleet.fold_step) (rule fleet_converge_one)

lemma fleet_health: "fleet_step d (snd (apply_health_checks now results d))"
proof (induction now results d rule: apply_health_checks.induct)
  case (2 now wid ok err provisioning results d)
  have "fleet_step d (upd_worker now wid (health_checked_row now ok err provisioning) d)"
    by (rule fleet_upd_worker) (simp add: worker_evolves_def health_checked_row_def Let_def)
  then show ?case using 2 fleet_step_trans by (auto split: option.splits prod.splits)
qed simp

lemma fleet_refresh: "fleet_step d (snd (refresh_worker_health cfg get now d))"
proof (cases "list_health_check_candidates cfg 32 d")
  case (Cons w ws)
  show ?thesis
  proof (cases "gather (map (check_worker_health get) (w # ws))")
    case (Inr results)
    have "fleet_step d (snd (apply_health_checks now results d))" by (rule fleet_health)
    then show ?thesis unfolding refresh_worker_health_def Cons list.case Inr sum.case by (cases "apply_health_checks now results d") simp
  next
    case (Inl e)
    then show ?thesis unfolding refresh_worker_health_def Cons list.case Inl sum.case by simp
  qed
qed (simp add: refresh_worker_health_def)

lemma fleet_progress: "fleet_step d (progress_rotations cfg now d)"
  unfolding progress_rotations_def
proof (rule fleet.fold_step)
  fix w s
  show "fleet_step s (progress_rotation cfg now w s)"
    unfolding progress_rotation_def Let_def
    by (auto split: option.splits intro!: fleet_commit simp: worker_evolves_def)
qed

lemma fleet_finalize_terminated: "fleet_step d (finalize_terminated_worker now wid d)"
proof -
  let ?d = "d\<lparr>db_workers := db_update_where (\<lambda>w. w_replacement_for w = Some wid)
      (save_worker now (\<lambda>r. r\<lparr>w_replacement_for := None\<rparr>)) (db_workers d)\<rparr>"
  have "fleet_step d ?d"
    by (auto simp: fleet_step_def worker_evolves_def intro!: db_update_where_all2)
  moreover have "fleet_step ?d (upd_worker now wid (\<lambda>r. r\<lparr>w_terminated_at := Some now\<rparr>) ?d)"
    by (rule fleet_upd_worker) (simp add: worker_evolves_def)
  ultimately show ?thesis unfolding finalize_terminated_worker_def Let_def by (rule fleet_step_trans)
qed

lemma fleet_finalize: "fleet_step d (finalize_terminations cfg now d)"
  unfolding finalize_terminations_def by (rule fleet.fold_step) (rule fleet_finalize_terminated)

subsection \<open>Drains\<close>

lemma filter_db_update:
  assumes "\<And>r. r \<in> set rows \<Longrightarrow> key r = k \<Longrightarrow> \<not> P r \<and> \<not> P (g r)"
  shows "filter P (db_update key k g rows) = filter P rows"
  using assms by (induction rows) (auto simp: db_update_Cons)

lemma filter_commit:
  assumes "db_wf d" and "get_worker_row wid d = Some w" and "\<not> P w"
    and "\<not> P (save_worker now (\<lambda>r. (f r)\<lparr>w_updated_at := now\<rparr>) w)"
  shows "filter P (db_workers (commit_fields now wid f d)) = filter P (db_workers d)"
proof -
  have "r = w" if "r \<in> set (db_workers d)" "w_id r = wid" for r
    using get_worker_row_mem [OF assms(1) that(1)] that(2) assms(2) by simp
  then show ?thesis
    using assms(3,4) unfolding commit_fields_def upd_worker_tables by (intro filter_db_update) auto
qed

text \<open>While drains advance, tasks and the set of workers ready for service stay the same.\<close>

definition drain_inv :: "gateway_settings \<Rightarrow> db \<Rightarrow> db \<Rightarrow> bool" where
  "drain_inv cfg d d' \<longleftrightarrow> db_wf d' \<and> db_tasks d' = db_tasks d
     \<and> filter (ready_serviceable_clause cfg) (db_workers d') = filter (ready_serviceable_clause cfg) (db_workers d)"

lemma ready_replacement_filter:
  "get_ready_replacement_for cfg wid d = db_first (\<lambda>w. w_replacement_for w = Some wid) w_created_at
     (filter (ready_serviceable_clause cfg) (db_workers d))"
  by (simp add: get_ready_replacement_for_def db_first_def conj_commute)

lemma drain_commit:
  assumes "drain_inv cfg d0 d" and "get_worker_row (w_id w) d = Some w" and "draining_clause cfg w"
    and "worker_evolves w (f w)" and "w_desired_state (f w) \<noteq> CLOUD_STATE_RUNNING"
  shows "fleet_step d (commit_fields now (w_id w) f d) \<and> drain_inv cfg d0 (commit_fields now (w_id w) f d)"
proof -
  have step: "fleet_step d (commit_fields now (w_id w) f d)"
    using assms(1,2,4) fleet_commit_row [of d "w_id w" w f] by (simp add: drain_inv_def)
  moreover have "filter (ready_serviceable_clause cfg) (db_workers (commit_fields now (w_id w) f d))
      = filter (ready_serviceable_clause cfg) (db_workers d)"
    by (rule filter_commit [OF _ assms(2)]) (use assms in \<open>simp_all add: drain_inv_def clause_defs\<close>)
  ultimately show ?thesis using assms(1) fleet_wf [OF step] by (simp add: drain_inv_def)
qed

lemma advance_drain_step:
  assumes "draining_clause cfg w" and "drain_inv cfg d0 d" and "get_worker_row (w_id w) d = Some w"
  shows "fleet_step d (advance_drain cfg now w d) \<and> drain_inv cfg d0 (advance_drain cfg now w d)"
proof -
  have live: "w_desired_state w \<noteq> CLOUD_STATE_TERMINATED" using assms(1) by (simp add: draining_clause_def)
  have keep: "fleet_step d d \<and> drain_inv cfg d0 d" using assms(2) by simp
  note commit = drain_commit [OF assms(2,3,1)]
  have kill: "fleet_step d (commit_fields now (w_id w) (\<lambda>r. r\<lparr>w_desired_state := CLOUD_STATE_TERMINATED\<rparr>) d)
      \<and> drain_inv cfg d0 (commit_fields now (w_id w) (\<lambda>r. r\<lparr>w_desired_state := CLOUD_STATE_TERMINATED\<rparr>) d)"
    by (rule commit) (simp_all add: worker_evolves_def)
  have stop: "fleet_step d (commit_fields now (w_id w) (\<lambda>r. r\<lparr>w_desired_state := CLOUD_STATE_STOPPED,
            w_draining := False, w_drain_target := None\<rparr>) d)
      \<and> drain_inv cfg d0 (commit_fields now (w_id w) (\<lambda>r. r\<lparr>w_desired_state := CLOUD_STATE_STOPPED,
            w_draining := False, w_drain_target := None\<rparr>) d)"
    by (rule commit) (use live in \<open>simp_all add: worker_evolves_def\<close>)
  show ?thesis unfolding advance_drain_def using keep kill stop by (simp only: split: if_splits) blast
qed

lemma advance_drain_frame: "k \<noteq> w_id w \<Longrightarrow> get_worker_row k (advance_drain cfg now w d) = get_worker_row k d"
  by (simp add: advance_drain_def commit_fields_get)

lemma advance_drains_fold:
  assumes "db_wf d"
  shows "fleet_step d (advance_drains cfg now d) \<and> drain_inv cfg d (advance_drains cfg now d)
    \<and> (\<forall>k. k \<notin> w_id ` set (find_draining_workers cfg d) \<longrightarrow>
         get_worker_row k (advance_drains cfg now d) = get_worker_row k d)
    \<and> (\<forall>w \<in> set (find_draining_workers cfg d). \<exists>d'. fleet_step d d' \<and> drain_inv cfg d d' \<and> get_worker_row (w_id w) d' = Some w
         \<and> fleet_step (advance_drain cfg now w d') (advance_drains cfg now d)
         \<and> get_worker_row (w_id w) (advance_drains cfg now d) = get_worker_row (w_id w) (advance_drain cfg now w d'))"
  unfolding advance_drains_def
proof (rule fold_snapshot)
  show "drain_inv cfg d d" using assms by (simp add: drain_inv_def)
  show "distinct (map w_id (find_draining_workers cfg d))"
    unfolding find_draining_workers_def by (rule snapshot_filter(1) [OF assms])
  show "get_worker_row (w_id w) d = Some w" if "w \<in> set (find_draining_workers cfg d)" for w
    using snapshot_filter(2) [OF assms] that unfolding find_draining_workers_def .
qed (auto simp: find_draining_workers_def intro: advance_drain_step advance_drain_frame
    dest: conjunct1 [OF advance_drain_step] conjunct2 [OF advance_drain_step])

subsection \<open>The size of the fleet\<close>

text \<open>What the slow half may do to the workers: rows evolve, new ones are only appended, at most one
  more worker than \<open>max_workers\<close> and at most one replacement at a time.\<close>

definition fleet_bounded :: "gateway_settings \<Rightarrow> db \<Rightarrow> db \<Rightarrow> bool" where
  "fleet_bounded cfg d d' \<longleftrightarrow> db_tasks d' = db_tasks d \<and> db_cache d' = db_cache d
     \<and> (db_wf d \<longrightarrow> db_wf d'
          \<and> (\<exists>rows new. db_workers d' = rows @ new \<and> list_all2 worker_evolves (db_workers d) rows)
          \<and> count_workers cfg d' \<le> max (count_workers cfg d) (max_workers (scaling cfg) + 1)
          \<and> count_active_replacements cfg d' \<le> max (count_active_replacements cfg d) 1)"

lemma fleet_active: "fleet_step d d' \<Longrightarrow> count_active_replacements cfg d' \<le> count_active_replacements cfg d"
  unfolding count_active_replacements_def count_where_def fleet_step_def
  using list_all2_count [of worker_evolves "db_workers d" "db_workers d'"
      "\<lambda>w. deployment_clause cfg w \<and> w_replacement_for w \<noteq> None \<and> w_desired_state w \<noteq> CLOUD_STATE_TERMINATED"]
  by (auto simp: worker_evolves_def deployment_clause_def)

lemma fleet_has_active:
  assumes "fleet_step d d'" and "has_active_replacement_for cfg wid d'"
  shows "has_active_replacement_for cfg wid d"
  using assms list_all2_count [of worker_evolves "db_workers d" "db_workers d'"
      "\<lambda>w. deployment_clause cfg w \<and> w_replacement_for w = Some wid \<and> w_desired_state w \<noteq> CLOUD_STATE_TERMINATED"]
  unfolding has_active_replacement_for_def count_where_def fleet_step_def
  by (fastforce simp: worker_evolves_def deployment_clause_def)

lemma rows_kept: "list_all2 R xs ys \<Longrightarrow> \<exists>rows new. ys = rows @ new \<and> list_all2 R xs rows"
  by (intro exI [of _ ys] exI [of _ "[]"]) simp

lemma fleet_bounded_refl: "fleet_bounded cfg d d"
proof -
  have "list_all2 worker_evolves (db_workers d) (db_workers d)" by (simp add: list_all2_refl)
  from rows_kept [OF this] show ?thesis by (simp add: fleet_bounded_def)
qed

lemma fleet_bounded_trans:
  assumes "fleet_bounded cfg a b" and "fleet_bounded cfg b c"
  shows "fleet_bounded cfg a c"
proof -
  have rows: "\<exists>rows new. db_workers c = rows @ new \<and> list_all2 worker_evolves (db_workers a) rows" if wf: "db_wf a"
  proof -
    obtain r1 n1 where 1: "db_workers b = r1 @ n1" "list_all2 worker_evolves (db_workers a) r1"
      using assms(1) wf by (auto simp: fleet_bounded_def)
    obtain r2 n2 where 2: "db_workers c = r2 @ n2" "list_all2 worker_evolves (r1 @ n1) r2"
      using assms wf 1(1) by (auto simp: fleet_bounded_def)
    obtain r3 n3 where 3: "r2 = r3 @ n3" "list_all2 worker_evolves r1 r3" using 2(2) by (auto simp: list_all2_append1)
    have "list_all2 worker_evolves (db_workers a) r3"
      by (rule list_all2_trans [OF worker_evolves_trans 1(2) 3(2)])
    then show ?thesis using 2(1) 3(1) by auto
  qed
  show ?thesis using assms rows by (auto simp: fleet_bounded_def)
qed

interpretation bounded: step_relation "fleet_bounded cfg" for cfg
  by unfold_locales (auto intro: fleet_bounded_refl fleet_bounded_trans)

lemma bounded_fleet: "fleet_step d d' \<Longrightarrow> fleet_bounded cfg d d'"
  using fleet_count [of d d' cfg] fleet_active [of d d' cfg] fleet_wf [of d d']
  by (auto simp: fleet_bounded_def fleet_step_def intro: rows_kept)

text \<open>Adding one worker row.\<close>

lemma bounded_insert:
  assumes "db_insert w_id w (db_workers d) = Inr rows" and "count_workers cfg d \<le> max_workers (scaling cfg)"
    and "w_replacement_for w = None \<or> count_active_replacements cfg d = 0"
  shows "fleet_bounded cfg d (d\<lparr>db_workers := rows\<rparr>)"
proof -
  have rows: "rows = db_workers d @ [w]" "w_id w \<notin> w_id ` set (db_workers d)"
    using assms(1) by (auto simp: db_insert_result db_get_None split: if_splits)
  have "db_wf (d\<lparr>db_workers := rows\<rparr>)" if "db_wf d" using that rows by (auto simp: db_wf_def)
  moreover have "count_workers cfg (d\<lparr>db_workers := rows\<rparr>) \<le> count_workers cfg d + 1"
    by (simp add: count_workers_def count_where_def rows db_count_Cons)
  moreover have "count_active_replacements cfg (d\<lparr>db_workers := rows\<rparr>) \<le> max (count_active_replacements cfg d) 1"
    using assms(3) by (auto simp: count_active_replacements_def count_where_def rows db_count_Cons)
  ultimately show ?thesis using assms(2) rows by (auto simp: fleet_bounded_def list_all2_refl)
qed

lemma bounded_create:
  assumes "create_cloud_worker cfg now new_id d = Inr (i, d')" and "count_workers cfg d \<le> max_workers (scaling cfg)"
  shows "fleet_bounded cfg d d'"
  using assms by (auto simp: create_cloud_worker_def Let_def new_worker_def split: sum.splits intro!: bounded_insert)

lemma bounded_scale_up:
  assumes "db_wf d" and "scale_up cfg now new_id d = Inr (b, d')"
  shows "fleet_bounded cfg d d'"
proof (cases "find_stopped_worker cfg d")
  case (Some w)
  have w: "w \<in> set (db_workers d)" "w_desired_state w = CLOUD_STATE_STOPPED"
    using Some unfolding find_stopped_worker_def by (auto dest: db_find_Some)
  have "fleet_step d d'"
    using assms(2) Some
    by (auto simp: scale_up_def intro!: fleet_commit_row [OF assms(1) get_worker_row_mem [OF assms(1) w(1)]]
        simp: worker_evolves_def w(2))
  then show ?thesis by (rule bounded_fleet)
next
  case None
  have "fleet_bounded cfg d d'"
    if "map_sum integrity_error (\<lambda>(_, d'). (True, d')) (create_cloud_worker cfg now new_id d) = Inr (b, d')"
      "count_workers cfg d \<le> max_workers (scaling cfg)"
    using that bounded_create by (cases "create_cloud_worker cfg now new_id d") auto
  then show ?thesis using assms(2) None by (auto simp: scale_up_def bounded.step_refl split: if_splits)
qed

lemma bounded_event:
  "fleet_bounded cfg d d' \<Longrightarrow> fleet_bounded cfg d (record_scaling_event_now now a r w t q d')"
  using bounded.step_trans bounded_fleet [OF fleet_event] by blast

lemma autoscaling_cases [consumes 1, case_names same up down]:
  assumes "apply_autoscaling cfg prov now new_id since d = (r, since', d')"
  obtains (same) "d' = d"
  | (up) b d1 reason where "scale_up cfg now new_id d = Inr (b, d1)"
      "d' = d1 \<or> d' = record_scaling_event_now now ''start'' reason None ''autoscaler'' None d1"
  | (down) idle where "should_scale_down (compute_signal cfg d)"
      "find_idle_worker cfg (now - seconds (idle_cooldown_seconds (scaling cfg))) d = Some idle"
      "d' = record_scaling_event_now now ''stop'' ''serviceable exceeds desired'' (Some (w_id idle)) ''autoscaler'' None
        (commit_fields now (w_id idle) (\<lambda>r. r\<lparr>w_draining := True, w_drain_target := Some CLOUD_STATE_STOPPED\<rparr>) d)"
proof (cases "prov \<and> should_scale_up (compute_signal cfg d)")
  case True
  show ?thesis
  proof (cases "scale_up cfg now new_id d")
    case (Inl e)
    then have "d' = d" using assms True by (auto simp: apply_autoscaling_def Let_def split: if_splits)
    then show ?thesis by (rule same)
  next
    case (Inr a)
    obtain b d1 where a: "a = (b, d1)" by (cases a)
    have "d' = d \<or> d' = d1 \<or> (\<exists>reason. d' = record_scaling_event_now now ''start'' reason None ''autoscaler'' None d1)"
      using assms True Inr a unfolding apply_autoscaling_def Let_def by (cases b) (simp_all split: if_splits, blast+)
    then show ?thesis using same up [OF Inr [unfolded a]] by blast
  qed
next
  case False
  show ?thesis
  proof (cases "prov \<and> should_scale_down (compute_signal cfg d)
      \<and> find_idle_worker cfg (now - seconds (idle_cooldown_seconds (scaling cfg))) d \<noteq> None")
    case True
    then show ?thesis using False assms by (auto simp: apply_autoscaling_def Let_def intro: down)
  next
    case no: False
    then have "d' = d" using False assms by (auto simp: apply_autoscaling_def Let_def split: if_splits option.splits)
    then show ?thesis by (rule same)
  qed
qed

lemma bounded_autoscaling:
  assumes "db_wf d" and "apply_autoscaling cfg prov now new_id since d = (r, since', d')"
  shows "fleet_bounded cfg d d'"
proof -
  have drain: "fleet_bounded cfg d (commit_fields now wid (\<lambda>r. r\<lparr>w_draining := True, w_drain_target := Some CLOUD_STATE_STOPPED\<rparr>) d)" for wid
    by (rule bounded_fleet, rule fleet_commit) (simp add: worker_evolves_def)
  from assms(2) show ?thesis
    by (cases rule: autoscaling_cases) (use bounded_scale_up [OF assms(1)] drain in \<open>auto intro: bounded_event bounded.step_refl\<close>)
qed

lemma bounded_rotations:
  assumes "start_new_rotations cfg prov now new_id d = (r, d')"
  shows "fleet_bounded cfg d d'"
proof -
  have "fleet_bounded cfg d d1"
    if start: "start_rotation_replacement cfg now new_id target d = Inr (i, d1)"
      and few: "count_active_replacements cfg d = 0" "count_workers cfg d \<le> max_workers (scaling cfg)" for target i d1
  proof -
    obtain w rows where ins: "db_insert w_id w (db_workers d) = Inr rows"
      and d1: "d1 = upd_worker now (w_id target) (\<lambda>r. r\<lparr>w_rotation_requested := False\<rparr>) (d\<lparr>db_workers := rows\<rparr>)"
      using start by (auto simp: start_rotation_replacement_def Let_def split: sum.splits)
    have "fleet_step (d\<lparr>db_workers := rows\<rparr>) d1" unfolding d1 by (rule fleet_upd_worker) (simp add: worker_evolves_def)
    with bounded_insert [OF ins few(2)] few(1) show ?thesis using bounded.step_trans bounded_fleet by blast
  qed
  moreover have "0 \<le> count_active_replacements cfg d" by (simp add: count_active_replacements_def count_where_def)
  ultimately show ?thesis using assms
    by (auto simp: start_new_rotations_def bounded.step_refl split: if_splits option.splits sum.splits)
qed

lemma fleet_drains:
  assumes "db_wf d"
  shows "fleet_step d (finalize_terminations cfg now (advance_drains cfg now (progress_rotations cfg now d)))"
  using fleet_step_trans [OF fleet_step_trans [OF fleet_progress conjunct1 [OF advance_drains_fold]] fleet_finalize]
    fleet_wf [OF fleet_progress assms] by blast

lemma bounded_drains_and_rotations:
  assumes "db_wf d" and "advance_drains_and_rotations cfg prov now new_id next d = (r, next', d')"
  shows "fleet_bounded cfg d d'"
proof -
  let ?d1 = "finalize_terminations cfg now (advance_drains cfg now (progress_rotations cfg now d))"
  have 1: "fleet_bounded cfg d ?d1" using fleet_drains [OF assms(1)] by (rule bounded_fleet)
  have "fleet_bounded cfg ?d1 d'"
    using assms(2) bounded_rotations bounded.step_refl
    by (auto simp: advance_drains_and_rotations_def Let_def split: if_splits prod.splits sum.splits)
  then show ?thesis using 1 bounded.step_trans by blast
qed

section \<open>Properties\<close>

text \<open>C13: Draining is graceful. When advancing the drains changes what a worker should do, the worker was
  draining, has no task in flight and no result left to store, and from now on should stop or
  terminate; and when it is being replaced, a replacement is ready for service.\<close>

theorem advance_drains_graceful:
  assumes "db_wf d" and "w \<in> set (db_workers d)"
    and "get_worker_row (w_id w) (advance_drains cfg now d) = Some w'"
    and "w_desired_state w' \<noteq> w_desired_state w"
  shows "draining_clause cfg w \<and> \<not> active_work (w_id w) d
    \<and> w_desired_state w' \<in> {CLOUD_STATE_STOPPED, CLOUD_STATE_TERMINATED}
    \<and> (has_active_replacement_for cfg (w_id w) (advance_drains cfg now d) \<longrightarrow>
         get_ready_replacement_for cfg (w_id w) d \<noteq> None)"
proof -
  have row: "get_worker_row (w_id w) d = Some w" by (rule get_worker_row_mem [OF assms(1,2)])
  have mem: "w \<in> set (find_draining_workers cfg d)"
  proof (rule ccontr)
    assume no: "w \<notin> set (find_draining_workers cfg d)"
    have "w_id w \<notin> w_id ` set (find_draining_workers cfg d)"
    proof
      assume "w_id w \<in> w_id ` set (find_draining_workers cfg d)"
      then obtain v where "v \<in> set (find_draining_workers cfg d)" "w_id v = w_id w" by auto
      then show False using no snapshot_filter(2) [OF assms(1)] row unfolding find_draining_workers_def by (metis option.inject)
    qed
    then have "w' = w" using advance_drains_fold [OF assms(1), of cfg now] assms(3) row by simp
    then show False using assms(4) by simp
  qed
  then obtain d' where d': "fleet_step d d'" "drain_inv cfg d d'" "get_worker_row (w_id w) d' = Some w"
    and fin: "fleet_step (advance_drain cfg now w d') (advance_drains cfg now d)"
    and eq: "get_worker_row (w_id w) (advance_drains cfg now d) = get_worker_row (w_id w) (advance_drain cfg now w d')"
    using advance_drains_fold [OF assms(1), of cfg now] by blast
  have tasks: "count_inflight_tasks (w_id w) d' = count_inflight_tasks (w_id w) d"
      "count_unstored_results (w_id w) d' = count_unstored_results (w_id w) d"
    using d'(2) by (simp_all add: drain_inv_def count_inflight_tasks_def count_unstored_results_def task_count_def)
  have get: "get_worker_row (w_id w) (advance_drain cfg now w d') = Some w'" using eq assms(3) by simp
  have ready: "get_ready_replacement_for cfg (w_id w) d' = get_ready_replacement_for cfg (w_id w) d"
    using d'(2) by (simp add: ready_replacement_filter drain_inv_def)
  have active: "has_active_replacement_for cfg (w_id w) d'"
    if "has_active_replacement_for cfg (w_id w) (advance_drains cfg now d)"
    using fleet_has_active [OF fleet_step_trans [OF conjunct1 [OF advance_drain_step [OF _ d'(2,3)]] fin] that] mem
    by (simp add: find_draining_workers_def)
  have "draining_clause cfg w" using mem by (simp add: find_draining_workers_def)
  moreover have "\<not> (count_inflight_tasks (w_id w) d' > 0 \<or> count_unstored_results (w_id w) d' > 0)"
    using get d'(3) assms(4) by (auto simp: advance_drain_def)
  moreover from this have "w_desired_state w' \<in> {CLOUD_STATE_STOPPED, CLOUD_STATE_TERMINATED}"
    using get d'(3) assms(4) by (auto simp: advance_drain_def commit_fields_get split: if_splits)
  moreover have "get_ready_replacement_for cfg (w_id w) d \<noteq> None"
    if "has_active_replacement_for cfg (w_id w) (advance_drains cfg now d)"
    using get d'(3) assms(4) active [OF that] ready by (auto simp: advance_drain_def split: if_splits)
  ultimately show ?thesis by (simp add: active_work_def tasks)
qed

text \<open>A worker that should drain with its tasks done, next to a busy one.\<close>

definition example_draining :: db where
  "example_draining = empty_db\<lparr>db_workers := [example_worker\<lparr>w_draining := True\<rparr>]\<rparr>"

theorem advance_drains_graceful_witness:
  "\<exists>w'. get_worker_row ''cloud-1'' (advance_drains default_settings 9 example_draining) = Some w'
    \<and> w_desired_state w' \<in> {CLOUD_STATE_STOPPED, CLOUD_STATE_TERMINATED} \<and> \<not> active_work ''cloud-1'' example_draining"
proof -
  let ?w = "example_worker\<lparr>w_draining := True\<rparr>" and ?d = "advance_drains default_settings 9 example_draining"
  have wf: "db_wf example_draining" by code_simp
  have mem: "?w \<in> set (db_workers example_draining)" by (simp add: example_draining_def)
  have id: "w_id ?w = ''cloud-1''" by code_simp
  have "map_option w_desired_state (get_worker_row (w_id ?w) ?d) = Some CLOUD_STATE_STOPPED" by code_simp
  then obtain w' where w': "get_worker_row (w_id ?w) ?d = Some w'" "w_desired_state w' = CLOUD_STATE_STOPPED" by auto
  have "w_desired_state w' \<noteq> w_desired_state ?w" unfolding w'(2) by code_simp
  from advance_drains_graceful [OF wf mem w'(1) this] w' id show ?thesis by auto
qed

lemma converge_frame: "k \<noteq> w_id w \<Longrightarrow> get_worker_row k (converge_stalled_worker cfg now w d) = get_worker_row k d"
  by (simp add: converge_stalled_worker_def mark_terminated_def commit_fields_get Let_def split: option.splits prod.splits)

lemma converge_row:
  assumes "get_worker_row (w_id w) d = Some w" and "w_desired_state w \<noteq> CLOUD_STATE_TERMINATED"
  shows "\<exists>w'. get_worker_row (w_id w) (converge_stalled_worker cfg now w d) = Some w'
    \<and> (w_desired_state w' = CLOUD_STATE_TERMINATED \<longleftrightarrow> \<not> active_work (w_id w) d
        \<or> now - (case w_stalled_at w of None \<Rightarrow> now | Some t \<Rightarrow> t) \<ge> seconds (stalled_worker_grace_seconds (reconciliation cfg)))
    \<and> (active_work (w_id w) d \<longrightarrow> w_stalled_at w' = Some (case w_stalled_at w of None \<Rightarrow> now | Some t \<Rightarrow> t))"
  using assms by (cases "w_stalled_at w") (simp_all add: converge_stalled_worker_def mark_terminated_def commit_fields_get)

text \<open>C31: Stalled workers converge. After the pass, a worker that was stalled should terminate exactly
  when it had no active work or its grace period is over; a worker that still has work keeps the time
  of its first stall, so that the grace period does end. No other worker changes.\<close>

theorem converge_stalled_workers_correct:
  assumes "db_wf d" and "w \<in> set (find_stalled_workers cfg d)"
  shows "(\<exists>w'. get_worker_row (w_id w) (converge_stalled_workers cfg now d) = Some w'
    \<and> (w_desired_state w' = CLOUD_STATE_TERMINATED \<longleftrightarrow> \<not> active_work (w_id w) d
        \<or> now - (case w_stalled_at w of None \<Rightarrow> now | Some t \<Rightarrow> t) \<ge> seconds (stalled_worker_grace_seconds (reconciliation cfg)))
    \<and> (active_work (w_id w) d \<longrightarrow> w_stalled_at w' = Some (case w_stalled_at w of None \<Rightarrow> now | Some t \<Rightarrow> t)))
    \<and> (\<forall>k. k \<notin> w_id ` set (find_stalled_workers cfg d) \<longrightarrow>
         get_worker_row k (converge_stalled_workers cfg now d) = get_worker_row k d)"
proof -
  let ?I = "\<lambda>d'. db_wf d' \<and> db_tasks d' = db_tasks d" and ?ws = "find_stalled_workers cfg d"
  have step: "fleet_step d' (converge_stalled_worker cfg now v d') \<and> ?I (converge_stalled_worker cfg now v d')"
    if "?I d'" for v d'
    using fleet_wf [OF fleet_converge_one] fleet_converge_one that by (auto simp: fleet_step_def)
  have snap: "distinct (map w_id ?ws)" "\<And>v. v \<in> set ?ws \<Longrightarrow> get_worker_row (w_id v) d = Some v"
    unfolding find_stalled_workers_def using snapshot_filter [OF assms(1)] by blast+
  have F: "(\<forall>k. k \<notin> w_id ` set ?ws \<longrightarrow> get_worker_row k (converge_stalled_workers cfg now d) = get_worker_row k d)
      \<and> (\<forall>v \<in> set ?ws. \<exists>d'. ?I d' \<and> get_worker_row (w_id v) d' = Some v
         \<and> get_worker_row (w_id v) (converge_stalled_workers cfg now d) = get_worker_row (w_id v) (converge_stalled_worker cfg now v d'))"
    unfolding converge_stalled_workers_def
    using fold_snapshot [of ?I d ?ws "converge_stalled_worker cfg now", OF _ snap step converge_frame] assms(1) by blast
  then obtain d' where d': "?I d'" "get_worker_row (w_id w) d' = Some w"
    "get_worker_row (w_id w) (converge_stalled_workers cfg now d) = get_worker_row (w_id w) (converge_stalled_worker cfg now w d')"
    using assms(2) by blast
  have "active_work (w_id w) d' = active_work (w_id w) d"
    using d'(1) by (simp add: active_work_def count_inflight_tasks_def count_unstored_results_def task_count_def)
  moreover have "w_desired_state w \<noteq> CLOUD_STATE_TERMINATED"
    using assms(2) by (simp add: find_stalled_workers_def stalled_and_active_clauses_def)
  ultimately show ?thesis using converge_row [OF d'(2), of cfg now] F d'(3) by simp
qed

definition example_stalled :: db where
  "example_stalled = empty_db\<lparr>db_workers := [example_worker\<lparr>w_failure_count := 99, w_stalled_at := Some 1\<rparr>]\<rparr>"

theorem converge_stalled_workers_correct_witness:
  "\<exists>w'. get_worker_row ''cloud-1'' (converge_stalled_workers default_settings 9 example_stalled) = Some w'
    \<and> w_desired_state w' = CLOUD_STATE_TERMINATED"
proof -
  let ?w = "example_worker\<lparr>w_failure_count := 99, w_stalled_at := Some 1\<rparr>"
  have wf: "db_wf example_stalled" by code_simp
  have mem: "?w \<in> set (find_stalled_workers default_settings example_stalled)" by code_simp
  have idle: "\<not> active_work ''cloud-1'' example_stalled" by code_simp
  have id: "w_id ?w = ''cloud-1''" by code_simp
  show ?thesis using converge_stalled_workers_correct [OF wf mem, of 9] idle unfolding id by blast
qed

text \<open>C30: The autoscaler drains only idle workers. A worker that starts draining has been ready and
  inactive since before the idle cooldown and has no task that blocks a drain, and it does so only
  when more workers are serviceable than wanted and no other change of capacity is under way.\<close>

theorem autoscaler_drains_idle:
  assumes "db_wf d" and "w \<in> set (db_workers d)" and "apply_autoscaling cfg prov now new_id since d = (r, since', d')"
    and "get_worker_row (w_id w) d' = Some w'" and "w_draining w'" and "\<not> w_draining w"
  shows "should_scale_down (compute_signal cfg d) \<and> \<not> active_work (w_id w) d
    \<and> (\<exists>t. w_ready_at w = Some t \<and> t < now - seconds (idle_cooldown_seconds (scaling cfg)))
    \<and> (case w_last_active_at w of None \<Rightarrow> True | Some t \<Rightarrow> t < now - seconds (idle_cooldown_seconds (scaling cfg)))"
proof -
  let ?cut = "now - seconds (idle_cooldown_seconds (scaling cfg))"
  have row: "get_worker_row (w_id w) d = Some w" by (rule get_worker_row_mem [OF assms(1,2)])
  have draining_up: "\<not> w_draining w1" if "scale_up cfg now new_id d = Inr (b, d1)" "get_worker_row (w_id w) d1 = Some w1" for b d1 w1
  proof (cases "find_stopped_worker cfg d")
    case None
    then have "get_worker_row (w_id w) d1 = get_worker_row (w_id w) d"
      using that row by (auto simp: scale_up_def create_cloud_worker_def Let_def get_worker_row_def db_insert_result
        db_get_append split: if_splits)
    then show ?thesis using that(2) row assms(6) by simp
  next
    case (Some s)
    then show ?thesis using that row assms(6) by (auto simp: scale_up_def commit_fields_get split: if_splits)
  qed
  from assms(3)
  obtain idle where down: "should_scale_down (compute_signal cfg d)" and idle: "find_idle_worker cfg ?cut d = Some idle"
    and d': "d' = record_scaling_event_now now ''stop'' ''serviceable exceeds desired'' (Some (w_id idle)) ''autoscaler'' None
        (commit_fields now (w_id idle) (\<lambda>r. r\<lparr>w_draining := True, w_drain_target := Some CLOUD_STATE_STOPPED\<rparr>) d)"
  proof (cases rule: autoscaling_cases)
    case same
    then show ?thesis using assms(4-6) row by simp
  next
    case (up b d1 reason)
    then show ?thesis using assms(4,5) draining_up by auto
  qed blast
  have "idle = w"
  proof (rule ccontr)
    assume "idle \<noteq> w"
    then have "w_id w \<noteq> w_id idle"
      using row get_worker_row_mem [OF assms(1) db_first_Some(1) [OF idle [unfolded find_idle_worker_def]]] by auto
    then show False using assms(4-6) row by (simp add: d' commit_fields_get)
  qed
  with idle have "task_count TASK_STATUSES_DRAIN_BLOCKERS d (w_id w) = 0"
    "\<exists>t. w_ready_at w = Some t \<and> t < ?cut" "case w_last_active_at w of None \<Rightarrow> True | Some t \<Rightarrow> t < ?cut"
    unfolding find_idle_worker_def by (auto dest!: db_first_Some(2) split: option.splits)
  moreover from this(1) have "\<not> active_work (w_id w) d"
    by (auto simp: active_work_def count_inflight_tasks_def count_unstored_results_def task_count_def db_count_0
        TASK_STATUSES_DRAIN_BLOCKERS_def)
  ultimately show ?thesis using down by blast
qed

theorem autoscaler_drains_idle_witness:
  "should_scale_down (compute_signal default_settings (empty_db\<lparr>db_workers := [example_worker]\<rparr>))
   \<and> (\<exists>t. w_ready_at example_worker = Some t \<and> t < seconds 100000 - seconds (idle_cooldown_seconds (scaling default_settings)))"
proof -
  let ?d = "empty_db\<lparr>db_workers := [example_worker]\<rparr>"
  let ?run = "apply_autoscaling default_settings True (seconds 100000) ''cloud-2'' None ?d"
  have wf: "db_wf ?d" by code_simp
  have mem: "example_worker \<in> set (db_workers ?d)" by simp
  have "map_option w_draining (get_worker_row (w_id example_worker) (snd (snd ?run))) = Some True" by code_simp
  then obtain w' where w': "get_worker_row (w_id example_worker) (snd (snd ?run)) = Some w'" "w_draining w'" by auto
  have nd: "\<not> w_draining example_worker" by code_simp
  have run: "?run = (fst ?run, fst (snd ?run), snd (snd ?run))" by simp
  show ?thesis using autoscaler_drains_idle [OF wf mem run w' nd] by blast
qed

text \<open>C14: Demand with no capacity is never left waiting for the cooldown. When tasks are queued, no
  worker is serviceable or starting and there is room for one more worker, the next autoscaling pass
  asks for a worker, however recently it scaled up last.\<close>

theorem zero_capacity_recovers:
  assumes "0 < count_queue_depth d" and "count_serviceable_workers cfg d = 0" and "count_starting_workers cfg d = 0"
    and "0 < target_per_worker (scaling cfg)" and "count_workers cfg d < max_workers (scaling cfg)"
    and "get_worker_row new_id d = None"
  shows "\<exists>d' w. apply_autoscaling cfg True now new_id since d = (Inr (), Some now, d') \<and> w \<in> set (db_workers d')
    \<and> deployment_clause cfg w \<and> w_desired_state w = CLOUD_STATE_RUNNING \<and> w_start_requested_at w = Some now"
proof -
  have "0 \<le> count_workers cfg d" by (simp add: count_workers_def count_where_def)
  then have "0 < desired_workers (compute_signal cfg d)"
    using assms(1,4,5) ceil_div_pos [of "target_per_worker (scaling cfg)" "count_queue_depth d"]
    by (simp add: compute_signal_def desired_workers_eq collect_scaling_inputs_def)
  then have want: "should_scale_up (compute_signal cfg d)" "serviceable_workers (compute_signal cfg d) = 0"
      "starting_workers (compute_signal cfg d) = 0" "0 < desired_workers (compute_signal cfg d)"
    using assms(2,3) by (simp_all add: should_scale_up_def compute_signal_def compute_scaling_signal_def collect_scaling_inputs_def Let_def)
  obtain d1 w where up: "scale_up cfg now new_id d = Inr (True, d1)" "w \<in> set (db_workers d1)" "deployment_clause cfg w"
    "w_desired_state w = CLOUD_STATE_RUNNING" "w_start_requested_at w = Some now"
  proof (cases "find_stopped_worker cfg d")
    case None
    show ?thesis
    proof (rule that)
      let ?w = "(new_worker new_id (cloud_provider (cloud cfg)) (deployment_id cfg) now)
               \<lparr>w_desired_state := CLOUD_STATE_RUNNING, w_cloud_state := CLOUD_STATE_PENDING,
                w_start_requested_at := Some now\<rparr>"
      show "scale_up cfg now new_id d = Inr (True, d\<lparr>db_workers := db_workers d @ [?w]\<rparr>)"
        using None assms(5,6) by (simp add: scale_up_def create_cloud_worker_def db_insert_result get_worker_row_def new_worker_def)
      show "?w \<in> set (db_workers (d\<lparr>db_workers := db_workers d @ [?w]\<rparr>))" by simp
    qed (simp_all add: clause_defs new_worker_def)
  next
    case (Some s)
    let ?f = "\<lambda>r. r\<lparr>w_desired_state := CLOUD_STATE_RUNNING,
           w_failure_count := 0, w_retry_after := None, w_start_requested_at := Some now, w_ready_at := None\<rparr>"
    have s: "s \<in> set (db_workers d)" "deployment_clause cfg s"
      using Some unfolding find_stopped_worker_def by (auto dest: db_find_Some)
    show ?thesis
    proof (rule that)
      show "scale_up cfg now new_id d = Inr (True, commit_fields now (w_id s) ?f d)" using Some by (simp add: scale_up_def)
      show "save_worker now (\<lambda>r. (?f r)\<lparr>w_updated_at := now\<rparr>) s \<in> set (db_workers (commit_fields now (w_id s) ?f d))"
        using s(1) by (force simp: commit_fields_def db_update_def)
    qed (use s(2) in \<open>simp_all add: clause_defs\<close>)
  qed
  then show ?thesis using want by (auto simp: apply_autoscaling_def Let_def)
qed

theorem zero_capacity_recovers_witness:
  "\<exists>d' w. apply_autoscaling default_settings True 9 ''cloud-1'' (Some 8) (empty_db\<lparr>db_tasks := [new_task ''t1'' 0]\<rparr>)
      = (Inr (), Some 9, d') \<and> w \<in> set (db_workers d') \<and> w_desired_state w = CLOUD_STATE_RUNNING"
proof -
  let ?d = "empty_db\<lparr>db_tasks := [new_task ''t1'' 0]\<rparr>"
  have "0 < count_queue_depth ?d" "count_serviceable_workers default_settings ?d = 0"
    "count_starting_workers default_settings ?d = 0" "0 < target_per_worker (scaling default_settings)"
    "count_workers default_settings ?d < max_workers (scaling default_settings)" "get_worker_row ''cloud-1'' ?d = None"
    by code_simp+
  from zero_capacity_recovers [OF this, of 9 "Some 8"] show ?thesis by blast
qed

text \<open>A requested rotation waits for the next scheduled check. Until then the pass starts no
  replacement, whatever rotations operators asked for, and the time of the check does not move.\<close>

lemma rotation_request_waits:
  assumes "db_wf d" and "now < t"
  shows "\<exists>d'. advance_drains_and_rotations cfg prov now new_id (Some t) d = (Inr (), Some t, d')
    \<and> map w_id (db_workers d') = map w_id (db_workers d)"
proof -
  let ?d1 = "finalize_terminations cfg now (advance_drains cfg now (progress_rotations cfg now d))"
  have "fleet_step d ?d1" by (rule fleet_drains [OF assms(1)])
  then show ?thesis using fleet_ids assms(2) by (auto simp: advance_drains_and_rotations_def)
qed

end
