(* ===== verification/Lock.thy ===== *)
theory Lock
  imports Status
begin

text \<open>
  Scheduler ownership, \<^verbatim>\<open>scheduler/lock.py\<close>: one process at a time runs the scheduler, the one
  whose database session holds a PostgreSQL advisory lock. What the database answers on the dedicated
  connection are the operations of \<open>lock_session\<close>, on an opaque state. With SQLite the lock object
  does nothing.
\<close>

section \<open>Definitions\<close>

record 'l lock_session =
  ls_connect :: "'l \<Rightarrow> (exc + unit) \<times> 'l"
  ls_try_lock :: "'l \<Rightarrow> (exc + bool) \<times> 'l"
  ls_unlock :: "'l \<Rightarrow> (exc + unit) \<times> 'l"
  ls_ping :: "'l \<Rightarrow> (exc + unit) \<times> 'l"
  ls_close :: "'l \<Rightarrow> (exc + unit) \<times> 'l"

definition SCHEDULER_LOCK_KEY :: int where "SCHEDULER_LOCK_KEY = 0x4D475F534348"

text \<open>\<open>pl_conn\<close>: whether the connection is set.\<close>

record PostgresAdvisoryLock =
  pl_conn :: bool
  pl_held :: bool

definition new_lock :: PostgresAdvisoryLock where
  "new_lock = \<lparr>pl_conn = False, pl_held = False\<rparr>"

definition lock_held :: "PostgresAdvisoryLock \<Rightarrow> bool" where
  "lock_held L \<longleftrightarrow> pl_held L \<and> pl_conn L"

definition lock_acquire ::
    "'l lock_session \<Rightarrow> PostgresAdvisoryLock \<Rightarrow> 'l \<Rightarrow> (exc + bool) \<times> PostgresAdvisoryLock \<times> 'l" where
  "lock_acquire ops L c =
    (if pl_held L then (Inr True, L, c)
     else (case ls_connect ops c of
             (Inl e, c1) \<Rightarrow> (Inl e, L, c1)
           | (Inr _, c1) \<Rightarrow>
               (case ls_try_lock ops c1 of
                  (Inl e, c2) \<Rightarrow> (Inl e, L\<lparr>pl_conn := True\<rparr>, c2)
                | (Inr True, c2) \<Rightarrow> (Inr True, L\<lparr>pl_conn := True, pl_held := True\<rparr>, c2)
                | (Inr False, c2) \<Rightarrow>
                    (case ls_close ops c2 of
                       (Inl e, c3) \<Rightarrow> (Inl e, L\<lparr>pl_conn := True\<rparr>, c3)
                     | (Inr _, c3) \<Rightarrow> (Inr False, L\<lparr>pl_conn := False\<rparr>, c3)))))"

definition lock_release ::
    "'l lock_session \<Rightarrow> PostgresAdvisoryLock \<Rightarrow> 'l \<Rightarrow> (exc + unit) \<times> PostgresAdvisoryLock \<times> 'l" where
  "lock_release ops L c =
    (if \<not> pl_conn L then (Inr (), L, c)
     else
       (case (if pl_held L then ls_unlock ops c else (Inr (), c)) of
          (Inl e, c1) \<Rightarrow> (Inl e, L, c1)
        | (Inr _, c1) \<Rightarrow>
            (case ls_close ops c1 of
               (Inl e, c2) \<Rightarrow> (Inl e, L\<lparr>pl_held := False\<rparr>, c2)
             | (Inr _, c2) \<Rightarrow> (Inr (), L\<lparr>pl_held := False, pl_conn := False\<rparr>, c2))))"

definition lock_verify ::
    "'l lock_session \<Rightarrow> PostgresAdvisoryLock \<Rightarrow> 'l \<Rightarrow> bool \<times> PostgresAdvisoryLock \<times> 'l" where
  "lock_verify ops L c =
    (if \<not> pl_held L \<or> \<not> pl_conn L then (False, L, c)
     else (case ls_ping ops c of
             (Inr _, c1) \<Rightarrow> (True, L, c1)
           | (Inl _, c1) \<Rightarrow> (False, L\<lparr>pl_held := False\<rparr>, c1)))"

text \<open>Waiting for the lock, at most \<open>n\<close> attempts; \<open>None\<close>: still waiting.\<close>

fun lock_wait ::
    "'l lock_session \<Rightarrow> nat \<Rightarrow> PostgresAdvisoryLock \<Rightarrow> 'l \<Rightarrow> (exc + unit) option \<times> PostgresAdvisoryLock \<times> 'l" where
  "lock_wait ops 0 L c = (None, L, c)"
| "lock_wait ops (Suc n) L c =
    (case lock_acquire ops L c of
       (Inl e, L1, c1) \<Rightarrow> (Some (Inl e), L1, c1)
     | (Inr True, L1, c1) \<Rightarrow> (Some (Inr ()), L1, c1)
     | (Inr False, L1, c1) \<Rightarrow> lock_wait ops n L1 c1)"

text \<open>The lock the scheduler was given: one without \<open>verify\<close> (SQLite, or none), or the advisory lock.\<close>

datatype scheduler_lock = NoOpLock | PgLock PostgresAdvisoryLock

text \<open>\<open>Scheduler._lock_held\<close>.\<close>

definition sched_lock_held :: "scheduler_lock \<Rightarrow> bool" where
  "sched_lock_held l = (case l of NoOpLock \<Rightarrow> True | PgLock L \<Rightarrow> lock_held L)"

text \<open>\<open>Scheduler._verify_lock\<close>. When verification fails the code assigns to \<open>held\<close>, which is a
  property without a setter, so that an exception is raised instead of \<open>False\<close> being returned.\<close>

definition verify_lock ::
    "'l lock_session \<Rightarrow> scheduler_lock \<Rightarrow> 'l \<Rightarrow> (exc + bool) \<times> scheduler_lock \<times> 'l" where
  "verify_lock ops l c =
    (case l of
       NoOpLock \<Rightarrow> (Inr True, NoOpLock, c)
     | PgLock L \<Rightarrow>
         (case lock_verify ops L c of
            (True, L1, c1) \<Rightarrow> (Inr True, PgLock L1, c1)
          | (False, L1, c1) \<Rightarrow> (Inl (OtherException None ''AttributeError: held''), PgLock L1, c1)))"

section \<open>Lemmas\<close>

lemma lock_wait_result:
  assumes "lock_wait ops n L c = (r, L', c')"
  shows "case r of Some (Inr _) \<Rightarrow> pl_held L' | _ \<Rightarrow> pl_held L' = pl_held L"
  using assms
proof (induction n arbitrary: L c)
  case (Suc n)
  obtain q L1 c1 where a: "lock_acquire ops L c = (q, L1, c1)" by (cases "lock_acquire ops L c")
  then have q: "case q of Inr True \<Rightarrow> pl_held L1 | _ \<Rightarrow> pl_held L1 = pl_held L"
    by (auto simp: lock_acquire_def split: if_splits sum.splits bool.splits prod.splits)
  show ?case using Suc.prems Suc.IH [of L1 c1] q a
    by (cases q) (auto split: bool.splits option.splits sum.splits)
qed simp

section \<open>Properties\<close>

text \<open>A lost lock stops the scheduler. When the lock is not verified, \<open>verify_lock\<close> does not return a
  value but raises, and from then on the lock counts as not held, so that neither loop starts another
  tick; when it is verified the lock is unchanged and was held.\<close>

lemma verify_lock_correct:
  "case verify_lock ops l c of
     (Inr ok, l', c') \<Rightarrow> ok \<and> l' = l \<and> sched_lock_held l
   | (Inl e, l', c') \<Rightarrow> \<not> sched_lock_held l' \<and> e = OtherException None ''AttributeError: held''"
  by (auto simp: verify_lock_def sched_lock_held_def lock_verify_def lock_held_def
      split: scheduler_lock.splits sum.splits prod.splits bool.splits)

end
