(* ===== verification/Scheduler.thy ===== *)
theory Scheduler
  imports Results Fleet Lock
begin

text \<open>
  \<^verbatim>\<open>scheduler/scheduler.py\<close>: the two ticks, retention cleanup and the loops. The state of the
  process is its timers (\<open>sched\<close>, with the deferral mark of the task repository and the lock), the
  world of \<open>Reconcile\<close> (database and provider), the object store and the lock connection.
  Everything that comes from outside is the environment \<open>tick_inputs\<close>: the services, the clock (one
  reading per step of a tick), fresh identifiers and the answers of workers. A tick that raises ends
  with the effects so far; the loop logs the exception and goes on while the lock is held. Ticks are
  atomic in the model: in the code the two loops interleave at their awaits, between transactions.
\<close>

section \<open>Definitions\<close>

record sched =
  sc_lock :: scheduler_lock
  sc_last_scale_up :: "time option"
  sc_next_cleanup_at :: "time option"
  sc_next_cache_sweep_at :: "time option"
  sc_next_rotation_check_at :: "time option"
  sc_deferred_since :: "time option"

definition new_sched :: "scheduler_lock \<Rightarrow> sched" where
  "new_sched l = \<lparr>sc_lock = l, sc_last_scale_up = None, sc_next_cleanup_at = None,
     sc_next_cache_sweep_at = None, sc_next_rotation_check_at = None, sc_deferred_since = None\<rparr>"

record ('c, 's, 'l) process =
  pr_sched :: sched
  pr_world :: "'c world"
  pr_store :: 's
  pr_conn :: 'l

record ('c, 's, 'l, 'p) tick_inputs =
  ti_provider :: "'c compute_ops option"
  ti_store :: "'s store_ops"
  ti_lock :: "'l lock_session"
  ti_clock :: "nat \<Rightarrow> time"
  ti_new_id :: "nat \<Rightarrow> string"
  ti_health :: http_get
  ti_poll_clock :: "nat \<Rightarrow> time"
  ti_poll :: "nat \<Rightarrow> string \<Rightarrow> upstream_payload option"
  ti_persist :: persist_env
  ti_dispatch :: "('s, 'p) tick_env"
  ti_interfere :: "nat \<Rightarrow> db \<Rightarrow> db"

subsection \<open>Retention\<close>

fun delete_object_keys :: "'s store_ops \<Rightarrow> string option list \<Rightarrow> 's \<Rightarrow> bool \<times> 's" where
  "delete_object_keys store [] s = (True, s)"
| "delete_object_keys store (key # keys) s =
    (case safe_delete store key s of
       (False, s') \<Rightarrow> (False, s')
     | (True, s') \<Rightarrow> delete_object_keys store keys s')"

fun cleanup_tasks :: "'s store_ops \<Rightarrow> task list \<Rightarrow> 's \<Rightarrow> db \<Rightarrow> 's \<times> db" where
  "cleanup_tasks store [] s d = (s, d)"
| "cleanup_tasks store (tk # tks) s d =
    (case delete_object_keys store [t_payload_key tk, t_result_key tk] s of
       (False, s') \<Rightarrow> cleanup_tasks store tks s' d
     | (True, s') \<Rightarrow> cleanup_tasks store tks s' (snd (delete_task (t_task_id tk) d)))"

definition cleanup_expired_tasks :: "gateway_settings \<Rightarrow> 's store_ops \<Rightarrow> time \<Rightarrow> 's \<Rightarrow> db \<Rightarrow> 's \<times> db" where
  "cleanup_expired_tasks cfg store now s d =
     cleanup_tasks store (list_retention_expired_tasks (now - days (retention_days (retention cfg))) 100 d) s d"

definition cleanup_due ::
    "gateway_settings \<Rightarrow> 's store_ops \<Rightarrow> (nat \<Rightarrow> db \<Rightarrow> db) \<Rightarrow> time \<Rightarrow> sched \<Rightarrow> 's \<Rightarrow> db \<Rightarrow> sched \<times> 's \<times> db" where
  "cleanup_due cfg store interfere now sc s d =
    (case cleanup_expired_tasks cfg store now s d of
       (s1, d1) \<Rightarrow>
         (let sc1 = sc\<lparr>sc_next_cleanup_at := Some (now + cleanup_interval (retention cfg))\<rparr> in
          if (case sc_next_cache_sweep_at sc of None \<Rightarrow> True | Some t \<Rightarrow> now \<ge> t)
          then (case sweep_expired store interfere now s1 d1 of
                  (_, s2, d2) \<Rightarrow>
                    (sc1\<lparr>sc_next_cache_sweep_at := Some (now + seconds (sweeper_interval_seconds (cache cfg)))\<rparr>, s2, d2))
          else (sc1, s1, d1)))"

definition cleanup_if_due ::
    "gateway_settings \<Rightarrow> 's store_ops \<Rightarrow> (nat \<Rightarrow> db \<Rightarrow> db) \<Rightarrow> time \<Rightarrow> sched \<Rightarrow> 's \<Rightarrow> db \<Rightarrow> sched \<times> 's \<times> db" where
  "cleanup_if_due cfg store interfere now sc s d =
    (case sc_next_cleanup_at sc of
       Some t \<Rightarrow> if now < t then (sc, s, d) else cleanup_due cfg store interfere now sc s d
     | None \<Rightarrow> cleanup_due cfg store interfere now sc s d)"

subsection \<open>Ticks\<close>

type_synonym ('c, 's, 'l) tick_result = "(exc + unit) \<times> ('c, 's, 'l) process"

definition set_db :: "db \<Rightarrow> ('c, 's, 'l) process \<Rightarrow> ('c, 's, 'l) process" where
  "set_db d p = p\<lparr>pr_world := (pr_world p)\<lparr>wd_db := d\<rparr>\<rparr>"

abbreviation pr_db :: "('c, 's, 'l) process \<Rightarrow> db" where
  "pr_db p \<equiv> wd_db (pr_world p)"

definition with_lock ::
    "('c, 's, 'l, 'p) tick_inputs \<Rightarrow> (('c, 's, 'l) process \<Rightarrow> ('c, 's, 'l) tick_result) \<Rightarrow> ('c, 's, 'l) process
      \<Rightarrow> ('c, 's, 'l) tick_result" where
  "with_lock ti body p =
    (case verify_lock (ti_lock ti) (sc_lock (pr_sched p)) (pr_conn p) of
       (r, l, c) \<Rightarrow>
         (let p1 = p\<lparr>pr_sched := (pr_sched p)\<lparr>sc_lock := l\<rparr>, pr_conn := c\<rparr>
          in case r of
               Inl e \<Rightarrow> (Inl e, p1)
             | Inr ok \<Rightarrow> if ok then body p1 else (Inr (), p1)))"

definition synchronize_tasks_and_results ::
    "('c, 's, 'l, 'p) tick_inputs \<Rightarrow> 's \<Rightarrow> db \<Rightarrow> 's \<times> db" where
  "synchronize_tasks_and_results ti s d =
    (let d1 = snd (sync_dispatched_task_statuses (ti_clock ti 1) (ti_poll_clock ti) (ti_poll ti) HEALTH_BATCH d);
         tks = list_unstored_completed (ti_clock ti 2) HEALTH_BATCH d1
     in case persist_pending_results (ti_store ti) (ti_persist ti) True 0 tks s d1 of
          (_, _, s2, d2) \<Rightarrow> (s2, d2))"

definition fast_body ::
    "gateway_settings \<Rightarrow> ('c, 's, 'l, 'p) tick_inputs \<Rightarrow> ('c, 's, 'l) process \<Rightarrow> ('c, 's, 'l) tick_result" where
  "fast_body cfg ti p =
    (let d1 = snd (recover_stale_dispatch_claims (ti_clock ti 0) (pr_db p)) in
     case synchronize_tasks_and_results ti (pr_store p) d1 of
       (s2, d2) \<Rightarrow>
         (let d3 = snd (expire_client_sla_tasks (ti_clock ti 3) (task_sla_seconds cfg) d2) in
          case dispatch_queued_tasks cfg (ti_dispatch ti) 32 (sc_deferred_since (pr_sched p)) s2 d3 of
            (r, deferred, s4, d4) \<Rightarrow>
              (map_sum id (\<lambda>_. ()) r,
               set_db d4 (p\<lparr>pr_store := s4, pr_sched := (pr_sched p)\<lparr>sc_deferred_since := deferred\<rparr>\<rparr>))))"

definition fast_tick ::
    "gateway_settings \<Rightarrow> ('c, 's, 'l, 'p) tick_inputs \<Rightarrow> ('c, 's, 'l) process \<Rightarrow> ('c, 's, 'l) tick_result" where
  "fast_tick cfg ti p = with_lock ti (fast_body cfg ti) p"

text \<open>\<open>_reconcile_workers\<close> verifies the lock once more.\<close>

definition reconcile_step ::
    "gateway_settings \<Rightarrow> ('c, 's, 'l, 'p) tick_inputs \<Rightarrow> ('c, 's, 'l) process \<Rightarrow> ('c, 's, 'l) tick_result" where
  "reconcile_step cfg ti p =
    (case ti_provider ti of
       None \<Rightarrow> (Inr (), p)
     | Some provider \<Rightarrow>
         with_lock ti (\<lambda>p. case reconcile_workers cfg provider (ti_clock ti 0) (pr_world p) of
                             (r, W) \<Rightarrow> (r, p\<lparr>pr_world := W\<rparr>)) p)"

definition health_step ::
    "gateway_settings \<Rightarrow> ('c, 's, 'l, 'p) tick_inputs \<Rightarrow> ('c, 's, 'l) process \<Rightarrow> ('c, 's, 'l) tick_result" where
  "health_step cfg ti p =
    (case refresh_worker_health cfg (ti_health ti) (ti_clock ti 2) (pr_db p) of
       (r, d) \<Rightarrow> (map_sum id (\<lambda>_. ()) r, set_db d p))"

definition autoscale_step ::
    "gateway_settings \<Rightarrow> ('c, 's, 'l, 'p) tick_inputs \<Rightarrow> ('c, 's, 'l) process \<Rightarrow> ('c, 's, 'l) tick_result" where
  "autoscale_step cfg ti p =
    (case apply_autoscaling cfg (ti_provider ti \<noteq> None) (ti_clock ti 3) (ti_new_id ti 0) (sc_last_scale_up (pr_sched p)) (pr_db p) of
       (r, last_up, d) \<Rightarrow> (r, set_db d (p\<lparr>pr_sched := (pr_sched p)\<lparr>sc_last_scale_up := last_up\<rparr>\<rparr>)))"

definition rotation_step ::
    "gateway_settings \<Rightarrow> ('c, 's, 'l, 'p) tick_inputs \<Rightarrow> ('c, 's, 'l) process \<Rightarrow> ('c, 's, 'l) tick_result" where
  "rotation_step cfg ti p =
    (case advance_drains_and_rotations cfg (ti_provider ti \<noteq> None) (ti_clock ti 4) (ti_new_id ti 1)
            (sc_next_rotation_check_at (pr_sched p)) (pr_db p) of
       (r, check_at, d) \<Rightarrow> (r, set_db d (p\<lparr>pr_sched := (pr_sched p)\<lparr>sc_next_rotation_check_at := check_at\<rparr>\<rparr>)))"

definition cleanup_step ::
    "gateway_settings \<Rightarrow> ('c, 's, 'l, 'p) tick_inputs \<Rightarrow> ('c, 's, 'l) process \<Rightarrow> ('c, 's, 'l) tick_result" where
  "cleanup_step cfg ti p =
    (case cleanup_if_due cfg (ti_store ti) (ti_interfere ti) (ti_clock ti 5) (pr_sched p) (pr_store p) (pr_db p) of
       (sc, s, d) \<Rightarrow> (Inr (), set_db d (p\<lparr>pr_sched := sc, pr_store := s\<rparr>)))"

definition slow_body ::
    "gateway_settings \<Rightarrow> ('c, 's, 'l, 'p) tick_inputs \<Rightarrow> ('c, 's, 'l) process \<Rightarrow> ('c, 's, 'l) tick_result" where
  "slow_body cfg ti p =
     and_then (reconcile_step cfg ti p) (\<lambda>_ p1.
     and_then (health_step cfg ti (set_db (converge_stalled_workers cfg (ti_clock ti 1) (pr_db p1)) p1)) (\<lambda>_ p2.
     and_then (autoscale_step cfg ti p2) (\<lambda>_ p3.
     and_then (rotation_step cfg ti p3) (\<lambda>_ p4. cleanup_step cfg ti p4))))"

definition slow_tick ::
    "gateway_settings \<Rightarrow> ('c, 's, 'l, 'p) tick_inputs \<Rightarrow> ('c, 's, 'l) process \<Rightarrow> ('c, 's, 'l) tick_result" where
  "slow_tick cfg ti p = with_lock ti (slow_body cfg ti) p"

text \<open>\<open>Scheduler.tick\<close>.\<close>

definition tick ::
    "gateway_settings \<Rightarrow> ('c, 's, 'l, 'p) tick_inputs \<Rightarrow> ('c, 's, 'l, 'p) tick_inputs \<Rightarrow> ('c, 's, 'l) process
      \<Rightarrow> ('c, 's, 'l) tick_result" where
  "tick cfg ti ti' p = and_then (slow_tick cfg ti p) (\<lambda>_ p1. fast_tick cfg ti' p1)"

text \<open>The loops of \<open>run\<close>, tick by tick in the order in which they happen; a loop ends when the lock is
  no longer held.\<close>

datatype loop_name = Dispatch | Reconcile

fun run_loops ::
    "gateway_settings \<Rightarrow> (loop_name \<times> ('c, 's, 'l, 'p) tick_inputs) list \<Rightarrow> ('c, 's, 'l) process \<Rightarrow> ('c, 's, 'l) process" where
  "run_loops cfg [] p = p"
| "run_loops cfg ((name, ti) # rest) p =
    (if sched_lock_held (sc_lock (pr_sched p))
     then run_loops cfg rest (snd (case name of Dispatch \<Rightarrow> fast_tick cfg ti p | Reconcile \<Rightarrow> slow_tick cfg ti p))
     else p)"

text \<open>\<open>_sleep_until_next_boundary\<close>: how long a loop sleeps at wall-clock time \<open>t\<close>.\<close>

definition sleep_until_next_boundary :: "time \<Rightarrow> time \<Rightarrow> time" where
  "sleep_until_next_boundary t interval =
    (if interval \<le> 0 then 0 else max 0 ((t div interval + 1) * interval - t))"

section \<open>Lemmas\<close>

lemma set_db_fields [simp]:
  "pr_db (set_db d p) = d" "pr_store (set_db d p) = pr_store p" "pr_sched (set_db d p) = pr_sched p"
  "wd_calls (pr_world (set_db d p)) = wd_calls (pr_world p)"
  by (simp_all add: set_db_def)

lemma with_lock_cases [consumes 1, case_names lost held]:
  assumes "with_lock ti body p = (r, p')"
  obtains (lost) "pr_world p' = pr_world p" "pr_store p' = pr_store p" "\<not> sched_lock_held (sc_lock (pr_sched p'))"
      "r = Inl (OtherException None ''AttributeError: held'')"
  | (held) c where "body (p\<lparr>pr_conn := c\<rparr>) = (r, p')" "sched_lock_held (sc_lock (pr_sched p))"
proof (cases "verify_lock (ti_lock ti) (sc_lock (pr_sched p)) (pr_conn p)")
  case (fields q l c)
  show ?thesis
  proof (cases q)
    case (Inl e)
    then have "\<not> sched_lock_held l \<and> e = OtherException None ''AttributeError: held''"
      using fields by (auto simp: verify_lock_def sched_lock_held_def lock_verify_def lock_held_def
        split: scheduler_lock.splits sum.splits prod.splits bool.splits if_splits)
    then show ?thesis using assms fields Inl by (intro lost) (auto simp: with_lock_def)
  next
    case (Inr ok)
    then have *: "ok \<and> l = sc_lock (pr_sched p) \<and> sched_lock_held (sc_lock (pr_sched p))"
      using fields by (auto simp: verify_lock_def sched_lock_held_def lock_verify_def lock_held_def
        split: scheduler_lock.splits sum.splits prod.splits bool.splits if_splits)
    have "p\<lparr>pr_sched := (pr_sched p)\<lparr>sc_lock := l\<rparr>, pr_conn := c\<rparr> = p\<lparr>pr_conn := c\<rparr>" using * by simp
    then have "body (p\<lparr>pr_conn := c\<rparr>) = (r, p')" using assms fields Inr * unfolding with_lock_def Let_def by auto
    then show ?thesis using * by (intro held) blast+
  qed
qed

text \<open>Everything a tick does before it dispatches honours the contract.\<close>

lemma fast_body_dispatch:
  assumes "tasks_ok (pr_db p)" and "\<And>j. pe_interfere (ti_persist ti) j = (\<lambda>d. d)" and "fast_body cfg ti p = (r, p')"
  obtains s d q ds s' where "safe_step cfg (pr_db p) d"
    "dispatch_queued_tasks cfg (ti_dispatch ti) 32 (sc_deferred_since (pr_sched p)) s d = (q, ds, s', pr_db p')"
    "r = map_sum id (\<lambda>_. ()) q"
proof -
  define d1 where "d1 = snd (recover_stale_dispatch_claims (ti_clock ti 0) (pr_db p))"
  define d2 where "d2 = snd (sync_dispatched_task_statuses (ti_clock ti 1) (ti_poll_clock ti) (ti_poll ti) HEALTH_BATCH d1)"
  obtain n m s3 d3 where persist: "persist_pending_results (ti_store ti) (ti_persist ti) True 0
      (list_unstored_completed (ti_clock ti 2) HEALTH_BATCH d2) (pr_store p) d2 = (n, m, s3, d3)" (is "?ps = _")
    by (cases ?ps)
  define d4 where "d4 = snd (expire_client_sla_tasks (ti_clock ti 3) (task_sla_seconds cfg) d3)"
  obtain q ds s5 d5 where disp: "dispatch_queued_tasks cfg (ti_dispatch ti) 32 (sc_deferred_since (pr_sched p)) s3 d4 = (q, ds, s5, d5)"
    (is "?dq = _") by (cases ?dq)
  have res: "pr_db p' = d5" "r = map_sum id (\<lambda>_. ()) q" using assms(3) disp persist
    by (auto simp: fast_body_def synchronize_tasks_and_results_def Let_def d1_def d2_def d4_def)
  have ok: "tasks_ok b" if "safe_step cfg (pr_db p) b" for b using that assms(1) by (simp add: safe_step_def)
  have s1: "safe_step cfg (pr_db p) d1" unfolding d1_def by (rule safe_recover)
  have s2: "safe_step cfg (pr_db p) d2"
    using safe_step_trans [OF s1 sync_safe [OF ok [OF s1]]] unfolding d2_def .
  have s3: "safe_step cfg (pr_db p) d3" using safe_step_trans [OF s2 persist_safe [OF ok [OF s2] assms(2) persist]] .
  have s4: "safe_step cfg (pr_db p) d4" using safe_step_trans [OF s3 safe_expire_sla] unfolding d4_def .
  show thesis by (rule that [OF s4 disp [folded res(1)] res(2)])
qed

lemma fast_body_safe:
  assumes "tasks_ok (pr_db p)" and "\<And>j. pe_interfere (ti_persist ti) j = (\<lambda>d. d)" and "fast_body cfg ti p = (r, p')"
  shows "safe_step cfg (pr_db p) (pr_db p')"
proof -
  obtain s d q ds s' where d: "safe_step cfg (pr_db p) d"
    and disp: "dispatch_queued_tasks cfg (ti_dispatch ti) 32 (sc_deferred_since (pr_sched p)) s d = (q, ds, s', pr_db p')"
    and "r = map_sum id (\<lambda>_. ()) q"
    by (rule fast_body_dispatch [OF assms])
  then have "safe_step cfg d (pr_db p')" using assms(1)
    by (intro dispatch_loop_safe [OF _ disp [unfolded dispatch_queued_tasks_def]]) (simp add: safe_step_def)
  then show ?thesis using safe_step_trans [OF d] by simp
qed

lemma fast_tick_step:
  assumes "tasks_ok (pr_db p)" and "\<And>j. pe_interfere (ti_persist ti) j = (\<lambda>d. d)" and "fast_tick cfg ti p = (r, p')"
  shows "safe_step cfg (pr_db p) (pr_db p')"
  using assms(3) unfolding fast_tick_def
proof (cases rule: with_lock_cases)
  case (held c)
  then show ?thesis using fast_body_safe [of "p\<lparr>pr_conn := c\<rparr>" ti cfg r p'] assms(1,2) by simp
qed simp

subsection \<open>Cleanup\<close>

lemma delete_object_keys_absent:
  assumes "object_store store contents" and "delete_object_keys store keys s = (b, s')" and "contents s k = None"
  shows "contents s' k = None"
  using assms(2,3)
proof (induction keys arbitrary: s)
  case (Cons key keys)
  obtain c s1 where del: "safe_delete store key s = (c, s1)" by (cases "safe_delete store key s")
  have "contents s1 k = None" using object_store.safe_delete_absent [OF assms(1) del Cons.prems(2)] .
  then show ?case using Cons del by (cases c) auto
qed simp

lemma delete_object_keys_deletes:
  assumes "object_store store contents" and "delete_object_keys store keys s = (True, s')" and "Some k \<in> set keys" and "k \<noteq> []"
  shows "contents s' k = None"
  using assms(2,3)
proof (induction keys arbitrary: s)
  case (Cons key keys)
  obtain c s1 where del: "safe_delete store key s = (c, s1)" by (cases "safe_delete store key s")
  then have c: "c" "delete_object_keys store keys s1 = (True, s')" using Cons.prems(1) by (auto split: bool.splits)
  show ?case
  proof (cases "key = Some k")
    case True
    then have "contents s1 k = None" using object_store.safe_delete_deletes [OF assms(1), of key s s1] del c(1) assms(4) by simp
    then show ?thesis using delete_object_keys_absent [OF assms(1) c(2)] by simp
  next
    case False
    then show ?thesis using Cons c(2) by auto
  qed
qed simp

lemma delete_task_filter:
  "snd (delete_task tid d) = d\<lparr>db_tasks := filter (\<lambda>t. t_task_id t \<noteq> tid) (db_tasks d)\<rparr>"
proof (cases "get_task tid d")
  case None
  then have "filter (\<lambda>t. t_task_id t \<noteq> tid) (db_tasks d) = db_tasks d"
    by (auto simp: get_task_def db_get_None filter_id_conv)
  then show ?thesis using None by (simp add: delete_task_def)
qed (simp add: delete_task_def db_delete_def)

lemma cleanup_tasks_steps:
  assumes "object_store store contents" and "cleanup_tasks store tks s d = (s', d')" and "distinct (map t_task_id tks)"
  shows "(\<forall>k. contents s k = None \<longrightarrow> contents s' k = None)
    \<and> (\<exists>D \<subseteq> t_task_id ` set tks. d' = d\<lparr>db_tasks := filter (\<lambda>t. t_task_id t \<notin> D) (db_tasks d)\<rparr>
        \<and> (\<forall>tk \<in> set tks. t_task_id tk \<in> D \<longrightarrow>
             (\<forall>k. k \<noteq> [] \<longrightarrow> Some k \<in> {t_payload_key tk, t_result_key tk} \<longrightarrow> contents s' k = None)))"
  using assms(2,3)
proof (induction tks arbitrary: s d)
  case Nil
  then show ?case by (auto intro!: exI [of _ "{}"])
next
  case (Cons tk tks)
  let ?keys = "[t_payload_key tk, t_result_key tk]"
  obtain b s1 where del: "delete_object_keys store ?keys s = (b, s1)" by (cases "delete_object_keys store ?keys s")
  define d1 where "d1 = (if b then snd (delete_task (t_task_id tk) d) else d)"
  have rest: "cleanup_tasks store tks s1 d1 = (s', d')" using Cons.prems(1) del by (cases b) (simp_all add: d1_def del: delete_object_keys.simps)
  have "distinct (map t_task_id tks)" using Cons.prems(2) by simp
  note IH = Cons.IH [OF rest this]
  have mono: "contents s1 k = None \<Longrightarrow> contents s' k = None" for k using IH by blast
  from IH obtain D where D: "D \<subseteq> t_task_id ` set tks" "d' = d1\<lparr>db_tasks := filter (\<lambda>t. t_task_id t \<notin> D) (db_tasks d1)\<rparr>"
      "\<forall>t \<in> set tks. t_task_id t \<in> D \<longrightarrow>
         (\<forall>k. k \<noteq> [] \<longrightarrow> Some k \<in> {t_payload_key t, t_result_key t} \<longrightarrow> contents s' k = None)" by blast
  let ?D = "if b then insert (t_task_id tk) D else D"
  have eq: "d' = d\<lparr>db_tasks := filter (\<lambda>t. t_task_id t \<notin> ?D) (db_tasks d)\<rparr>"
    using D(2) by (auto simp: d1_def delete_task_filter conj_commute intro: filter_cong)
  have gone: "contents s' k = None" if "b" "k \<noteq> []" "Some k \<in> {t_payload_key tk, t_result_key tk}" for k
  proof (rule mono)
    show "contents s1 k = None"
      using delete_object_keys_deletes [OF assms(1), of ?keys s s1 k] del that by auto
  qed
  have "t_task_id tk \<notin> D" using D(1) Cons.prems(2) by auto
  have "contents s' k = None" if "t \<in> set (tk # tks)" "t_task_id t \<in> ?D" "k \<noteq> []" "Some k \<in> {t_payload_key t, t_result_key t}" for t k
  proof (cases "t = tk")
    case True
    then have b using that(2) \<open>t_task_id tk \<notin> D\<close> by (auto split: if_splits)
    then show ?thesis using gone that True by blast
  next
    case False
    then have t: "t \<in> set tks" using that(1) by simp
    then have "t_task_id t \<in> t_task_id ` set tks" by simp
    then have "t_task_id t \<noteq> t_task_id tk" using Cons.prems(2) by auto
    then show ?thesis using D(3) t that by (auto split: if_splits)
  qed
  moreover have "?D \<subseteq> t_task_id ` set (tk # tks)" using D(1) by auto
  moreover have "contents s' k = None" if "contents s k = None" for k
    using mono delete_object_keys_absent [OF assms(1) del that] by blast
  ultimately show ?case using eq by blast
qed

lemma expired_listed:
  assumes "db_wf d"
  shows "distinct (map t_task_id (list_retention_expired_tasks cutoff n d))"
    and "t \<in> set (list_retention_expired_tasks cutoff n d) \<Longrightarrow> t \<in> set (db_tasks d) \<and> retention_expired cutoff t"
  using assms db_select_set unfolding list_retention_expired_tasks_def
  by (auto simp: db_wf_def intro: db_select_distinct dest: db_select_set)

lemma cleanup_expired_steps:
  assumes "object_store store contents" and "db_wf d" and "cleanup_expired_tasks cfg store now s d = (s', d')"
  shows "\<exists>D. d' = d\<lparr>db_tasks := filter (\<lambda>t. t_task_id t \<notin> D) (db_tasks d)\<rparr>
    \<and> (\<forall>t \<in> set (db_tasks d). t_task_id t \<in> D \<longrightarrow>
         retention_expired (now - days (retention_days (retention cfg))) t
         \<and> (\<forall>k. k \<noteq> [] \<longrightarrow> Some k \<in> {t_payload_key t, t_result_key t} \<longrightarrow> contents s' k = None))"
proof -
  let ?tks = "list_retention_expired_tasks (now - days (retention_days (retention cfg))) 100 d"
  from cleanup_tasks_steps [OF assms(1) assms(3) [unfolded cleanup_expired_tasks_def] expired_listed(1) [OF assms(2)]]
  obtain D where D: "D \<subseteq> t_task_id ` set ?tks" "d' = d\<lparr>db_tasks := filter (\<lambda>t. t_task_id t \<notin> D) (db_tasks d)\<rparr>"
    "\<forall>t \<in> set ?tks. t_task_id t \<in> D \<longrightarrow> (\<forall>k. k \<noteq> [] \<longrightarrow> Some k \<in> {t_payload_key t, t_result_key t} \<longrightarrow> contents s' k = None)"
    by blast
  have "t \<in> set ?tks" if t: "t \<in> set (db_tasks d)" "t_task_id t \<in> D" for t
  proof -
    obtain u where u: "u \<in> set ?tks" "t_task_id u = t_task_id t" using D(1) t(2) by auto
    have "get_task (t_task_id u) d = Some u" using get_task_mem [OF assms(2)] expired_listed(2) [OF assms(2) u(1)] by blast
    then have "u = t" unfolding u(2) get_task_mem [OF assms(2) t(1)] by (rule option.inject [THEN iffD1, symmetric])
    then show ?thesis using u(1) by simp
  qed
  then show ?thesis using D(2,3) expired_listed(2) [OF assms(2)] by blast
qed

lemma sweep_tables:
  assumes "sweep_rows store (\<lambda>_ d. d) i rows m s d = (n, s', d')"
  shows "db_tasks d' = db_tasks d \<and> db_workers d' = db_workers d \<and> (db_wf d \<longrightarrow> db_wf d')"
  using assms
proof (induction rows arbitrary: i m s d)
  case (Cons row rows)
  let ?d = "d\<lparr>db_cache := db_delete c_cache_key (c_cache_key row) (db_cache d)\<rparr>"
  have "db_wf d \<Longrightarrow> db_wf ?d" by (simp add: db_wf_def db_delete_distinct)
  moreover obtain m' s1 d1 where "sweep_rows store (\<lambda>_ d. d) (Suc i) rows m' s1 d1 = (n, s', d')" "d1 = d \<or> d1 = ?d"
    using Cons.prems by (auto simp: Let_def split: prod.splits bool.splits option.splits if_splits)
  ultimately show ?case using Cons.IH [of "Suc i" m' s1 d1] by auto
qed simp

text \<open>What a slow tick may do to the tasks: drop finished ones whose retention is over.\<close>

definition retained :: "time \<Rightarrow> db \<Rightarrow> db \<Rightarrow> bool" where
  "retained cutoff d d' \<longleftrightarrow> (\<exists>D. db_tasks d' = filter (\<lambda>t. t_task_id t \<notin> D) (db_tasks d)
     \<and> (\<forall>t \<in> set (db_tasks d). t_task_id t \<in> D \<longrightarrow> retention_expired cutoff t))"

lemma retained_refl: "db_tasks d' = db_tasks d \<Longrightarrow> retained cutoff d d'"
  unfolding retained_def by (intro exI [of _ "{}"]) simp

lemma cleanup_step_retains:
  assumes "object_store store contents" and "db_wf d" and "interfere = (\<lambda>_ d. d)"
    and "cleanup_if_due cfg store interfere now sc s d = (sc', s', d')"
  shows "retained (now - days (retention_days (retention cfg))) d d' \<and> db_workers d' = db_workers d \<and> db_wf d'"
proof (cases "sc_next_cleanup_at sc \<noteq> None \<and> now < the (sc_next_cleanup_at sc)")
  case True
  then show ?thesis using assms(2,4) by (auto simp: cleanup_if_due_def intro: retained_refl)
next
  case False
  then have due: "cleanup_due cfg store interfere now sc s d = (sc', s', d')"
    using assms(4) by (auto simp: cleanup_if_due_def split: option.splits)
  obtain s1 d1 where c: "cleanup_expired_tasks cfg store now s d = (s1, d1)" by (cases "cleanup_expired_tasks cfg store now s d")
  from cleanup_expired_steps [OF assms(1,2) c]
  obtain D where D: "d1 = d\<lparr>db_tasks := filter (\<lambda>t. t_task_id t \<notin> D) (db_tasks d)\<rparr>"
    "\<forall>t \<in> set (db_tasks d). t_task_id t \<in> D \<longrightarrow> retention_expired (now - days (retention_days (retention cfg))) t" by blast
  have wf: "db_wf d1" using assms(2) unfolding D(1) by (simp add: db_wf_def distinct_map_filter)
  have "db_tasks d' = db_tasks d1 \<and> db_workers d' = db_workers d1 \<and> (db_wf d1 \<longrightarrow> db_wf d')"
    using due c unfolding cleanup_due_def sweep_expired_def assms(3)
    by (auto simp: Let_def split: if_splits prod.splits dest: sweep_tables)
  then show ?thesis using D wf by (auto simp: retained_def)
qed

subsection \<open>The slow tick\<close>

lemma reconcile_fleet:
  assumes "db_wf (wd_db W)" and "reconcile_workers cfg provider now W = (r, W')"
  shows "fleet_step (wd_db W) (wd_db W')"
proof (cases "cp_discover provider (deployment_id cfg) (wd_cloud W)")
  case (Pair q c)
  show ?thesis
  proof (cases q)
    case (Inl e)
    then show ?thesis using assms(2) Pair by (auto simp: reconcile_workers_def provider_query_def and_then_def)
  next
    case (Inr discovered)
    then show ?thesis using reconcile_justified [OF assms(1) Pair [unfolded Inr] assms(2)] by (simp add: world_step_def)
  qed
qed

text \<open>Up to the cleanup, each step only evolves the fleet.\<close>

definition bounded_step :: "gateway_settings \<Rightarrow> ('c, 's, 'l) process \<Rightarrow> ('c, 's, 'l) tick_result \<Rightarrow> bool" where
  "bounded_step cfg p r \<longleftrightarrow> fleet_bounded cfg (pr_db p) (pr_db (snd r))"

lemma reconcile_bounded:
  assumes "db_wf (pr_db p)" shows "bounded_step cfg p (reconcile_step cfg ti p)"
proof (cases "ti_provider ti")
  case None
  then show ?thesis by (simp add: bounded_step_def reconcile_step_def bounded.step_refl)
next
  case (Some provider)
  let ?body = "\<lambda>p. case reconcile_workers cfg provider (ti_clock ti 0) (pr_world p) of (r, W) \<Rightarrow> (r, p\<lparr>pr_world := W\<rparr>)"
  obtain r p' where run: "with_lock ti ?body p = (r, p')" by (cases "with_lock ti ?body p")
  from run have "fleet_bounded cfg (pr_db p) (pr_db p')"
  proof (cases rule: with_lock_cases)
    case (held c)
    obtain q W where W: "reconcile_workers cfg provider (ti_clock ti 0) (pr_world p) = (q, W)"
      by (cases "reconcile_workers cfg provider (ti_clock ti 0) (pr_world p)")
    then have "wd_db W = pr_db p'" using held(1) by auto
    then show ?thesis using bounded_fleet [OF reconcile_fleet [OF assms W]] by simp
  qed (simp add: bounded.step_refl)
  then show ?thesis using Some run by (simp add: bounded_step_def reconcile_step_def)
qed

lemma health_bounded: "bounded_step cfg p (health_step cfg ti p)"
proof (cases "refresh_worker_health cfg (ti_health ti) (ti_clock ti 2) (pr_db p)")
  case (Pair q d)
  then show ?thesis
    using bounded_fleet [OF fleet_refresh, of cfg "pr_db p" cfg "ti_health ti" "ti_clock ti 2"]
    by (simp add: bounded_step_def health_step_def)
qed

lemma autoscale_bounded: "db_wf (pr_db p) \<Longrightarrow> bounded_step cfg p (autoscale_step cfg ti p)"
  using bounded_autoscaling by (auto simp: bounded_step_def autoscale_step_def split: prod.splits)

lemma rotation_bounded: "db_wf (pr_db p) \<Longrightarrow> bounded_step cfg p (rotation_step cfg ti p)"
  using bounded_drains_and_rotations by (auto simp: bounded_step_def rotation_step_def split: prod.splits)

text \<open>The fleet part followed by the cleanup.\<close>

definition slow_effect :: "gateway_settings \<Rightarrow> time \<Rightarrow> db \<Rightarrow> db \<Rightarrow> bool" where
  "slow_effect cfg now d d' \<longleftrightarrow> (\<exists>dm. fleet_bounded cfg d dm
     \<and> retained (now - days (retention_days (retention cfg))) dm d' \<and> db_workers d' = db_workers dm \<and> db_wf d')"

lemma slow_effect_bounded: "db_wf d \<Longrightarrow> fleet_bounded cfg d d' \<Longrightarrow> slow_effect cfg now d d'"
  unfolding slow_effect_def by (intro exI [of _ d']) (auto simp: fleet_bounded_def intro: retained_refl)

lemma slow_effect_trans:
  "fleet_bounded cfg d d1 \<Longrightarrow> slow_effect cfg now d1 d' \<Longrightarrow> slow_effect cfg now d d'"
  unfolding slow_effect_def using bounded.step_trans by blast

lemma slow_and_then:
  assumes "and_then q k = (r, p')" and "db_wf (pr_db p)" and "bounded_step cfg p q"
    and "\<And>x p1. db_wf (pr_db p1) \<Longrightarrow> k x p1 = (r, p') \<Longrightarrow> slow_effect cfg now (pr_db p1) (pr_db p')"
  shows "slow_effect cfg now (pr_db p) (pr_db p')"
proof -
  obtain x p1 where q: "q = (x, p1)" by (cases q)
  have step: "fleet_bounded cfg (pr_db p) (pr_db p1)" using assms(3) q by (simp add: bounded_step_def)
  then have wf: "db_wf (pr_db p1)" using assms(2) by (simp add: fleet_bounded_def)
  show ?thesis
  proof (cases x)
    case (Inl e)
    then show ?thesis using assms(1) q slow_effect_bounded [OF assms(2) step] by (simp add: and_then_def)
  next
    case (Inr y)
    then show ?thesis using assms(1) q slow_effect_trans [OF step assms(4) [OF wf]] by (simp add: and_then_def)
  qed
qed

lemma slow_body_step:
  assumes "object_store (ti_store ti) contents" and "ti_interfere ti = (\<lambda>_ d. d)"
    and "db_wf (pr_db p)" and "slow_body cfg ti p = (r, p')"
  shows "slow_effect cfg (ti_clock ti 5) (pr_db p) (pr_db p')"
  using assms(4) unfolding slow_body_def
proof (rule slow_and_then [OF _ assms(3) reconcile_bounded [OF assms(3)]], goal_cases)
  case (1 x p1)
  let ?p1 = "set_db (converge_stalled_workers cfg (ti_clock ti 1) (pr_db p1)) p1"
  have conv: "fleet_bounded cfg (pr_db p1) (pr_db ?p1)" using bounded_fleet [OF fleet_converge] by simp
  then have "db_wf (pr_db ?p1)" using 1(1) by (simp add: fleet_bounded_def)
  from 1(2) have "slow_effect cfg (ti_clock ti 5) (pr_db ?p1) (pr_db p')"
  proof (rule slow_and_then [OF _ \<open>db_wf (pr_db ?p1)\<close> health_bounded], goal_cases)
    case (1 x p2)
    from 1(2) show ?case
    proof (rule slow_and_then [OF _ 1(1) autoscale_bounded [OF 1(1)]], goal_cases)
      case (1 x p3)
      from 1(2) show ?case
      proof (rule slow_and_then [OF _ 1(1) rotation_bounded [OF 1(1)]], goal_cases)
        case (1 x p4)
        then show ?case
          using cleanup_step_retains [OF assms(1) 1(1) assms(2)] bounded.step_refl [of cfg "pr_db p4"]
          unfolding slow_effect_def cleanup_step_def by (auto split: prod.splits)
      qed
    qed
  qed
  then show ?case by (rule slow_effect_trans [OF conv])
qed

lemma slow_tick_step:
  assumes "object_store (ti_store ti) contents" and "ti_interfere ti = (\<lambda>_ d. d)"
    and "db_wf (pr_db p)" and "slow_tick cfg ti p = (r, p')"
  shows "slow_effect cfg (ti_clock ti 5) (pr_db p) (pr_db p')"
  using assms(4) unfolding slow_tick_def
proof (cases rule: with_lock_cases)
  case lost
  then show ?thesis using slow_effect_bounded [OF assms(3) bounded.step_refl] by simp
next
  case (held c)
  then show ?thesis using slow_body_step [OF assms(1,2), of "p\<lparr>pr_conn := c\<rparr>"] assms(3) by simp
qed

text \<open>One worker, one queued task, an in-memory store and a worker that accepts what it is sent.\<close>

definition example_inputs :: "(unit, buckets, unit, unit) tick_inputs" where
  "example_inputs = \<lparr>ti_provider = Some example_provider, ti_store = S3ObjectStore memory_client ''b'',
     ti_lock = \<lparr>ls_connect = \<lambda>c. (Inr (), c), ls_try_lock = \<lambda>c. (Inr True, c), ls_unlock = \<lambda>c. (Inr (), c),
       ls_ping = \<lambda>c. (Inr (), c), ls_close = \<lambda>c. (Inr (), c)\<rparr>,
     ti_clock = \<lambda>_. 20, ti_new_id = \<lambda>i. if i = 0 then ''cloud-2'' else ''cloud-3'',
     ti_health = \<lambda>_. Inr (200, Inr (JObj [(''status'', JStr ''healthy'')])),
     ti_poll_clock = \<lambda>_. 20, ti_poll = \<lambda>_ _. None,
     ti_persist = \<lparr>pe_clock = \<lambda>_. 20, pe_fetch = \<lambda>_ _. Inr [], pe_generation = \<lambda>_. ''g'', pe_interfere = \<lambda>_ d. d\<rparr>,
     ti_dispatch = \<lparr>te_clock = \<lambda>_. 20, te_locked_tasks = \<lambda>_ _. False, te_locked_workers = \<lambda>_ _. False,
       te_dispatch = \<lambda>_. \<lparr>de_clock = \<lambda>_. 20, de_locked = \<lambda>_ _. False, de_rebuild = \<lambda>_ s. (Inr (Some ()), s),
         de_submit = \<lambda>_ _ _. Inr (Some ''u1'', Some ''queued'')\<rparr>\<rparr>,
     ti_interfere = \<lambda>_ d. d\<rparr>"

definition example_process :: "(unit, buckets, unit) process" where
  "example_process = \<lparr>pr_sched = new_sched (PgLock \<lparr>pl_conn = True, pl_held = True\<rparr>),
     pr_world = \<lparr>wd_db = example_db, wd_cloud = (), wd_calls = []\<rparr>, pr_store = (\<lambda>_. None), pr_conn = ()\<rparr>"

section \<open>Properties\<close>

text \<open>A dispatch tick keeps the promises of the task table, even when it ends with an exception. The
  invariant of every row is kept; every task moved only along the lifecycle and kept its identity,
  payload and options; and no worker holds more tasks than \<open>target_per_worker\<close> unless it already did
  before the tick.\<close>

lemma fast_tick_safe:
  assumes "tasks_ok (pr_db p)" and "\<And>j. pe_interfere (ti_persist ti) j = (\<lambda>d. d)" and "fast_tick cfg ti p = (r, p')"
  shows "tasks_ok (pr_db p') \<and> list_all2 task_evolves (db_tasks (pr_db p)) (db_tasks (pr_db p'))
    \<and> (\<forall>wid. int (compute_load (pr_db p') wid) \<le> max (int (compute_load (pr_db p) wid)) (target_per_worker (scaling cfg)))"
  using fast_tick_step [OF assms] assms(1) by (simp add: safe_step_def)

text \<open>A reconcile tick keeps the fleet within bounds and touches no live task. Workers are only
  added or evolve (identity kept, terminated ones stay so, none disappears); there is at most one
  worker more than \<open>max_workers\<close> and at most one replacement under way, unless there already were more;
  and a task disappears only when it is finished and its retention is over.\<close>

lemma slow_tick_bounded:
  assumes "object_store (ti_store ti) contents" and "ti_interfere ti = (\<lambda>_ d. d)"
    and "db_wf (pr_db p)" and "slow_tick cfg ti p = (r, p')"
  shows "(\<exists>rows new. db_workers (pr_db p') = rows @ new \<and> list_all2 worker_evolves (db_workers (pr_db p)) rows)
    \<and> count_workers cfg (pr_db p') \<le> max (count_workers cfg (pr_db p)) (max_workers (scaling cfg) + 1)
    \<and> count_active_replacements cfg (pr_db p') \<le> max (count_active_replacements cfg (pr_db p)) 1
    \<and> retained (ti_clock ti 5 - days (retention_days (retention cfg))) (pr_db p) (pr_db p')"
proof -
  obtain dm where dm: "fleet_bounded cfg (pr_db p) dm" "db_workers (pr_db p') = db_workers dm"
    "retained (ti_clock ti 5 - days (retention_days (retention cfg))) dm (pr_db p')"
    using slow_tick_step [OF assms] unfolding slow_effect_def by blast
  have "count_workers cfg (pr_db p') = count_workers cfg dm" "count_active_replacements cfg (pr_db p') = count_active_replacements cfg dm"
    using dm(2) by (simp_all add: count_workers_def count_active_replacements_def count_where_def)
  moreover have "db_tasks dm = db_tasks (pr_db p)" using dm(1) by (simp add: fleet_bounded_def)
  ultimately show ?thesis using dm assms(3) by (auto simp: fleet_bounded_def retained_def)
qed

text \<open>C26: Retention leaves nothing behind. Cleanup removes only finished tasks whose retention is over,
  every other row stays in place, and of a removed task neither the payload nor the result object is
  left in the store; a task whose objects could not be deleted is kept for the next attempt.\<close>

theorem cleanup_leaves_nothing_behind:
  assumes "object_store store contents" and "db_wf d" and "cleanup_expired_tasks cfg store now s d = (s', d')"
  shows "\<exists>D. d' = d\<lparr>db_tasks := filter (\<lambda>t. t_task_id t \<notin> D) (db_tasks d)\<rparr>
    \<and> (\<forall>t \<in> set (db_tasks d). t_task_id t \<in> D \<longrightarrow>
         t_status t \<in> TASK_STATUSES_TERMINAL \<and> retention_expired (now - days (retention_days (retention cfg))) t
         \<and> (\<forall>k. k \<noteq> [] \<longrightarrow> Some k \<in> {t_payload_key t, t_result_key t} \<longrightarrow> contents s' k = None))"
  using cleanup_expired_steps [OF assms] unfolding retention_expired_def by blast

theorem cleanup_leaves_nothing_behind_witness:
  "\<exists>s' d'. cleanup_expired_tasks default_settings (S3ObjectStore memory_client ''b'') (days 99)
      (\<lambda>_. Some []) (empty_db\<lparr>db_tasks := [(new_task ''t1'' 0)\<lparr>t_status := TASK_FAILED, t_completed_at := Some 5,
         t_payload_key := Some ''payloads/t1.bin''\<rparr>]\<rparr>) = (s', d')
    \<and> db_tasks d' = [] \<and> s' (''b'', ''payloads/t1.bin'') = None"
proof -
  let ?t = "(new_task ''t1'' 0)\<lparr>t_status := TASK_FAILED, t_completed_at := Some 5, t_payload_key := Some ''payloads/t1.bin''\<rparr>"
  let ?run = "cleanup_expired_tasks default_settings (S3ObjectStore memory_client ''b'') (days 99) (\<lambda>_. Some []) (empty_db\<lparr>db_tasks := [?t]\<rparr>)"
  obtain s' d' where run: "?run = (s', d')" by (cases ?run)
  have empty: "db_tasks (snd ?run) = []" by code_simp
  have wf: "db_wf (empty_db\<lparr>db_tasks := [?t]\<rparr>)" by code_simp
  from cleanup_leaves_nothing_behind [OF memory.object_store_axioms wf run]
  show ?thesis using empty run by auto
qed

text \<open>The loops wake at multiples of their interval: the sleep is positive, at most one interval
  long, and ends on a boundary.\<close>

lemma sleep_ends_on_boundary:
  assumes "0 < interval"
  shows "0 < sleep_until_next_boundary t interval \<and> sleep_until_next_boundary t interval \<le> interval
    \<and> (t + sleep_until_next_boundary t interval) mod interval = 0"
proof -
  have m: "(t div interval + 1) * interval - t = interval - t mod interval"
    using minus_mult_div_eq_mod [of t interval] by (simp add: algebra_simps)
  have "0 \<le> t mod interval" "t mod interval < interval" using assms by simp_all
  then have eq: "sleep_until_next_boundary t interval = interval - t mod interval"
    using assms unfolding sleep_until_next_boundary_def m by simp
  have "t + (interval - t mod interval) = (t div interval + 1) * interval" using m by simp
  then show ?thesis unfolding eq using \<open>0 \<le> t mod interval\<close> \<open>t mod interval < interval\<close>
    by (simp only: mod_mult_self2_is_0) simp
qed

end
