(* ===== verification/Progress.thy ===== *)
theory Progress
  imports Scheduler
begin

text \<open>
  Progress of the dispatch tick: that the loops of \<^verbatim>\<open>scheduler/task_repository.py\<close> do not only
  keep their promises but get work done. When payloads can be rebuilt and workers accept what they are
  sent, dispatch is work-conserving; and what the bounded batch of status polls means for the tasks
  outside of it.
\<close>

section \<open>Definitions\<close>

text \<open>A good environment: no row is held by another transaction, every payload can be rebuilt, and every
  submission is accepted.\<close>

definition accepting :: "('s, 'p) tick_env \<Rightarrow> bool" where
  "accepting te \<longleftrightarrow>
     (\<forall>k x. \<not> te_locked_tasks te k x \<and> \<not> te_locked_workers te k x)
     \<and> (\<forall>k tk s. \<exists>p s'. de_rebuild (te_dispatch te k) tk s = (Inr (Some p), s'))
     \<and> (\<forall>k i url p. \<exists>uid st. de_submit (te_dispatch te k) i url p = Inr (Some uid, Some st))"

text \<open>How many tasks wait in the queue.\<close>

definition queue_length :: "db \<Rightarrow> nat" where
  "queue_length d = db_count (\<lambda>t. t_status t = TASK_QUEUED) (db_tasks d)"

text \<open>How many tasks are not finished yet.\<close>

abbreviation unfinished :: "db \<Rightarrow> nat" where
  "unfinished d \<equiv> db_count (\<lambda>t. t_status t \<notin> TASK_STATUSES_TERMINAL) (db_tasks d)"

text \<open>No worker has the empty string as its address.\<close>

definition addressed :: "db \<Rightarrow> bool" where
  "addressed d \<longleftrightarrow> list_all (\<lambda>w. w_base_url w \<noteq> Some []) (db_workers d)"

text \<open>No worker of the deployment has a free slot.\<close>

definition saturated :: "gateway_settings \<Rightarrow> db \<Rightarrow> bool" where
  "saturated cfg d \<longleftrightarrow> \<not> list_ex (dispatchable_clause cfg d) (db_workers d)"

section \<open>Lemmas\<close>

lemma addressed_stamped:
  assumes "list_all2 worker_stamped (db_workers d) (db_workers d')" and "addressed d"
  shows "addressed d'"
proof -
  have "w_base_url w' = w_base_url w" if "worker_stamped w w'" for w w'
    using that unfolding worker_stamped_def by (cases w; cases w') simp
  then show ?thesis using assms unfolding addressed_def
    by (fastforce simp: list_all2_conv_all_nth list_all_length)
qed

lemma addressed_safe: "safe_step cfg d d' \<Longrightarrow> tasks_ok d \<Longrightarrow> addressed d \<Longrightarrow> addressed d'"
  unfolding safe_step_def using addressed_stamped by blast

lemma queue_upd_task:
  assumes "db_wf d" and "get_task tid d = Some row"
  shows "queue_length (upd_task now tid f d) + of_bool (t_status row = TASK_QUEUED)
    = queue_length d + of_bool (t_status (f row) = TASK_QUEUED)"
  using db_count_update_eq [of t_task_id "db_tasks d" tid row "\<lambda>t. t_status t = TASK_QUEUED" "save_task now f"] assms
  by (simp add: queue_length_def db_wf_def get_task_def)

lemma queue_empty: "tasks_ok d \<Longrightarrow> queue_length d = 0 \<longleftrightarrow> (\<forall>t \<in> set (db_tasks d). \<not> queued_clause t)"
  by (auto simp: queue_length_def db_count_0 queued_clause_def tasks_ok_def list_all_iff task_ok_def)

text \<open>With no row locked, nothing is claimed only when nothing is queued or no worker has a free slot.\<close>

lemma claim_None:
  assumes "\<And>x. \<not> lt x \<and> \<not> lw x" and "tasks_ok d" and "claim_next_dispatch cfg now lt lw ds d = (None, ds', d')"
  shows "d' = d" "queue_length d = 0 \<or> saturated cfg d"
proof -
  show "d' = d" using assms(3) by (auto simp: claim_next_dispatch_def split: option.splits prod.splits)
  show "queue_length d = 0 \<or> saturated cfg d"
  proof (cases "db_first (\<lambda>t. queued_clause t \<and> \<not> lt (t_task_id t)) t_created_at (db_tasks d)")
    case None
    then show ?thesis using assms(1,2) by (auto simp: db_first_None queue_empty)
  next
    case (Some c)
    then have "acquire_dispatchable cfg now lw {} d = None"
      using assms(3) by (auto simp: claim_next_dispatch_def split: option.splits prod.splits)
    then show ?thesis using assms(1) by (auto simp: acquire_None saturated_def list_ex_iff)
  qed
qed

text \<open>A claim takes one task off the queue.\<close>

lemma claim_takes_one:
  assumes "db_wf d" and "claim_next_dispatch cfg now lt lw ds d = (Some (tk, w), ds', d')"
  shows "Suc (queue_length d') = queue_length d" "t_status tk = TASK_DISPATCHING" "serviceable_clause cfg w"
    "addressed d \<Longrightarrow> w_base_url w \<noteq> Some []"
proof -
  from assms(2) obtain c d1 where c: "c \<in> set (db_tasks d)" "queued_clause c"
    and acq: "acquire_dispatchable cfg now lw {} d = Some (w, d1)"
    and tk: "tk = save_task now (dispatching_on now (w_id w)) c"
    and d': "d' = upd_task now (t_task_id c) (dispatching_on now (w_id w)) d1"
    by (rule claim_SomeD)
  have "get_task (t_task_id c) d1 = Some c" "queue_length d1 = queue_length d"
    using get_task_mem [OF assms(1) c(1)] get_task_same [OF acquire_load(3) [OF acq]] acquire_load(3) [OF acq]
    by (simp_all add: queue_length_def)
  then show "Suc (queue_length d') = queue_length d"
    using queue_upd_task [OF acquire_wf [OF acq assms(1)], of "t_task_id c" c now "dispatching_on now (w_id w)"] c(2)
    by (simp add: d' dispatching_on_def queued_clause_def)
  show "t_status tk = TASK_DISPATCHING" by (simp add: tk dispatching_on_def)
  from acq obtain v where v: "v \<in> set (db_workers d)" "dispatchable_clause cfg d v"
    "w = save_worker now (\<lambda>r. r\<lparr>w_last_active_at := Some now\<rparr>) v"
    by (rule acquire_SomeD)
  then show "serviceable_clause cfg w" by (simp add: dispatchable_clause_def serviceable_clause_def deployment_clause_def)
  show "w_base_url w \<noteq> Some []" if "addressed d" using that v(1,3) by (auto simp: addressed_def list_all_iff)
qed

text \<open>In a good environment a claimed task is accepted at the first attempt.\<close>

lemma submit_accepted:
  assumes "accepting te" and "w_base_url w = Some (c # url)"
  shows "\<exists>uid st s'. submit_claimed_task cfg (te_dispatch te k) tk w s d
    = (Inr True, s', mark_processing (de_clock (te_dispatch te k) 0) (t_task_id tk) (w_id w) uid (c # url) st d)"
proof -
  obtain p s' where "de_rebuild (te_dispatch te k) tk s = (Inr (Some p), s')" using assms(1) unfolding accepting_def by blast
  moreover obtain uid st where "de_submit (te_dispatch te k) 0 (c # url) p = Inr (Some uid, Some st)"
    using assms(1) unfolding accepting_def by blast
  ultimately have "submit_claimed_task cfg (te_dispatch te k) tk w s d
      = (Inr True, s', mark_processing (de_clock (te_dispatch te k) 0) (t_task_id tk) (w_id w) uid (c # url) st d)"
    by (simp add: submit_claimed_task_def submit_loop.simps submit_attempt_def Let_def assms(2))
  then show ?thesis by blast
qed

lemma queue_mark_processing:
  assumes "db_wf d" and "get_task tid d = Some row" and "t_status row = TASK_DISPATCHING"
  shows "queue_length (mark_processing now tid wid uid base st d) = queue_length d"
proof -
  have "t_status (processing_row now wid uid base st row) \<noteq> TASK_QUEUED"
    using normalize_accepted [of "Some st"] by (auto simp: processing_row_fields)
  then show ?thesis unfolding mark_processing_def
    using queue_upd_task [OF assms(1,2), of now "processing_row now wid uid base st"] assms(3) by simp
qed

text \<open>One round of the dispatch loop: a task leaves the queue, or there is nothing to do.\<close>

lemma dispatch_round:
  assumes "accepting te" and "tasks_ok d" and "addressed d"
  obtains (idle) ds' where "claim_next_dispatch cfg (te_clock te k) (te_locked_tasks te k) (te_locked_workers te k) ds d = (None, ds', d)"
      "queue_length d = 0 \<or> saturated cfg d"
  | (served) tk w ds' d1 s' d2 where
      "claim_next_dispatch cfg (te_clock te k) (te_locked_tasks te k) (te_locked_workers te k) ds d = (Some (tk, w), ds', d1)"
      "submit_claimed_task cfg (te_dispatch te k) tk w s d1 = (Inr True, s', d2)"
      "tasks_ok d2" "addressed d2" "Suc (queue_length d2) = queue_length d"
proof -
  let ?claim = "claim_next_dispatch cfg (te_clock te k) (te_locked_tasks te k) (te_locked_workers te k) ds d"
  have free: "\<not> te_locked_tasks te k x \<and> \<not> te_locked_workers te k x" for x using assms(1) by (simp add: accepting_def)
  obtain r ds' d1 where claim: "?claim = (r, ds', d1)" by (cases ?claim)
  show thesis
  proof (cases r)
    case None
    note N = claim_None [OF free assms(2) claim [unfolded None]]
    show thesis by (rule idle [OF claim [unfolded None N(1)] N(2)])
  next
    case (Some a)
    obtain tk w where a: "r = Some (tk, w)" using Some by (cases a) simp
    have wf: "db_wf d" using assms(2) by (simp add: tasks_ok_def)
    note C = claim_takes_one [OF wf claim [unfolded a]] and G = claim_claimed [OF claim [unfolded a] wf]
    note S1 = claim_safe [OF claim]
    have ok1: "tasks_ok d1" "addressed d1"
      using S1 addressed_safe [OF S1 assms(2,3)] assms(2) by (simp_all add: safe_step_def)
    obtain c url where "w_base_url w = Some (c # url)"
      using C(3) C(4) [OF assms(3)] by (cases "w_base_url w") (auto simp: serviceable_clause_def neq_Nil_conv)
    from submit_accepted [OF assms(1) this, of cfg k tk s d1] obtain uid st s' where
      sub: "submit_claimed_task cfg (te_dispatch te k) tk w s d1
        = (Inr True, s', mark_processing (de_clock (te_dispatch te k) 0) (t_task_id tk) (w_id w) uid (c # url) st d1)" (is "_ = (_, _, ?d2)")
      by blast
    have S2: "safe_step cfg d1 ?d2" by (rule safe_mark_processing [OF G(2)])
    then have "tasks_ok ?d2" "addressed ?d2"
      using addressed_safe [OF S2 ok1] ok1(1) by (simp_all add: safe_step_def)
    moreover have "queue_length ?d2 = queue_length d1"
      using queue_mark_processing [OF _ G(1) C(2)] ok1(1) by (simp add: tasks_ok_def)
    ultimately show thesis using served [OF claim [unfolded a] sub] C(1) by simp
  qed
qed

lemma dispatch_loop_conserving:
  assumes "accepting te" and "tasks_ok d" and "addressed d"
  shows "\<exists>m' ds' s' d'. dispatch_loop cfg te n k m ds s d = (Inr (m + m'), ds', s', d')
    \<and> queue_length d' + m' = queue_length d \<and> m' \<le> n \<and> (m' < n \<longrightarrow> queue_length d' = 0 \<or> saturated cfg d')"
  using assms(2,3)
proof (induction n arbitrary: k m ds s d)
  case 0
  then show ?case by simp
next
  case (Suc n)
  show ?case
  proof (rule dispatch_round [OF assms(1) Suc.prems, where cfg = cfg and k = k and ds = ds and s = s], goal_cases idle served)
    case (idle ds')
    then show ?thesis by simp
  next
    case (served tk w ds' d1 s' d2)
    from Suc.IH [OF served(3,4), of "Suc k" "Suc m" ds' s'] obtain m' ds2 s2 d' where
      "dispatch_loop cfg te n (Suc k) (Suc m) ds' s' d2 = (Inr (Suc m + m'), ds2, s2, d')"
      "queue_length d' + m' = queue_length d2" "m' \<le> n" "m' < n \<longrightarrow> queue_length d' = 0 \<or> saturated cfg d'"
      by blast
    then show ?thesis using served(1,2,5) by (intro exI [of _ "Suc m'"]) simp
  qed
qed

text \<open>The parts of the tick before dispatch put at most the claimed tasks back into the queue.\<close>

lemma queue_evolves:
  assumes "list_all2 task_evolves (db_tasks d) (db_tasks d')"
  shows "queue_length d' \<le> db_count (\<lambda>t. t_status t \<in> {TASK_QUEUED, TASK_DISPATCHING}) (db_tasks d)"
proof -
  have "b = TASK_QUEUED \<or> b = TASK_DISPATCHING \<longrightarrow> a = TASK_QUEUED \<or> a = TASK_DISPATCHING" if "lifecycle\<^sup>*\<^sup>* a b" for a b
    using that by (induction rule: rtranclp_induct) (auto elim: lifecycle.cases)
  then have "t_status t' \<in> {TASK_QUEUED, TASK_DISPATCHING} \<Longrightarrow> t_status t \<in> {TASK_QUEUED, TASK_DISPATCHING}" if "task_evolves t t'" for t t'
    using that by (auto simp: task_evolves_def)
  from list_all2_count [OF assms this] have "db_count (\<lambda>t. t_status t \<in> {TASK_QUEUED, TASK_DISPATCHING}) (db_tasks d')
      \<le> db_count (\<lambda>t. t_status t \<in> {TASK_QUEUED, TASK_DISPATCHING}) (db_tasks d)" .
  moreover have "queue_length d' \<le> db_count (\<lambda>t. t_status t \<in> {TASK_QUEUED, TASK_DISPATCHING}) (db_tasks d')"
    unfolding queue_length_def by (rule db_count_mono) simp
  ultimately show ?thesis by linarith
qed

subsection \<open>The batch of status polls\<close>

lemma upd_task_unchanged:
  assumes "db_wf d" and "get_task tid d = Some row" and "f row = row"
  shows "upd_task now tid f d = d"
proof -
  have "db_update t_task_id tid (save_task now f) (db_tasks d) = db_tasks d"
    unfolding db_update_def by (rule map_idI) (use task_row_unique [OF assms(1,2)] assms(3) in \<open>auto simp: save_task_def\<close>)
  then show ?thesis by (simp add: upd_task_def)
qed

text \<open>The worker that runs the task reports nothing that differs from its row.\<close>

definition no_news :: "time \<Rightarrow> (string \<Rightarrow> upstream_payload option) \<Rightarrow> task \<Rightarrow> bool" where
  "no_news now poll t \<longleftrightarrow> t_next_poll_at t = None
     \<and> (case poll (the (t_upstream_base_url t) @ ''/tasks/'' @ the (t_upstream_task_id t)) of
          None \<Rightarrow> False | Some p \<Rightarrow> updated_row now p t = t)"

lemma sync_one_no_news:
  assumes "db_wf d" and "get_task (t_task_id t) d = Some t" and "no_news now poll t"
  shows "sync_one now poll t d = (False, d)"
proof -
  obtain p where p: "poll (the (t_upstream_base_url t) @ ''/tasks/'' @ the (t_upstream_task_id t)) = Some p"
    "updated_row now p t = t" "t_next_poll_at t = None"
    using assms(3) by (auto simp: no_news_def split: option.splits)
  have "t\<lparr>t_next_poll_at := None\<rparr> = t" using p(3) by (cases t) simp
  then have "upd_task now (t_task_id t) (updated_row now p) d = d"
    "upd_task now (t_task_id t) (\<lambda>r. r\<lparr>t_next_poll_at := None\<rparr>) d = d"
    using upd_task_unchanged [OF assms(1,2)] p(2) by simp_all
  then have "refresh_task_from_upstream now poll (t_task_id t) d = (Some t, d)"
    using assms(2) p(1) by (simp add: refresh_task_from_upstream_def apply_upstream_payload_task_def Let_def)
  then show ?thesis by (simp add: sync_one_def)
qed

text \<open>While the workers of the \<open>max_per_tick\<close> tasks polled first have nothing new to tell, a pass changes
  nothing, so the next one polls the same tasks: what the workers of all other tasks report is not
  asked for.\<close>

lemma sync_polls_same_batch:
  assumes "db_wf d"
    and "\<And>i t. t \<in> set (db_select (sync_clause now) (\<lambda>t. (t_next_poll_at t, t_updated_at t)) n (db_tasks d)) \<Longrightarrow> no_news (clock i) (poll i) t"
  shows "sync_dispatched_task_statuses now clock poll n d = (0, d)"
proof -
  have "sync_all clock poll i tks d = (0, d)"
    if "\<And>t. t \<in> set tks \<Longrightarrow> get_task (t_task_id t) d = Some t" "\<And>i t. t \<in> set tks \<Longrightarrow> no_news (clock i) (poll i) t" for i tks
    using that by (induction tks arbitrary: i) (simp_all add: sync_one_no_news [OF assms(1)])
  moreover have "get_task (t_task_id t) d = Some t"
    if "t \<in> set (db_select (sync_clause now) (\<lambda>t. (t_next_poll_at t, t_updated_at t)) n (db_tasks d))" for t
    by (rule get_task_mem [OF assms(1)]) (use db_select_set [OF that] in simp)
  ultimately show ?thesis using assms(2) unfolding sync_dispatched_task_statuses_def by simp
qed

subsection \<open>Collecting a finished task\<close>

text \<open>What a poll that reports completion makes of the row.\<close>

lemma updated_row_completed:
  assumes "t_status r = TASK_PROCESSING" and "p_status p = Some (Some ''completed'')"
  shows "t_status (updated_row now p r) = TASK_STORING_RESULT"
  using assms by (simp add: updated_row_def Let_def apply_upstream_payload_def normalize_upstream_status_def
      UPSTREAM_TO_INTERNAL_def UPSTREAM_ACCEPTED_NONTERMINAL_def)

definition ready_to_store :: "task \<Rightarrow> task \<Rightarrow> bool" where
  "ready_to_store r r' \<longleftrightarrow> t_status r' = TASK_STORING_RESULT \<and> t_next_poll_at r' = None \<and> t_result_key r' = t_result_key r
     \<and> t_upstream_task_id r' = t_upstream_task_id r \<and> t_upstream_base_url r' = t_upstream_base_url r"

definition reports_completed :: "(string \<Rightarrow> upstream_payload option) \<Rightarrow> task \<Rightarrow> bool" where
  "reports_completed poll r \<longleftrightarrow>
     (case poll (the (t_upstream_base_url r) @ ''/tasks/'' @ the (t_upstream_task_id r)) of
        None \<Rightarrow> False | Some p \<Rightarrow> p_status p = Some (Some ''completed''))"

lemma sync_one_completed:
  assumes "get_task (t_task_id r) d = Some r" and "t_status r = TASK_PROCESSING"
    and "truthy (t_upstream_task_id r)" and "truthy (t_upstream_base_url r)" and "reports_completed poll r"
  shows "\<exists>r'. get_task (t_task_id r) (snd (sync_one now poll r d)) = Some r' \<and> ready_to_store r r'"
proof -
  obtain p where p: "poll (the (t_upstream_base_url r) @ ''/tasks/'' @ the (t_upstream_task_id r)) = Some p"
    "p_status p = Some (Some ''completed'')"
    using assms(5) by (auto simp: reports_completed_def split: option.splits)
  let ?d1 = "upd_task now (t_task_id r) (updated_row now p) d"
  let ?d2 = "upd_task now (t_task_id r) (\<lambda>r. r\<lparr>t_next_poll_at := None\<rparr>) ?d1"
  have "snd (refresh_task_from_upstream now poll (t_task_id r) d) = ?d2"
    using assms(1-4) p(1) by (simp add: refresh_task_from_upstream_def apply_upstream_payload_task_def Let_def
        get_task_upd updated_row_fields TASK_STATUSES_TERMINAL_def)
  then have "get_task (t_task_id r) (snd (sync_one now poll r d)) = get_task (t_task_id r) ?d2"
    using sync_one_step [of now poll r d] by (auto simp: commit_fields_def)
  then show ?thesis using assms(1) updated_row_completed [OF assms(2) p(2), of now]
    by (simp add: get_task_upd updated_row_fields ready_to_store_def)
qed

lemma sync_all_Cons:
  "snd (sync_all clock poll i (tk # tks) d) = snd (sync_all clock poll (Suc i) tks (snd (sync_one (clock i) (poll i) tk d)))"
  by (simp split: prod.splits)

lemma sync_all_other:
  assumes "k \<notin> t_task_id ` set tks"
  shows "get_task k (snd (sync_all clock poll i tks d)) = get_task k d"
  using assms
proof (induction tks arbitrary: i d)
  case (Cons tk tks)
  have "k \<noteq> t_task_id tk" using Cons.prems by simp
  then show ?case using Cons unfolding sync_all_Cons by (simp add: sync_one_other)
qed simp

lemma sync_all_completed:
  assumes "distinct (map t_task_id tks)" and "r \<in> set tks" and "get_task (t_task_id r) d = Some r" and "t_status r = TASK_PROCESSING"
    and "truthy (t_upstream_task_id r)" and "truthy (t_upstream_base_url r)" and "\<And>i. reports_completed (poll i) r"
  shows "\<exists>r'. get_task (t_task_id r) (snd (sync_all clock poll i tks d)) = Some r' \<and> ready_to_store r r'"
  using assms(1-3)
proof (induction tks arbitrary: i d)
  case (Cons tk tks)
  let ?d1 = "snd (sync_one (clock i) (poll i) tk d)"
  show ?case
  proof (cases "r = tk")
    case True
    then have "t_task_id r \<notin> t_task_id ` set tks" using Cons.prems(1) by auto
    from sync_all_other [OF this, of clock poll "Suc i" ?d1] sync_one_completed [OF Cons.prems(3) assms(4-7), of "clock i" i]
    show ?thesis using True unfolding sync_all_Cons by simp
  next
    case False
    then have r: "r \<in> set tks" "t_task_id r \<noteq> t_task_id tk" using Cons.prems(1,2) by (auto simp: image_iff)
    have "get_task (t_task_id r) ?d1 = Some r" using sync_one_other [OF r(2)] Cons.prems(3) by simp
    from Cons.IH [OF _ r(1) this, of "Suc i"] Cons.prems(1) show ?thesis unfolding sync_all_Cons by simp
  qed
qed simp

text \<open>Storing the results of other tasks touches neither the row nor the result object of a task.\<close>

lemma fetch_frame:
  assumes "object_store store contents" and "pe_interfere env i = (\<lambda>d. d)" and "pe_generation env i \<noteq> []" and "k \<noteq> tid"
    and "fetch_and_store_result store env cached i tid uid base s d = (r, s', d')"
  shows "get_task k d' = get_task k d" "contents s' (result_key k ''zip'') = contents s (result_key k ''zip'')"
proof -
  let ?k = "result_key k ''zip''" and ?key = "result_key tid ''zip''"
  have ne: "?k \<noteq> ?key" "?k \<noteq> cache_object_key ck (Some (pe_generation env i))" for ck
    using assms(3,4) by (auto simp: key_shapes)
  show "get_task k d' = get_task k d"
    using assms(5)
  proof (cases rule: fetch_cases)
    case (stored content n s1 ck d1)
    have "get_task k d1 = get_task k d"
      using stored(4) assms(4) by (auto simp: complete_with_result_def get_task_upd split: option.splits)
    then show ?thesis using stored(5) populate_safe(2) get_task_same assms(2) by metis
  qed simp
  have put: "contents s1 ?k = contents s ?k \<and> (\<forall>key. q = Inr key \<longrightarrow> key = ?key)"
    if "store_result store tid content ''zip'' s = (q, s1)" for content q s1
  proof -
    obtain q' s0 where P: "os_put store ?key content ''application/zip'' None s = (q', s0)"
      by (cases "os_put store ?key content ''application/zip'' None s")
    then have "s1 = s0" "q = map_sum id (\<lambda>_. ?key) q'"
      using that by (simp_all add: store_result_def RESULT_FORMAT_ZIP_def)
    then show ?thesis using object_store.put_frame [OF assms(1) P ne(1)] by (cases q') auto
  qed
  have del: "contents (snd (safe_delete store (Some ?key) s1)) ?k = contents s1 ?k" for s1
    by (rule object_store.safe_delete_frame [OF assms(1) surjective_pairing]) (use ne(1) in simp)
  have pop: "contents s2 ?k = contents s1 ?k"
    if "populate_from_task store (pe_interfere env i) (pe_generation env i) tid ck fmt s1 d1 = (q, s2, d2)" for ck fmt s1 d1 q s2 d2
    by (rule populate_contents [OF assms(1) that [unfolded assms(2)] ne(2)])
  show "contents s' ?k = contents s ?k"
  proof (cases "pe_fetch env i (base @ ''/tasks/'' @ uid @ ''/result'')")
    case (Inl e)
    then show ?thesis using assms(5) by (simp add: fetch_and_store_result_def)
  next
    case (Inr content)
    obtain q s1 where st: "store_result store tid content ''zip'' s = (q, s1)" by (cases "store_result store tid content ''zip'' s")
    note D = assms(5) [unfolded fetch_and_store_result_def Inr sum.case RESULT_FORMAT_ZIP_def st prod.case]
    from put [OF st] have "q = Inr ?key \<or> (\<exists>e. q = Inl e)" by (cases q) auto
    then have "contents s' ?k = contents s1 ?k"
      using D del pop [of _ _ s1 _ _ s' d']
      by (auto split: sum.splits prod.splits if_splits)
    then show ?thesis using put [OF st] by simp
  qed
qed

lemma persist_one_frame:
  assumes "object_store store contents" and "\<And>j. pe_interfere env j = (\<lambda>d. d)" and "\<And>j. pe_generation env j \<noteq> []"
    and "k \<noteq> t_task_id tk" and "persist_one store env cached i tk s d = (n, m, s', d')"
  shows "get_task k d' = get_task k d \<and> contents s' (result_key k ''zip'') = contents s (result_key k ''zip'')"
proof -
  let ?F = "fetch_and_store_result store env cached i (t_task_id tk) (the (t_upstream_task_id tk)) (the (t_upstream_base_url tk)) s d"
  obtain r s1 d1 where F: "?F = (r, s1, d1)" by (cases ?F)
  note fr = fetch_frame [OF assms(1-4) F]
  show ?thesis using assms(4,5) fr
    by (auto simp: persist_one_def F defer_task_poll_def get_task_upd split: if_splits sum.splits)
qed

text \<open>The task's own result: stored before the row points to it.\<close>

definition result_stored :: "('s \<Rightarrow> string \<Rightarrow> bytes option) \<Rightarrow> string \<Rightarrow> bytes \<Rightarrow> 's \<Rightarrow> db \<Rightarrow> bool" where
  "result_stored contents tid content s d \<longleftrightarrow> contents s (result_key tid ''zip'') = Some content
     \<and> (case get_task tid d of None \<Rightarrow> False
        | Some r \<Rightarrow> t_status r = TASK_COMPLETED \<and> t_result_key r = Some (result_key tid ''zip'') \<and> t_result_format r = Some ''zip'')"

lemma persist_one_stores:
  assumes "object_store store contents" and "pe_interfere env i = (\<lambda>d. d)" and "pe_generation env i \<noteq> []"
    and "truthy (t_upstream_task_id tk)" and "truthy (t_upstream_base_url tk)" and "get_task (t_task_id tk) d = Some row"
    and "pe_fetch env i (the (t_upstream_base_url tk) @ ''/tasks/'' @ the (t_upstream_task_id tk) @ ''/result'') = Inr content"
    and "\<And>s. \<exists>n s'. os_put store (result_key (t_task_id tk) ''zip'') content ''application/zip'' None s = (Inr n, s')"
    and "persist_one store env cached i tk s d = (n, m, s', d')"
  shows "result_stored contents (t_task_id tk) content s' d'"
proof -
  let ?F = "fetch_and_store_result store env cached i (t_task_id tk) (the (t_upstream_task_id tk)) (the (t_upstream_base_url tk)) s d"
  let ?key = "result_key (t_task_id tk) ''zip''"
  obtain r s1 d1 where F: "?F = (r, s1, d1)" by (cases ?F)
  obtain n0 s0 where put: "os_put store ?key content ''application/zip'' None s = (Inr n0, s0)" using assms(8) by blast
  have "r \<noteq> Inl e" for e
    using F assms(6,7) by (auto simp: fetch_and_store_result_def store_result_def put RESULT_FORMAT_ZIP_def
        complete_with_result_def split: if_splits prod.splits)
  then obtain q where q: "r = Inr q" by (cases r) auto
  then have out: "s' = s1" "d' = d1" using assms(4,5,9) F by (auto simp: persist_one_def)
  from F show ?thesis
  proof (cases rule: fetch_cases)
    case (stored content' n1 sa ck da)
    have c: "content' = content" "sa = s0" using stored(2,3) assms(7) put by auto
    have sa: "contents sa ?key = Some content" using object_store.put_ok [OF assms(1) stored(3)] c by simp
    have ne: "?key \<noteq> cache_object_key (the ck) (Some (pe_generation env i))" using assms(3) by (simp add: key_shapes)
    consider "s1 = sa" "d1 = da" | b where "populate_from_task store (\<lambda>d. d) (pe_generation env i) (t_task_id tk) (the ck) ''zip'' sa da = (b, s1, d1)"
      using stored(5) unfolding assms(2) by blast
    then have keep: "contents s1 ?key = contents sa ?key \<and> get_task (t_task_id tk) d1 = get_task (t_task_id tk) da"
    proof cases
      case 2
      show ?thesis using populate_contents [OF assms(1) 2 ne] get_task_same [OF populate_safe(2) [OF 2]] by simp
    qed simp
    show ?thesis using stored(4) assms(6) sa keep
      by (auto simp: result_stored_def out complete_with_result_def get_task_upd)
  qed (use q in simp)
qed

lemma persist_all_frame:
  assumes "object_store store contents" and "\<And>j. pe_interfere env j = (\<lambda>d. d)" and "\<And>j. pe_generation env j \<noteq> []"
    and "k \<notin> t_task_id ` set tks" and "persist_pending_results store env cached i tks s d = (n, m, s', d')"
  shows "get_task k d' = get_task k d \<and> contents s' (result_key k ''zip'') = contents s (result_key k ''zip'')"
  using assms(4,5)
proof (induction tks arbitrary: i s d n m)
  case (Cons tk tks)
  obtain n1 m1 s1 d1 where one: "persist_one store env cached i tk s d = (n1, m1, s1, d1)" by (cases "persist_one store env cached i tk s d")
  then obtain n2 m2 where "persist_pending_results store env cached (Suc i) tks s1 d1 = (n2, m2, s', d')"
    using Cons.prems(2) by (auto split: prod.splits)
  then show ?case using Cons.IH Cons.prems(1) persist_one_frame [OF assms(1-3) _ one, of k] by simp
qed simp

lemma persist_all_stores:
  assumes "object_store store contents" and "\<And>j. pe_interfere env j = (\<lambda>d. d)" and "\<And>j. pe_generation env j \<noteq> []"
    and "truthy (t_upstream_task_id tk)" and "truthy (t_upstream_base_url tk)"
    and "\<And>i. pe_fetch env i (the (t_upstream_base_url tk) @ ''/tasks/'' @ the (t_upstream_task_id tk) @ ''/result'') = Inr content"
    and "\<And>s. \<exists>n s'. os_put store (result_key (t_task_id tk) ''zip'') content ''application/zip'' None s = (Inr n, s')"
    and "distinct (map t_task_id tks)" and "tk \<in> set tks" and "get_task (t_task_id tk) d = Some row"
    and "persist_pending_results store env cached i tks s d = (n, m, s', d')"
  shows "result_stored contents (t_task_id tk) content s' d'"
  using assms(8-11)
proof (induction tks arbitrary: i s d n m)
  case (Cons x tks)
  obtain n1 m1 s1 d1 where one: "persist_one store env cached i x s d = (n1, m1, s1, d1)" by (cases "persist_one store env cached i x s d")
  then obtain n2 m2 where rest: "persist_pending_results store env cached (Suc i) tks s1 d1 = (n2, m2, s', d')"
    using Cons.prems(4) by (auto split: prod.splits)
  show ?case
  proof (cases "x = tk")
    case True
    then have "t_task_id tk \<notin> t_task_id ` set tks" using Cons.prems(1) by auto
    from persist_all_frame [OF assms(1-3) this rest]
      persist_one_stores [OF assms(1) assms(2) assms(3) assms(4,5) Cons.prems(3) assms(6,7) one [unfolded True]]
    show ?thesis by (simp add: result_stored_def)
  next
    case False
    then have tk: "tk \<in> set tks" "t_task_id tk \<noteq> t_task_id x" using Cons.prems(1,2) by (auto simp: image_iff)
    from persist_one_frame [OF assms(1-3) tk(2) one] Cons.prems(3) have "get_task (t_task_id tk) d1 = Some row" by simp
    from Cons.IH [OF _ tk(1) this rest] Cons.prems(1) show ?thesis by simp
  qed
qed simp

lemma unfinished_evolves:
  assumes "list_all2 task_evolves (db_tasks d) (db_tasks d')"
  shows "unfinished d' \<le> unfinished d"
proof (rule list_all2_count [OF assms])
  have "b \<in> TASK_STATUSES_TERMINAL" if "lifecycle\<^sup>*\<^sup>* a b" "a \<in> TASK_STATUSES_TERMINAL" for a b
    using that by (induction rule: rtranclp_induct) (auto simp: TASK_STATUSES_TERMINAL_def elim: lifecycle.cases)
  then show "t_status x \<notin> TASK_STATUSES_TERMINAL" if "task_evolves x y" "t_status y \<notin> TASK_STATUSES_TERMINAL" for x y
    using that by (auto simp: task_evolves_def)
qed

text \<open>With at most one batch of unfinished tasks every one of them is polled, and every stored result
  is fetched.\<close>

lemma sync_completed:
  assumes "db_wf d" and "unfinished d \<le> n" and "get_task tid d = Some r" and "t_status r = TASK_PROCESSING"
    and "pollable_clause now r" and "truthy (t_upstream_task_id r)" and "truthy (t_upstream_base_url r)"
    and "\<And>i. reports_completed (poll i) r"
  shows "\<exists>r'. get_task tid (snd (sync_dispatched_task_statuses now clock poll n d)) = Some r' \<and> ready_to_store r r'"
proof -
  let ?sel = "db_select (sync_clause now) (\<lambda>t. (t_next_poll_at t, t_updated_at t)) n (db_tasks d)"
  have r: "r \<in> set (db_tasks d)" "t_task_id r = tid" using get_task_Some [OF assms(3)] by auto
  have "db_count (sync_clause now) (db_tasks d) \<le> n"
    by (rule order_trans [OF db_count_mono assms(2)]) (auto simp: sync_clause_def TASK_STATUSES_TERMINAL_def)
  moreover have "sync_clause now r" using assms(4-7) by (auto simp: sync_clause_def truthy_Some)
  ultimately have mem: "r \<in> set ?sel" using r(1) by (simp add: db_select_all)
  have dist: "distinct (map t_task_id ?sel)" using assms(1) by (intro db_select_distinct) (simp add: db_wf_def)
  show ?thesis
    using sync_all_completed [OF dist mem _ assms(4,6,7,8)] assms(3) r(2) unfolding sync_dispatched_task_statuses_def by auto
qed

lemma unstored_batch:
  assumes "tasks_ok d" and "unfinished d \<le> n" and "get_task tid d = Some r'" and "ready_to_store r r'"
    and "truthy (t_upstream_task_id r)" and "truthy (t_upstream_base_url r)"
  shows "r' \<in> set (list_unstored_completed now n d)" "distinct (map t_task_id (list_unstored_completed now n d))"
proof -
  have mem: "r' \<in> set (db_tasks d)" using get_task_Some [OF assms(3)] by auto
  have "db_count (unstored_clause now) (db_tasks d) \<le> n"
    by (rule order_trans [OF db_count_mono assms(2)]) (auto simp: unstored_clause_def TASK_STATUSES_TERMINAL_def)
  moreover have "unstored_clause now r'"
    using assms(1,4-6) mem unfolding ready_to_store_def
    by (auto simp: unstored_clause_def pollable_clause_def tasks_ok_def list_all_iff task_ok_def truthy_Some)
  ultimately show "r' \<in> set (list_unstored_completed now n d)"
    using mem unfolding list_unstored_completed_def by (simp add: db_select_all)
  show "distinct (map t_task_id (list_unstored_completed now n d))"
    using assms(1) unfolding list_unstored_completed_def
    by (intro db_select_distinct) (simp add: tasks_ok_def db_wf_def)
qed

text \<open>A running task whose worker is done.\<close>

definition collecting_inputs :: "(unit, buckets, unit, unit) tick_inputs" where
  "collecting_inputs = example_inputs\<lparr>ti_persist := example_persist,
     ti_poll := \<lambda>_ _. Some \<lparr>p_status = Some (Some ''completed''), p_backend = None, p_file_names = None, p_error = None\<rparr>\<rparr>"

definition running_task :: task where
  "running_task = (new_task ''t1'' 0)\<lparr>t_status := TASK_PROCESSING, t_worker_id := Some ''cloud-1'', t_dispatch_started_at := Some 1,
     t_upstream_task_id := Some ''u1'', t_upstream_base_url := Some ''http://w''\<rparr>"

section \<open>Properties\<close>

text \<open>C15: The dispatch tick is work-conserving. When the scheduler holds its lock, payloads can be rebuilt
  and workers accept what they are sent, a tick ends without an exception and afterwards the queue is
  empty, or every worker is full, or the tick has taken its 32 tasks off those that waited or were
  claimed before.\<close>

theorem fast_tick_work_conserving:
  assumes "verify_lock (ti_lock ti) (sc_lock (pr_sched p)) (pr_conn p) = (Inr True, l, c)"
    and "accepting (ti_dispatch ti)" and "tasks_ok (pr_db p)" and "addressed (pr_db p)"
    and "\<And>j. pe_interfere (ti_persist ti) j = (\<lambda>d. d)" and "fast_tick cfg ti p = (r, p')"
  shows "r = Inr () \<and> (queue_length (pr_db p') = 0 \<or> saturated cfg (pr_db p')
    \<or> queue_length (pr_db p') + 32 \<le> db_count (\<lambda>t. t_status t \<in> {TASK_QUEUED, TASK_DISPATCHING}) (db_tasks (pr_db p)))"
proof -
  let ?p = "p\<lparr>pr_sched := (pr_sched p)\<lparr>sc_lock := l\<rparr>, pr_conn := c\<rparr>"
  have ok0: "tasks_ok (pr_db ?p)" using assms(3) by simp
  have "fast_body cfg ti ?p = (r, p')" using assms(1,6) by (simp add: fast_tick_def with_lock_def Let_def)
  then obtain s d q ds s' where d: "safe_step cfg (pr_db ?p) d"
    and disp: "dispatch_queued_tasks cfg (ti_dispatch ti) 32 (sc_deferred_since (pr_sched ?p)) s d = (q, ds, s', pr_db p')"
    and res: "r = map_sum id (\<lambda>_. ()) q"
    by (rule fast_body_dispatch [OF ok0 assms(5)])
  have ok: "tasks_ok d" "list_all2 task_evolves (db_tasks (pr_db p)) (db_tasks d)" "addressed d"
    using d addressed_safe [OF d] assms(3,4) by (simp_all add: safe_step_def)
  from dispatch_loop_conserving [OF assms(2) ok(1,3), of cfg 32 0 0 "sc_deferred_since (pr_sched ?p)" s]
  obtain m where "q = Inr m" "queue_length (pr_db p') + m = queue_length d" "m \<le> 32"
    "m < 32 \<longrightarrow> queue_length (pr_db p') = 0 \<or> saturated cfg (pr_db p')"
    using disp unfolding dispatch_queued_tasks_def by auto
  then show ?thesis using queue_evolves [OF ok(2)] res by (cases "m < 32") auto
qed

theorem fast_tick_work_conserving_witness:
  "fst (fast_tick default_settings example_inputs example_process) = Inr ()
   \<and> (queue_length (pr_db (snd (fast_tick default_settings example_inputs example_process))) = 0
      \<or> saturated default_settings (pr_db (snd (fast_tick default_settings example_inputs example_process))))"
proof -
  have "verify_lock (ti_lock example_inputs) (sc_lock (pr_sched example_process)) (pr_conn example_process)
      = (Inr True, PgLock \<lparr>pl_conn = True, pl_held = True\<rparr>, ())"
    by code_simp
  moreover have "accepting (ti_dispatch example_inputs)" by (simp add: accepting_def example_inputs_def)
  moreover have "tasks_ok (pr_db example_process)" "addressed (pr_db example_process)"
    "db_count (\<lambda>t. t_status t \<in> {TASK_QUEUED, TASK_DISPATCHING}) (db_tasks (pr_db example_process)) = 1"
    by code_simp+
  moreover have "pe_interfere (ti_persist example_inputs) j = (\<lambda>d. d)" for j by (simp add: example_inputs_def)
  ultimately show ?thesis
    using fast_tick_work_conserving [of example_inputs example_process _ _ default_settings, OF _ _ _ _ _ surjective_pairing]
    by fastforce
qed

text \<open>C16: A finished task is collected within one tick. When the worker of a running task reports
  completion and hands out the result, and not more than one batch of tasks is unfinished, the
  synchronisation of one tick leaves the task completed, pointing to an object that holds exactly the
  bytes the worker returned, whatever happens to the other tasks of the batch.\<close>

theorem finished_task_collected:
  assumes "object_store (ti_store ti) contents" and "\<And>j. pe_interfere (ti_persist ti) j = (\<lambda>d. d)"
    and "\<And>j. pe_generation (ti_persist ti) j \<noteq> []" and "tasks_ok d"
    and "unfinished d \<le> HEALTH_BATCH"
    and "get_task tid d = Some r" and "t_status r = TASK_PROCESSING" and "pollable_clause (ti_clock ti 1) r"
    and "truthy (t_upstream_task_id r)" and "truthy (t_upstream_base_url r)"
    and "\<And>i. reports_completed (ti_poll ti i) r"
    and "\<And>i. pe_fetch (ti_persist ti) i (the (t_upstream_base_url r) @ ''/tasks/'' @ the (t_upstream_task_id r) @ ''/result'') = Inr content"
    and "\<And>s. \<exists>n s'. os_put (ti_store ti) (result_key tid ''zip'') content ''application/zip'' None s = (Inr n, s')"
    and "synchronize_tasks_and_results ti s d = (s', d')"
  shows "result_stored contents tid content s' d'"
proof -
  define d1 where "d1 = snd (sync_dispatched_task_statuses (ti_clock ti 1) (ti_poll_clock ti) (ti_poll ti) HEALTH_BATCH d)"
  have wf: "db_wf d" using assms(4) by (simp add: tasks_ok_def)
  obtain r' where r': "get_task tid d1 = Some r'" "ready_to_store r r'"
    using sync_completed [where poll = "ti_poll ti" and clock = "ti_poll_clock ti", OF wf assms(5-11)] unfolding d1_def by blast
  have S: "tasks_ok d1" "list_all2 task_evolves (db_tasks d) (db_tasks d1)"
    using sync_safe [OF assms(4)] assms(4) unfolding d1_def by (auto simp: safe_step_def)
  note B = unstored_batch [OF S(1) order_trans [OF unfinished_evolves [OF S(2)] assms(5)] r' assms(9,10), of "ti_clock ti 2"]
  have tid: "t_task_id r' = tid" using get_task_Some [OF r'(1)] by simp
  obtain n m where "persist_pending_results (ti_store ti) (ti_persist ti) True 0
      (list_unstored_completed (ti_clock ti 2) HEALTH_BATCH d1) s d1 = (n, m, s', d')"
    using assms(14) unfolding synchronize_tasks_and_results_def Let_def d1_def by (auto split: prod.splits)
  from persist_all_stores [OF assms(1-3) _ _ _ _ B(2,1) _ this, of content r']
  show ?thesis using assms(9,10,12,13) r' by (simp add: ready_to_store_def tid)
qed

theorem finished_task_collected_witness:
  "case synchronize_tasks_and_results collecting_inputs Map.empty (empty_db\<lparr>db_tasks := [running_task]\<rparr>) of
     (s, d) \<Rightarrow> s (''b'', ''results/t1.zip'') = Some [7] \<and> task_ok (the (get_task ''t1'' d))
       \<and> result_stored (\<lambda>s k. s (''b'', k)) ''t1'' [7] s d"
proof -
  let ?d = "empty_db\<lparr>db_tasks := [running_task]\<rparr>"
  obtain s d where run: "synchronize_tasks_and_results collecting_inputs Map.empty ?d = (s, d)"
    by (cases "synchronize_tasks_and_results collecting_inputs Map.empty ?d")
  have "object_store (ti_store collecting_inputs) (\<lambda>s k. s (''b'', k))"
    unfolding collecting_inputs_def example_inputs_def by (simp add: memory.object_store_axioms)
  note C = finished_task_collected [OF this, where d = ?d and tid = "''t1''" and r = running_task and content = "[7]"
      and s = Map.empty and s' = s and d' = d]
  have "result_stored (\<lambda>s k. s (''b'', k)) ''t1'' [7] s d"
  proof (rule C)
    show "tasks_ok ?d" "unfinished ?d \<le> HEALTH_BATCH" "get_task ''t1'' ?d = Some running_task" "t_status running_task = TASK_PROCESSING"
      "pollable_clause (ti_clock collecting_inputs 1) running_task" "truthy (t_upstream_task_id running_task)"
      "truthy (t_upstream_base_url running_task)" by code_simp+
    show "synchronize_tasks_and_results collecting_inputs Map.empty ?d = (s, d)" by (rule run)
  qed (simp_all add: collecting_inputs_def example_inputs_def example_persist_def reports_completed_def S3ObjectStore_def
      s3_put_def memory_client_def)
  moreover have "task_ok (the (get_task ''t1'' (snd (synchronize_tasks_and_results collecting_inputs Map.empty ?d))))" by code_simp
  ultimately show ?thesis using run by (simp add: result_stored_def key_shapes)
qed

end
