(* ===== verification/Staging.thy ===== *)
theory Staging
  imports Payload "HOL-Library.Sublist"
begin

text \<open>
  The temporary files behind a multipart payload: \<open>internal_upload_path\<close> and \<open>rewrite_staged_uploads\<close> of
  \<^verbatim>\<open>util/upload_paths.py\<close> on an explicit file system, a map from paths to contents. A path is the list of
  its components. What \<open>Path.resolve\<close> makes of a path (it follows symbolic links) and the random file
  names are arguments. The theory \<open>Payload\<close> keeps the content of an upload in place of its path;
  the refinement at the end justifies that.
\<close>

section \<open>Definitions\<close>

type_synonym path = "string list"
type_synonym files = "path \<rightharpoonup> bytes"

record staged_file =
  sf_field_name :: string
  sf_upload_name :: string
  sf_content_type :: string
  sf_path :: path

definition internal_upload_path :: "(path \<Rightarrow> path) \<Rightarrow> path \<Rightarrow> string \<Rightarrow> string \<Rightarrow> exc + path \<times> string" where
  "internal_upload_path resolve temp_dir internal_name client_name =
    chain (sanitize_client_filename client_name) (\<lambda>safe_name.
      (let dest = temp_dir @ [internal_name]; resolved = resolve dest; base = resolve temp_dir in
       if \<not> prefix base resolved
       then Inl (OtherException None ''resolved upload path escapes temp directory'')
       else Inr (resolved, safe_name)))"

text \<open>\<open>shutil.move\<close> of a file.\<close>

definition move :: "path \<Rightarrow> path \<Rightarrow> files \<Rightarrow> exc + files" where
  "move src dst fs =
    (case fs src of
       None \<Rightarrow> Inl (OtherException None ''FileNotFoundError'')
     | Some data \<Rightarrow> Inr ((fs(src := None))(dst \<mapsto> data)))"

text \<open>The loop over the uploads; \<open>fresh i\<close> is the random name drawn for the \<open>i\<close>-th one. The payload gets the
  rewritten list only when the loop ends, the files moved before an exception stay moved.\<close>

fun rewrite_loop ::
    "(path \<Rightarrow> path) \<Rightarrow> path \<Rightarrow> (nat \<Rightarrow> string) \<Rightarrow> nat \<Rightarrow> staged_file list \<Rightarrow> files \<Rightarrow> (exc + staged_file list) \<times> files" where
  "rewrite_loop resolve temp_dir fresh i [] fs = (Inr [], fs)"
| "rewrite_loop resolve temp_dir fresh i (u # us) fs =
    (case internal_upload_path resolve temp_dir (fresh i) (sf_upload_name u) of
       Inl e \<Rightarrow> (Inl e, fs)
     | Inr (p, safe_name) \<Rightarrow>
         (case move (sf_path u) p fs of
            Inl e \<Rightarrow> (Inl e, fs)
          | Inr fs1 \<Rightarrow>
              (case rewrite_loop resolve temp_dir fresh (Suc i) us fs1 of
                 (Inl e, fs2) \<Rightarrow> (Inl e, fs2)
               | (Inr us', fs2) \<Rightarrow> (Inr (u\<lparr>sf_upload_name := safe_name, sf_path := p\<rparr> # us'), fs2))))"

definition rewrite_staged_files ::
    "(path \<Rightarrow> path) \<Rightarrow> path \<Rightarrow> (nat \<Rightarrow> string) \<Rightarrow> staged_file list \<Rightarrow> files \<Rightarrow> (exc + staged_file list) \<times> files" where
  "rewrite_staged_files resolve temp_dir fresh us fs = rewrite_loop resolve temp_dir fresh 0 us fs"

text \<open>The upload a staged file stands for.\<close>

definition upload_of :: "files \<Rightarrow> staged_file \<Rightarrow> staged_upload" where
  "upload_of fs u = \<lparr>su_field_name = sf_field_name u, su_upload_name = sf_upload_name u,
     su_content_type = sf_content_type u, su_data = the (fs (sf_path u))\<rparr>"

section \<open>Lemmas\<close>

lemma internal_upload_path_Inr:
  assumes "internal_upload_path resolve temp_dir name client = Inr (p, safe)"
  shows "sanitize_client_filename client = Inr safe" and "p = resolve (temp_dir @ [name])" and "prefix (resolve temp_dir) p"
  using assms by (auto simp: internal_upload_path_def Let_def split: if_splits)

text \<open>Paths that are neither the source of an upload still to come nor one of its destinations keep their content.\<close>

lemma rewrite_loop_frame:
  assumes "rewrite_loop resolve temp_dir fresh i us fs = (r, fs')"
    and "q \<notin> sf_path ` set us" and "\<And>j. i \<le> j \<Longrightarrow> j < i + length us \<Longrightarrow> q \<noteq> resolve (temp_dir @ [fresh j])"
  shows "fs' q = fs q"
  using assms
proof (induction us arbitrary: i fs r)
  case (Cons u us)
  show ?case
  proof (cases "\<exists>p safe fs1. internal_upload_path resolve temp_dir (fresh i) (sf_upload_name u) = Inr (p, safe)
      \<and> move (sf_path u) p fs = Inr fs1")
    case True
    then obtain p safe fs1 where p: "internal_upload_path resolve temp_dir (fresh i) (sf_upload_name u) = Inr (p, safe)"
      and fs1: "move (sf_path u) p fs = Inr fs1" by blast
    obtain r1 where "rewrite_loop resolve temp_dir fresh (Suc i) us fs1 = (r1, fs')"
      using Cons.prems(1) p fs1 by (auto split: prod.splits sum.splits)
    then have "fs' q = fs1 q"
    proof (rule Cons.IH)
      show "q \<notin> sf_path ` set us" using Cons.prems(2) by simp
      show "q \<noteq> resolve (temp_dir @ [fresh j])" if "Suc i \<le> j" "j < Suc i + length us" for j
        using Cons.prems(3) [of j] that by simp
    qed
    moreover have "q \<noteq> p" using Cons.prems(3) [of i] internal_upload_path_Inr(2) [OF p] by simp
    ultimately show ?thesis using fs1 Cons.prems(2) by (auto simp: move_def split: option.splits)
  next
    case False
    with Cons.prems(1) show ?thesis by (auto split: sum.splits prod.splits)
  qed
qed auto

text \<open>What the loop has done when it ends, one list element at a time.\<close>

lemma rewrite_loop_result:
  assumes "rewrite_loop resolve temp_dir fresh i us fs = (Inr us', fs')"
    and "distinct (map sf_path us)"
    and "inj_on (\<lambda>j. resolve (temp_dir @ [fresh j])) {i..<i + length us}"
    and "\<And>j. i \<le> j \<Longrightarrow> j < i + length us \<Longrightarrow> resolve (temp_dir @ [fresh j]) \<notin> sf_path ` set us"
  shows "list_all2 (\<lambda>u u'. sanitize_client_filename (sf_upload_name u) = Inr (sf_upload_name u')
      \<and> sf_field_name u' = sf_field_name u \<and> sf_content_type u' = sf_content_type u
      \<and> fs (sf_path u) \<noteq> None \<and> fs' (sf_path u') = fs (sf_path u) \<and> prefix (resolve temp_dir) (sf_path u')) us us'
    \<and> map sf_path us' = map (\<lambda>j. resolve (temp_dir @ [fresh j])) [i..<i + length us]"
  using assms
proof (induction us arbitrary: i fs us')
  case (Cons u us)
  define dst where "dst = (\<lambda>j. resolve (temp_dir @ [fresh j]))"
  obtain p safe fs1 us1 where p: "internal_upload_path resolve temp_dir (fresh i) (sf_upload_name u) = Inr (p, safe)"
    and fs1: "move (sf_path u) p fs = Inr fs1"
    and rest: "rewrite_loop resolve temp_dir fresh (Suc i) us fs1 = (Inr us1, fs')"
    and us': "us' = u\<lparr>sf_upload_name := safe, sf_path := p\<rparr> # us1"
    using Cons.prems(1) by (auto split: prod.splits sum.splits)
  note p' = internal_upload_path_Inr [OF p]
  have dist: "distinct (map sf_path us)" "sf_path u \<notin> sf_path ` set us" using Cons.prems(2) by auto
  have inj_all: "inj_on dst {i..<i + length (u # us)}" using Cons.prems(3) unfolding dst_def .
  have inj1: "inj_on dst {Suc i..<Suc i + length us}" by (rule inj_on_subset [OF inj_all]) auto
  have inj2: "p \<noteq> dst j" if "Suc i \<le> j" "j < Suc i + length us" for j
    using inj_onD [OF inj_all, of i j] that p'(2) unfolding dst_def by auto
  note inj = inj1 inj2
  have away: "\<And>j. Suc i \<le> j \<Longrightarrow> j < Suc i + length us \<Longrightarrow> dst j \<notin> sf_path ` set us" "p \<notin> sf_path ` set us"
    using Cons.prems(4) p'(2) unfolding dst_def by auto
  have other: "fs1 (sf_path v) = fs (sf_path v)" if "v \<in> set us" for v
  proof -
    have "sf_path v \<noteq> sf_path u" "sf_path v \<noteq> p" using dist(2) away(2) that by (metis image_eqI)+
    then show ?thesis using fs1 by (auto simp: move_def split: option.splits)
  qed
  have here: "fs (sf_path u) \<noteq> None" "fs1 p = fs (sf_path u)"
    using fs1 by (auto simp: move_def split: option.splits)
  have "fs' p = fs1 p"
    using rewrite_loop_frame [OF rest away(2)] inj(2) unfolding dst_def by blast
  moreover have ih: "list_all2 (\<lambda>u u'. sanitize_client_filename (sf_upload_name u) = Inr (sf_upload_name u')
      \<and> sf_field_name u' = sf_field_name u \<and> sf_content_type u' = sf_content_type u
      \<and> fs1 (sf_path u) \<noteq> None \<and> fs' (sf_path u') = fs1 (sf_path u) \<and> prefix (resolve temp_dir) (sf_path u')) us us1
    \<and> map sf_path us1 = map dst [Suc i..<Suc i + length us]"
    using Cons.IH [OF rest dist(1)] inj(1) away(1) unfolding dst_def by blast
  moreover have "list_all2 (\<lambda>u u'. sanitize_client_filename (sf_upload_name u) = Inr (sf_upload_name u')
      \<and> sf_field_name u' = sf_field_name u \<and> sf_content_type u' = sf_content_type u
      \<and> fs (sf_path u) \<noteq> None \<and> fs' (sf_path u') = fs (sf_path u) \<and> prefix (resolve temp_dir) (sf_path u')) us us1"
    by (rule list.rel_mono_strong [OF conjunct1 [OF ih]]) (simp add: other)
  moreover have "[i..<i + length (u # us)] = i # [Suc i..<Suc i + length us]"
    by (simp add: upt_conv_Cons del: upt_Suc)
  ultimately show ?case
    using here p' us' by (simp add: dst_def del: upt_Suc)
qed simp

lemma sequence_Inr_iff: "sequence xs = Inr ys \<longleftrightarrow> xs = map Inr ys"
proof (induction xs arbitrary: ys rule: sequence.induct)
  case (3 x xs)
  have "sequence (Inr x # xs) = Inr ys \<longleftrightarrow> (\<exists>zs. sequence xs = Inr zs \<and> ys = x # zs)"
    by (cases "sequence xs") auto
  with 3 show ?case by (cases ys) auto
qed auto

section \<open>Properties\<close>

text \<open>C21: Moving the uploads to internal names changes where they are and nothing else. When the loop
  over the uploads ends, every file lies below the payload's temporary directory under its own name,
  whatever the client called it, and the payload read from the moved files is what checking the names
  on the contents alone gives: same fields, same order, same content. The random names have to differ
  from each other and from the staged files, and the staged files from each other.\<close>

theorem staged_files_refine_payload:
  assumes run: "rewrite_staged_files resolve temp_dir fresh us fs = (Inr us', fs')"
    and "distinct (map sf_path us)"
    and "inj_on (\<lambda>j. resolve (temp_dir @ [fresh j])) {..<length us}"
    and "\<And>j. j < length us \<Longrightarrow> resolve (temp_dir @ [fresh j]) \<notin> sf_path ` set us"
  shows "rewrite_staged_uploads \<lparr>mp_fields = flds, mp_uploads = map (upload_of fs) us\<rparr>
      = Inr \<lparr>mp_fields = flds, mp_uploads = map (upload_of fs') us'\<rparr>
    \<and> (\<forall>p \<in> set (map sf_path us'). prefix (resolve temp_dir) p) \<and> distinct (map sf_path us')"
proof -
  have inj0: "inj_on (\<lambda>j. resolve (temp_dir @ [fresh j])) {0..<0 + length us}"
    using assms(3) by (simp add: atLeast0LessThan)
  have all: "list_all2 (\<lambda>u u'. sanitize_client_filename (sf_upload_name u) = Inr (sf_upload_name u')
      \<and> sf_field_name u' = sf_field_name u \<and> sf_content_type u' = sf_content_type u
      \<and> fs (sf_path u) \<noteq> None \<and> fs' (sf_path u') = fs (sf_path u) \<and> prefix (resolve temp_dir) (sf_path u')) us us'"
    and paths: "map sf_path us' = map (\<lambda>j. resolve (temp_dir @ [fresh j])) [0..<length us]"
    using rewrite_loop_result [OF run [unfolded rewrite_staged_files_def] assms(2) inj0] assms(4) by auto
  have "sequence (map (\<lambda>u. map_sum id (\<lambda>n. u\<lparr>su_upload_name := n\<rparr>) (sanitize_client_filename (su_upload_name u)))
      (map (upload_of fs) us)) = Inr (map (upload_of fs') us')"
    using all
    by (auto simp: sequence_Inr_iff list_all2_conv_all_nth upload_of_def intro!: nth_equalityI)
  moreover have "distinct (map sf_path us')"
    using assms(3) by (simp add: paths distinct_map atLeast0LessThan)
  moreover have "\<forall>p \<in> set (map sf_path us'). prefix (resolve temp_dir) p"
    using all by (auto simp: list_all2_conv_all_nth in_set_conv_nth)
  ultimately show ?thesis by (simp add: rewrite_staged_uploads_def)
qed

theorem staged_files_refine_payload_witness:
  "\<exists>us' fs'. rewrite_staged_files id [''tmp''] (\<lambda>_. ''0a1b'')
       [\<lparr>sf_field_name = ''files'', sf_upload_name = ''a.pdf'', sf_content_type = ''application/pdf'', sf_path = [''tmp'', ''a'']\<rparr>]
       [[''tmp'', ''a''] \<mapsto> [1, 2, 3]] = (Inr us', fs')
     \<and> map (upload_of fs') us' = mp_uploads example_payload"
proof -
  let ?u = "\<lparr>sf_field_name = ''files'', sf_upload_name = ''a.pdf'', sf_content_type = ''application/pdf'', sf_path = [''tmp'', ''a'']\<rparr>"
  let ?fs = "[[''tmp'', ''a''] \<mapsto> [1, 2, 3]] :: files"
  have name: "sanitize_client_filename ''a.pdf'' = Inr ''a.pdf''"
    by (simp add: sanitize_client_filename_def py_strip_def py_isspace_def Let_def)
  obtain us' fs' where run: "rewrite_staged_files id [''tmp''] (\<lambda>_. ''0a1b'') [?u] ?fs = (Inr us', fs')"
    by (simp add: rewrite_staged_files_def internal_upload_path_def name chain_def move_def Let_def)
  have "rewrite_staged_uploads \<lparr>mp_fields = mp_fields example_payload, mp_uploads = map (upload_of ?fs) [?u]\<rparr>
      = Inr \<lparr>mp_fields = mp_fields example_payload, mp_uploads = map (upload_of fs') us'\<rparr>"
    using staged_files_refine_payload [OF run, of "mp_fields example_payload"] by (simp add: lessThan_Suc)
  moreover have "\<lparr>mp_fields = mp_fields example_payload, mp_uploads = map (upload_of ?fs) [?u]\<rparr> = example_payload"
    by (simp add: example_payload_def upload_of_def)
  ultimately have "example_payload = \<lparr>mp_fields = mp_fields example_payload, mp_uploads = map (upload_of fs') us'\<rparr>"
    using example_payload_accepted by simp
  then have "mp_uploads example_payload = map (upload_of fs') us'" by (metis multipart_payload.select_convs(2))
  with run show ?thesis by auto
qed

end
