(* ===== verification/Ingest.thy ===== *)
theory Ingest
  imports Results Staging
begin

text \<open>
  \<^verbatim>\<open>gateway/ingest.py\<close>: from a request to a queued task or a cache hit. A request form is the list of
  its items in order. MinerU's \<open>get_field_value\<close> and its policy for public HTTP clients are
  not part of the repository: they are the arguments \<open>ie_field\<close> and \<open>ie_policy\<close>, as are SHA-256,
  the clock, the random identifiers, and what a download yields. Staging writes the uploads into a
  temporary directory on the file system of \<open>Staging\<close>; from then on an upload carries the contents
  that its file has when staging ends (the theorems of \<open>Staging\<close> justify that for the renaming that
  follows). MinerU's \<open>normalize_upload_filename\<close> is the field \<open>sg_normalize\<close> of the staging environment.
\<close>

section \<open>Definitions\<close>

definition DEFAULT_BACKEND :: string where "DEFAULT_BACKEND = ''hybrid-engine''"
definition DEFAULT_PARSE_METHOD :: string where "DEFAULT_PARSE_METHOD = ''auto''"
definition DEFAULT_EFFORT :: string where "DEFAULT_EFFORT = ''medium''"

record ingest_env =
  ie_field :: "(string \<times> string) list \<Rightarrow> string \<Rightarrow> string option"
  ie_policy :: "string \<Rightarrow> string option \<Rightarrow> exc + unit"
  ie_sha256 :: "bytes \<Rightarrow> string"
  ie_now :: time
  ie_task_id :: string
  ie_race :: "cache_entry option"

record IngestResult =
  ir_task_id :: string
  ir_cache_hit :: bool
  ir_status :: task_status
  ir_response :: json

subsection \<open>Staging\<close>

datatype form_item = FileItem string "string option" "string option" bytes | FieldItem string string

text \<open>\<open>Path(name).suffix\<close> and \<open>Path(name).stem\<close> of a single path component.\<close>

definition path_suffix :: "string \<Rightarrow> string" where
  "path_suffix name =
    (let ext = rev (takeWhile (\<lambda>c. c \<noteq> CHR ''.'') (rev name)); n = length name - length ext
     in if 1 < n \<and> ext \<noteq> [] then CHR ''.'' # ext else [])"

definition path_stem :: "string \<Rightarrow> string" where
  "path_stem name = take (length name - length (path_suffix name)) name"

definition upload_candidate :: "string \<Rightarrow> nat \<Rightarrow> string" where
  "upload_candidate filename index = path_stem filename @ ''__upload_'' @ show_nat index @ path_suffix filename"

text \<open>The loop over candidates, with fuel: \<open>existing\<close> are the names already in the directory.\<close>

fun free_candidate :: "nat \<Rightarrow> string set \<Rightarrow> string \<Rightarrow> nat \<Rightarrow> string option" where
  "free_candidate 0 existing filename index = None"
| "free_candidate (Suc fuel) existing filename index =
    (if upload_candidate filename index \<notin> existing then Some (upload_candidate filename index)
     else free_candidate fuel existing filename (Suc index))"

definition build_upload_destination :: "nat \<Rightarrow> string set \<Rightarrow> string \<Rightarrow> string option" where
  "build_upload_destination fuel existing filename =
    (if filename \<notin> existing then Some filename else free_candidate fuel existing filename 2)"

text \<open>What staging asks of its surroundings: the new temporary directory, the exception the form parser
  raises if it does, the random name of the \<open>i\<close>-th item when it has none, MinerU's
  \<open>normalize_upload_filename\<close> (a single path component, or an exception), and whether opening the
  file for the \<open>i\<close>-th item, its \<open>k\<close>-th read or write, or closing it raises.\<close>

record stage_env =
  sg_temp_dir :: "exc + path"
  sg_form :: "exc option"
  sg_anonymous :: "nat \<Rightarrow> string"
  sg_normalize :: "string \<Rightarrow> exc + string"
  sg_open :: "nat \<Rightarrow> string \<Rightarrow> exc option"
  sg_read :: "nat \<Rightarrow> nat \<Rightarrow> exc option"
  sg_write :: "nat \<Rightarrow> nat \<Rightarrow> exc option"
  sg_close :: "nat \<Rightarrow> exc option"

text \<open>The loop that copies one upload: read, count, check the limit, write; the last read finds nothing.
  \<open>total_bytes\<close> counts over all files. The result is what was written and the new total.\<close>

fun stage_chunks ::
    "gateway_settings \<Rightarrow> (nat \<Rightarrow> exc option) \<Rightarrow> (nat \<Rightarrow> exc option) \<Rightarrow> nat \<Rightarrow> int \<Rightarrow> bytes list \<Rightarrow> exc + bytes \<times> int" where
  "stage_chunks cfg reading writing k total_bytes [] =
    (case reading k of Some e \<Rightarrow> Inl e | None \<Rightarrow> Inr ([], total_bytes))"
| "stage_chunks cfg reading writing k total_bytes (chunk # chunks) =
    (case reading k of
       Some e \<Rightarrow> Inl e
     | None \<Rightarrow>
         (let total_bytes = total_bytes + int (length chunk) in
          case enforce_byte_limit cfg total_bytes of
            Inl e \<Rightarrow> Inl e
          | Inr _ \<Rightarrow>
              (case writing k of
                 Some e \<Rightarrow> Inl e
               | None \<Rightarrow> map_sum id (\<lambda>(data, t). (chunk @ data, t))
                   (stage_chunks cfg reading writing (Suc k) total_bytes chunks))))"

text \<open>The items of the form in order. A name is taken when the directory has a file of that name; the
  search for a free one has fuel for one step more than there were items, which is enough
  (\<open>stage_items_correct\<close>).\<close>

definition taken :: "path \<Rightarrow> files \<Rightarrow> string set" where
  "taken temp_dir fs = {n. fs (temp_dir @ [n]) \<noteq> None}"

fun stage_items ::
    "gateway_settings \<Rightarrow> stage_env \<Rightarrow> path \<Rightarrow> nat \<Rightarrow> int \<Rightarrow> files \<Rightarrow> form_item list
      \<Rightarrow> exc + (string \<times> string) list \<times> staged_file list \<times> files" where
  "stage_items cfg env temp_dir i total_bytes fs [] = Inr ([], [], fs)"
| "stage_items cfg env temp_dir i total_bytes fs (FileItem key filename content_type data # items) =
    (let original_name = text_or filename (''upload-'' @ sg_anonymous env i) in
     case sg_normalize env original_name of
       Inl e \<Rightarrow> Inl e
     | Inr name \<Rightarrow>
       (case build_upload_destination (Suc i) (taken temp_dir fs) name of
          None \<Rightarrow> Inl (OtherException None ''out of fuel'')
        | Some destination \<Rightarrow>
          (case sg_open env i destination of
             Some e \<Rightarrow> Inl e
           | None \<Rightarrow>
             (case stage_chunks cfg (sg_read env i) (sg_write env i) 0 total_bytes (stream_chunks READ_CHUNK_SIZE data) of
                Inl e \<Rightarrow> Inl e
              | Inr (written, total_bytes) \<Rightarrow>
                (case sg_close env i of
                   Some e \<Rightarrow> Inl e
                 | None \<Rightarrow> map_sum id (\<lambda>(fields, uploads, fs').
                     (fields,
                      \<lparr>sf_field_name = key, sf_upload_name = original_name,
                       sf_content_type = text_or content_type ''application/octet-stream'',
                       sf_path = temp_dir @ [destination]\<rparr> # uploads,
                      fs'))
                     (stage_items cfg env temp_dir (Suc i) total_bytes (fs(temp_dir @ [destination] \<mapsto> written)) items))))))"
| "stage_items cfg env temp_dir i total_bytes fs (FieldItem key v # items) =
    map_sum id (\<lambda>(fields, uploads, fs'). ((key, v) # fields, uploads, fs'))
      (stage_items cfg env temp_dir (Suc i) total_bytes fs items)"

text \<open>\<open>mkdtemp\<close> makes a new, empty directory. On an exception the directory is handed to \<open>cleanup_path\<close>
  and not looked at again; otherwise the payload is what the files of the uploads hold.\<close>

definition stage_files ::
    "gateway_settings \<Rightarrow> stage_env \<Rightarrow> form_item list \<Rightarrow> exc + (string \<times> string) list \<times> staged_file list \<times> files" where
  "stage_files cfg env items =
    (case sg_temp_dir env of
       Inl e \<Rightarrow> Inl e
     | Inr temp_dir \<Rightarrow>
         (case sg_form env of
            Some e \<Rightarrow> Inl e
          | None \<Rightarrow> stage_items cfg env temp_dir 0 0 Map.empty items))"

definition stage_bounded_multipart_request ::
    "gateway_settings \<Rightarrow> stage_env \<Rightarrow> form_item list \<Rightarrow> exc + multipart_payload" where
  "stage_bounded_multipart_request cfg env items =
     map_sum id (\<lambda>(fields, uploads, fs). \<lparr>mp_fields = fields, mp_uploads = map (upload_of fs) uploads\<rparr>)
       (stage_files cfg env items)"

text \<open>The query parameter and the header, when present.\<close>

definition contains :: "string \<Rightarrow> string \<Rightarrow> bool" where
  "contains needle s = list_ex (\<lambda>i. take (length needle) (drop i s) = needle) [0..<Suc (length s)]"

definition should_skip_cache :: "string option \<Rightarrow> string option \<Rightarrow> bool" where
  "should_skip_cache force cache_control =
    (py_lower (text_or force []) \<in> {''true'', ''1'', ''yes''}
     \<or> contains ''no-cache'' (py_lower (text_or cache_control [])))"

subsection \<open>Ingest\<close>

definition validate_http_client_policy :: "ingest_env \<Rightarrow> multipart_payload \<Rightarrow> exc + unit" where
  "validate_http_client_policy env p =
     ie_policy env (text_or (ie_field env (mp_fields p) ''backend'') []) (ie_field env (mp_fields p) ''server_url'')"

definition hash_staged_payload ::
    "ingest_env \<Rightarrow> gateway_settings \<Rightarrow> multipart_payload \<Rightarrow> exc + (string \<times> string) list \<times> options" where
  "hash_staged_payload env cfg p =
     map_sum id (\<lambda>records. (records, build_cache_options_from_payload (mp_fields p)))
       (compute_file_records_from_paths (ie_sha256 env) cfg (map su_upload_name (mp_uploads p)) (map su_data (mp_uploads p)))"

text \<open>\<open>options.get(key, default)\<close> for an option that is not repeated.\<close>

definition option_get :: "string \<Rightarrow> string \<Rightarrow> options \<Rightarrow> string" where
  "option_get key dflt opts = (case map_of opts key of Some (OStr s) \<Rightarrow> s | _ \<Rightarrow> dflt)"

definition pending_response :: "string \<Rightarrow> string \<Rightarrow> json" where
  "pending_response tid source = JObj [(''task_id'', JStr tid), (''status'', JStr (status_text TASK_QUEUED)),
     (''source'', JStr source), (''status_url'', JStr (task_status_url tid)), (''result_url'', JStr (task_result_url tid))]"

definition build_cache_hit_result ::
    "'s store_ops option \<Rightarrow> ingest_env \<Rightarrow> cache_entry \<Rightarrow> string list \<Rightarrow> 's \<Rightarrow> db \<Rightarrow> (exc + IngestResult) \<times> 's \<times> db" where
  "build_cache_hit_result store env entry file_names s d =
    (case store of
       None \<Rightarrow> (Inl (OtherException None ''Object store required for cache hits''), s, d)
     | Some st \<Rightarrow>
         (case create_hit_task st (ie_now env) (ie_task_id env) entry file_names s d of
            (Inl e, s', d') \<Rightarrow> (Inl e, s', d')
          | (Inr _, s', d') \<Rightarrow>
              (Inr \<lparr>ir_task_id = ie_task_id env, ir_cache_hit = True, ir_status = TASK_COMPLETED,
                 ir_response = JObj [(''task_id'', JStr (ie_task_id env)), (''status'', JStr (status_text TASK_COMPLETED)),
                   (''source'', JStr ''cache'')]\<rparr>, s', d')))"

text \<open>The placeholder of a miss; its failure only disables the cache for this task.\<close>

definition place_holder ::
    "'s store_ops \<Rightarrow> gateway_settings \<Rightarrow> ingest_env \<Rightarrow> string \<Rightarrow> string \<Rightarrow> string \<Rightarrow> string \<Rightarrow> string \<Rightarrow> options
      \<Rightarrow> 's \<Rightarrow> db \<Rightarrow> (exc + string option \<times> IngestResult option) \<times> 's \<times> db" where
  "place_holder st cfg env ck content_sha256 options_hash backend parse_method opts s d =
    (case create_placeholder st cfg (ie_now env) (ie_race env) ck
            \<lparr>rk_content_sha256 = content_sha256, rk_options_hash = options_hash, rk_backend = backend,
             rk_parse_method = parse_method, rk_effort = option_get ''effort'' DEFAULT_EFFORT opts,
             rk_result_format = ''zip'', rk_ttl_seconds = Some (cache_ttl_seconds (cache cfg))\<rparr> s d of
       (Inl _, s', d') \<Rightarrow> (Inr (None, None), s', d')
     | (Inr _, s', d') \<Rightarrow> (Inr (Some ck, None), s', d'))"

definition resolve_cache ::
    "'s store_ops option \<Rightarrow> gateway_settings \<Rightarrow> ingest_env \<Rightarrow> (string \<times> string) list \<Rightarrow> string list \<Rightarrow> options
      \<Rightarrow> string \<Rightarrow> string \<Rightarrow> bool \<Rightarrow> 's \<Rightarrow> db \<Rightarrow> (exc + string option \<times> IngestResult option) \<times> 's \<times> db" where
  "resolve_cache store cfg env file_records file_names opts backend parse_method skip_cache s d =
    (case store of
       None \<Rightarrow> (Inr (None, None), s, d)
     | Some st \<Rightarrow>
         if skip_cache \<or> \<not> cache_enabled (cache cfg) then (Inr (None, None), s, d)
         else
           (let (ck, options_hash) = compute_cache_key (ie_sha256 env) file_records opts;
                content_sha256 = content_sha256_from_records (ie_sha256 env) file_records
            in case lookup st cfg (ie_now env) ck s d of
                 (entry, s1, d1) \<Rightarrow>
                   (case entry of
                      Some e \<Rightarrow>
                        if truthy (c_object_key e)
                        then (case build_cache_hit_result store env e file_names s1 d1 of
                                (Inl err, s2, d2) \<Rightarrow> (Inl err, s2, d2)
                              | (Inr result, s2, d2) \<Rightarrow> (Inr (Some ck, Some result), s2, d2))
                        else place_holder st cfg env ck content_sha256 options_hash backend parse_method opts s1 d1
                    | None \<Rightarrow> place_holder st cfg env ck content_sha256 options_hash backend parse_method opts s1 d1)))"

definition create_task_with_payload ::
    "'s store_ops option \<Rightarrow> gateway_settings \<Rightarrow> ingest_env \<Rightarrow> multipart_payload \<Rightarrow> string list \<Rightarrow> string \<Rightarrow> string
      \<Rightarrow> options \<Rightarrow> string option \<Rightarrow> string \<Rightarrow> 's \<Rightarrow> db \<Rightarrow> (exc + unit) \<times> 's \<times> db" where
  "create_task_with_payload store cfg env p file_names backend parse_method opts ck source s d =
    (case store_payload cfg store (ie_task_id env) p s of
       (Inl e, s1) \<Rightarrow> (Inl e, s1, d)
     | (Inr pkey, s1) \<Rightarrow>
         (case create_queued_task (ie_now env) (ie_task_id env) file_names backend parse_method opts pkey source ck d of
            Inr (_, d') \<Rightarrow> (Inr (), s1, d')
          | Inl _ \<Rightarrow> (Inl (OtherException None ''IntegrityError''),
              (case (pkey, store) of (Some _, Some st) \<Rightarrow> snd (safe_delete st pkey s1) | _ \<Rightarrow> s1), d)))"

definition ingest_payload ::
    "'s store_ops option \<Rightarrow> gateway_settings \<Rightarrow> ingest_env \<Rightarrow> string \<Rightarrow> bool \<Rightarrow> multipart_payload \<Rightarrow> 's \<Rightarrow> db
      \<Rightarrow> (exc + IngestResult) \<times> 's \<times> db" where
  "ingest_payload store cfg env source skip_cache p s d =
    (case validate_http_client_policy env p of
       Inl e \<Rightarrow> (Inl e, s, d)
     | Inr _ \<Rightarrow>
         (case hash_staged_payload env cfg p of
            Inl e \<Rightarrow> (Inl e, s, d)
          | Inr (file_records, opts) \<Rightarrow>
              (let file_names = map su_upload_name (mp_uploads p);
                   backend = option_get ''backend'' DEFAULT_BACKEND opts;
                   parse_method = option_get ''parse_method'' DEFAULT_PARSE_METHOD opts
               in case resolve_cache store cfg env file_records file_names opts backend parse_method skip_cache s d of
                    (Inl e, s1, d1) \<Rightarrow> (Inl e, s1, d1)
                  | (Inr (_, Some hit), s1, d1) \<Rightarrow> (Inr hit, s1, d1)
                  | (Inr (ck, None), s1, d1) \<Rightarrow>
                      (case create_task_with_payload store cfg env p file_names backend parse_method opts ck source s1 d1 of
                         (Inl e, s2, d2) \<Rightarrow> (Inl e, s2, d2)
                       | (Inr _, s2, d2) \<Rightarrow>
                           (Inr \<lparr>ir_task_id = ie_task_id env, ir_cache_hit = False, ir_status = TASK_QUEUED,
                              ir_response = pending_response (ie_task_id env) source\<rparr>, s2, d2)))))"

text \<open>\<open>ingest_task\<close>: an unsafe name becomes a 422.\<close>

definition ingest_task ::
    "'s store_ops option \<Rightarrow> gateway_settings \<Rightarrow> ingest_env \<Rightarrow> stage_env \<Rightarrow> string \<Rightarrow> bool \<Rightarrow> form_item list \<Rightarrow> 's \<Rightarrow> db
      \<Rightarrow> (exc + IngestResult) \<times> 's \<times> db" where
  "ingest_task store cfg env staging source skip_cache form s d =
    (case stage_bounded_multipart_request cfg staging form of
       Inl e \<Rightarrow> (Inl e, s, d)
     | Inr staged \<Rightarrow>
         (case rewrite_staged_uploads staged of
            Inl e \<Rightarrow> (Inl (OtherException (Some 422) (exc_str e)), s, d)
          | Inr p \<Rightarrow> ingest_payload store cfg env source skip_cache p s d))"

subsection \<open>Documents of OCR requests\<close>

record OCRDocument =
  od_type :: string
  od_document_url :: "string option"
  od_image_url :: "string option"
  od_file :: "string option"
  od_file_name :: "string option"

record OCRRequest =
  or_model :: string
  or_document :: OCRDocument
  or_language :: "string list option"
  or_backend :: string
  or_effort :: string
  or_parse_method :: string

text \<open>Strict base64 decoding; \<open>None\<close> is \<open>binascii.Error\<close>.\<close>

definition b64_value :: "char \<Rightarrow> nat option" where
  "b64_value c =
    (let n = of_char c :: nat in
     if 65 \<le> n \<and> n \<le> 90 then Some (n - 65) else if 97 \<le> n \<and> n \<le> 122 then Some (n - 71)
     else if 48 \<le> n \<and> n \<le> 57 then Some (n + 4) else if n = 43 then Some 62 else if n = 47 then Some 63 else None)"

fun b64decode :: "string \<Rightarrow> bytes option" where
  "b64decode [] = Some []"
| "b64decode (a # b # c # e # rest) =
    (case (b64_value a, b64_value b) of
       (Some x, Some y) \<Rightarrow>
         if c = CHR ''='' \<and> e = CHR ''='' \<and> rest = [] then Some [word_of_nat (x * 4 + y div 16)]
         else (case b64_value c of
                 None \<Rightarrow> None
               | Some z \<Rightarrow>
                   if e = CHR ''='' \<and> rest = []
                   then Some [word_of_nat (x * 4 + y div 16), word_of_nat (y mod 16 * 16 + z div 4)]
                   else (case (b64_value e, b64decode rest) of
                           (Some w, Some data) \<Rightarrow>
                             Some ([word_of_nat (x * 4 + y div 16), word_of_nat (y mod 16 * 16 + z div 4),
                                    word_of_nat (z mod 4 * 64 + w)] @ data)
                         | _ \<Rightarrow> None))
     | _ \<Rightarrow> None)"
| "b64decode _ = None"

definition estimated_size :: "string \<Rightarrow> int" where
  "estimated_size encoded = (int (length encoded) + (- int (length encoded)) mod 4) * 3 div 4"

definition decode_inline_file :: "gateway_settings \<Rightarrow> string \<Rightarrow> string option \<Rightarrow> exc + bytes option \<times> string" where
  "decode_inline_file cfg file file_name =
    (let encoded = py_strip file in
     case enforce_byte_limit cfg (estimated_size encoded) of
       Inl e \<Rightarrow> Inl e
     | Inr _ \<Rightarrow>
         (case b64decode encoded of
            None \<Rightarrow> Inr (None, [])
          | Some data \<Rightarrow>
              (case enforce_byte_limit cfg (int (length data)) of
                 Inl e \<Rightarrow> Inl e
               | Inr _ \<Rightarrow> Inr (Some data, text_or file_name ''document''))))"

text \<open>A download: the chunks that arrived, and the exception that ended it, if any. The limit is
  checked as the chunks arrive.\<close>

type_synonym download = "string \<Rightarrow> bytes list \<times> exc option"

definition url_name :: "string \<Rightarrow> string" where
  "url_name url = text_or (Some (rev (takeWhile (\<lambda>c. c \<noteq> CHR ''/'') (rev url)))) ''document''"

definition fetch_document_url :: "gateway_settings \<Rightarrow> download \<Rightarrow> string \<Rightarrow> exc + bytes option \<times> string" where
  "fetch_document_url cfg dl url =
    (case dl url of
       (chunks, failure) \<Rightarrow>
         (case bounded_chunks cfg 0 chunks of
            Inl e \<Rightarrow> Inl e
          | Inr cs \<Rightarrow> (case failure of
               Some _ \<Rightarrow> Inr (None, [])
             | None \<Rightarrow> Inr (Some (concat cs), url_name url))))"

definition extract_document ::
    "gateway_settings \<Rightarrow> ingest_env \<Rightarrow> download \<Rightarrow> OCRRequest \<Rightarrow> exc + bytes option \<times> string" where
  "extract_document cfg env dl body =
    (let doc = or_document body in
     if od_type doc = ''file'' \<and> truthy (od_file doc) then decode_inline_file cfg (the (od_file doc)) (od_file_name doc)
     else if od_type doc \<in> {''document_url'', ''image_url''}
     then (case (if truthy (od_document_url doc) then od_document_url doc else od_image_url doc) of
             None \<Rightarrow> Inr (None, [])
           | Some url \<Rightarrow>
               (case ie_policy env [] (Some url) of
                  Inl e \<Rightarrow> Inl e
                | Inr _ \<Rightarrow> fetch_document_url cfg dl url))
     else Inr (None, []))"

definition build_payload :: "bytes \<Rightarrow> string \<Rightarrow> OCRRequest \<Rightarrow> exc + multipart_payload" where
  "build_payload file_bytes file_name body =
    (let client_name = (if CHR ''.'' \<in> set file_name then file_name else file_name @ ''.pdf'') in
     case sanitize_client_filename client_name of
       Inl e \<Rightarrow> Inl e
     | Inr safe_name \<Rightarrow>
         Inr \<lparr>mp_fields = [(''backend'', or_backend body), (''effort'', or_effort body), (''parse_method'', or_parse_method body)]
                @ map (\<lambda>lang. (''lang_list'', lang))
                    (case or_language body of Some (l # ls) \<Rightarrow> l # ls | _ \<Rightarrow> [''ch'']),
              mp_uploads = [\<lparr>su_field_name = ''files'', su_upload_name = safe_name,
                su_content_type = ''application/octet-stream'', su_data = file_bytes\<rparr>]\<rparr>)"

section \<open>Lemmas\<close>

subsection \<open>Staging\<close>

definition form_fields :: "form_item list \<Rightarrow> (string \<times> string) list" where
  "form_fields items = concat (map (\<lambda>i. case i of FieldItem k v \<Rightarrow> [(k, v)] | _ \<Rightarrow> []) items)"

text \<open>The uploads the client sent, numbered like the items.\<close>

fun form_uploads :: "stage_env \<Rightarrow> nat \<Rightarrow> form_item list \<Rightarrow> staged_upload list" where
  "form_uploads env i [] = []"
| "form_uploads env i (FileItem key filename content_type data # items) =
    \<lparr>su_field_name = key, su_upload_name = text_or filename (''upload-'' @ sg_anonymous env i),
     su_content_type = text_or content_type ''application/octet-stream'', su_data = data\<rparr> # form_uploads env (Suc i) items"
| "form_uploads env i (FieldItem key v # items) = form_uploads env (Suc i) items"

fun form_bytes :: "form_item list \<Rightarrow> int" where
  "form_bytes [] = 0"
| "form_bytes (FileItem key filename content_type data # items) = int (length data) + form_bytes items"
| "form_bytes (FieldItem key v # items) = form_bytes items"

lemma form_fields_simps [simp]:
  "form_fields [] = []"
  "form_fields (FileItem k n c data # items) = form_fields items"
  "form_fields (FieldItem k v # items) = (k, v) # form_fields items"
  by (simp_all add: form_fields_def)

lemma form_bytes_nonneg: "0 \<le> form_bytes items"
  by (induction items rule: form_bytes.induct) auto

text \<open>The exceptions that come from the surroundings.\<close>

definition staging_error :: "stage_env \<Rightarrow> exc \<Rightarrow> bool" where
  "staging_error env e \<longleftrightarrow> sg_temp_dir env = Inl e \<or> sg_form env = Some e
     \<or> (\<exists>name. sg_normalize env name = Inl e) \<or> (\<exists>i name. sg_open env i name = Some e)
     \<or> (\<exists>i k. sg_read env i k = Some e) \<or> (\<exists>i k. sg_write env i k = Some e) \<or> (\<exists>i. sg_close env i = Some e)"

lemma stage_chunks_result:
  assumes "sofar \<le> effective_file_size_limit cfg"
  shows "case stage_chunks cfg rd wr k sofar cs of
      Inr (data, t) \<Rightarrow> data = concat cs \<and> t = sofar + int (length (concat cs)) \<and> t \<le> effective_file_size_limit cfg
    | Inl e \<Rightarrow> (\<exists>k. rd k = Some e) \<or> (\<exists>k. wr k = Some e)
        \<or> (effective_file_size_limit cfg < sofar + int (length (concat cs)) \<and> (\<exists>msg. e = OtherException (Some 413) msg))"
  using assms
proof (induction cs arbitrary: k sofar)
  case (Cons c cs)
  show ?case
  proof (cases "rd k = None \<and> wr k = None \<and> sofar + int (length c) \<le> effective_file_size_limit cfg")
    case True
    then have step: "stage_chunks cfg rd wr k sofar (c # cs)
        = map_sum id (\<lambda>(data, t). (c @ data, t)) (stage_chunks cfg rd wr (Suc k) (sofar + int (length c)) cs)"
      by (simp add: enforce_byte_limit_def Let_def)
    show ?thesis unfolding step using Cons.IH [of "sofar + int (length c)" "Suc k"] True
      by (auto simp: algebra_simps split: sum.splits)
  next
    case False
    then show ?thesis
      by (auto simp: enforce_byte_limit_def file_too_large_def Let_def split: option.splits)
  qed
qed (auto split: option.splits)

lemma show_nat_inj: "show_nat m = show_nat n \<Longrightarrow> m = n"
  by (metis show_nat_digits)

lemma upload_candidate_inj: "inj (upload_candidate filename)"
  by (auto simp: inj_def upload_candidate_def dest: show_nat_inj)

lemma free_candidate_Some:
  "free_candidate fuel existing filename i = Some name \<Longrightarrow>
     name \<notin> existing \<and> (\<exists>j \<ge> i. name = upload_candidate filename j \<and> upload_candidate filename ` {i..<j} \<subseteq> existing)"
proof (induction fuel arbitrary: i)
  case (Suc fuel)
  show ?case
  proof (cases "upload_candidate filename i \<in> existing")
    case True
    then obtain j where "Suc i \<le> j" "name = upload_candidate filename j" "name \<notin> existing"
      "upload_candidate filename ` {Suc i..<j} \<subseteq> existing"
      using Suc.IH [of "Suc i"] Suc.prems by auto
    moreover have "{i..<j} = insert i {Suc i..<j}" using \<open>Suc i \<le> j\<close> by auto
    ultimately show ?thesis using True by (intro conjI exI [of _ j]) (simp_all add: image_subset_iff)
  qed (use Suc.prems in auto)
qed simp

lemma free_candidate_None:
  "free_candidate fuel existing filename i = None \<Longrightarrow> upload_candidate filename ` {i..<i + fuel} \<subseteq> existing"
proof (induction fuel arbitrary: i)
  case (Suc fuel)
  have "{i..<i + Suc fuel} = insert i {Suc i..<Suc i + fuel}" by auto
  then show ?case using Suc.IH [of "Suc i"] Suc.prems by (auto split: if_splits)
qed simp

lemma free_candidate_found:
  assumes "finite existing" and "card existing < fuel"
  shows "free_candidate fuel existing filename i \<noteq> None"
proof
  assume "free_candidate fuel existing filename i = None"
  then have "card (upload_candidate filename ` {i..<i + fuel}) \<le> card existing"
    by (intro card_mono assms(1) free_candidate_None)
  then show False using assms(2) card_image [OF inj_on_subset [OF upload_candidate_inj subset_UNIV]] by simp
qed

text \<open>The search for a file name ends and never overwrites a staged upload: with one step more than
  there are files it returns a name that is not taken, the wanted one when it is free and otherwise the
  numbered candidate with the least number from 2 on.\<close>

lemma build_upload_destination_free:
  assumes "finite existing" and "card existing < fuel"
  shows "\<exists>name. build_upload_destination fuel existing filename = Some name \<and> name \<notin> existing
    \<and> (if filename \<notin> existing then name = filename
       else \<exists>j\<ge>2. name = upload_candidate filename j \<and> upload_candidate filename ` {2..<j} \<subseteq> existing)"
proof (cases "filename \<in> existing")
  case True
  obtain name where "free_candidate fuel existing filename 2 = Some name"
    using free_candidate_found [OF assms] by blast
  from True this free_candidate_Some [OF this] show ?thesis by (simp add: build_upload_destination_def)
qed (simp add: build_upload_destination_def)

lemma taken_upd [simp]: "taken temp_dir (fs(temp_dir @ [n] \<mapsto> data)) = insert n (taken temp_dir fs)"
  by (auto simp: taken_def)

lemma card_taken_upd:
  "finite (taken temp_dir fs) \<Longrightarrow> card (taken temp_dir fs) \<le> i \<Longrightarrow>
    finite (taken temp_dir (fs(temp_dir @ [n] \<mapsto> data))) \<and> card (taken temp_dir (fs(temp_dir @ [n] \<mapsto> data))) \<le> Suc i"
  by (simp add: card_insert_if)

text \<open>What staging leaves in the file system: the files that were there, and one new file for every upload,
  at a path of its own in the directory, with the contents the client sent.\<close>

definition staged_ok ::
    "gateway_settings \<Rightarrow> stage_env \<Rightarrow> path \<Rightarrow> nat \<Rightarrow> int \<Rightarrow> files \<Rightarrow> form_item list
      \<Rightarrow> (string \<times> string) list \<Rightarrow> staged_file list \<Rightarrow> files \<Rightarrow> bool" where
  "staged_ok cfg env temp_dir i sofar fs items flds us fs' \<longleftrightarrow>
     flds = form_fields items \<and> map (upload_of fs') us = form_uploads env i items
   \<and> sofar + form_bytes items \<le> effective_file_size_limit cfg
   \<and> (\<forall>q. fs q \<noteq> None \<longrightarrow> fs' q = fs q)
   \<and> distinct (map sf_path us)
   \<and> (\<forall>u \<in> set us. fs (sf_path u) = None \<and> fs' (sf_path u) \<noteq> None \<and> (\<exists>n. sf_path u = temp_dir @ [n]))"

lemma staged_ok_file:
  assumes ok: "staged_ok cfg env temp_dir (Suc i) (sofar + int (length data)) (fs(temp_dir @ [n] \<mapsto> data)) items flds us fs'"
    and new: "fs (temp_dir @ [n]) = None"
  shows "staged_ok cfg env temp_dir i sofar fs (FileItem key filename content_type data # items) flds
    (\<lparr>sf_field_name = key, sf_upload_name = text_or filename (''upload-'' @ sg_anonymous env i),
      sf_content_type = text_or content_type ''application/octet-stream'', sf_path = temp_dir @ [n]\<rparr> # us) fs'"
proof -
  let ?p = "temp_dir @ [n]"
  have kept: "fs' q = (fs(?p \<mapsto> data)) q" if "(fs(?p \<mapsto> data)) q \<noteq> None" for q
    using ok that unfolding staged_ok_def by blast
  have here: "fs' ?p = Some data" using kept [of ?p] by simp
  have old: "fs' q = fs q" if "fs q \<noteq> None" for q using kept [of q] that new by (cases "q = ?p") auto
  have us: "(fs(?p \<mapsto> data)) (sf_path u) = None" "fs' (sf_path u) \<noteq> None" "\<exists>n. sf_path u = temp_dir @ [n]"
    if "u \<in> set us" for u using ok that unfolding staged_ok_def by blast+
  have apart: "sf_path u \<noteq> ?p \<and> fs (sf_path u) = None" if "u \<in> set us" for u
    using us(1) [OF that] by (cases "sf_path u = ?p") auto
  then have "?p \<notin> sf_path ` set us" by (metis image_iff)
  then show ?thesis
    using ok here old apart us(2,3) new by (simp add: staged_ok_def upload_of_def algebra_simps)
qed

lemma stage_items_correct:
  assumes "sofar \<le> effective_file_size_limit cfg"
    and "finite (taken temp_dir fs)" and "card (taken temp_dir fs) \<le> i"
  shows "case stage_items cfg env temp_dir i sofar fs items of
      Inr (flds, us, fs') \<Rightarrow> staged_ok cfg env temp_dir i sofar fs items flds us fs'
    | Inl e \<Rightarrow> staging_error env e
        \<or> (effective_file_size_limit cfg < sofar + form_bytes items \<and> (\<exists>msg. e = OtherException (Some 413) msg))"
  using assms
proof (induction cfg env temp_dir i sofar fs items rule: stage_items.induct)
  case (1 cfg env temp_dir i sofar fs)
  then show ?case by (simp add: staged_ok_def)
next
  case (2 cfg env temp_dir i sofar fs key filename content_type data items)
  let ?name = "text_or filename (''upload-'' @ sg_anonymous env i)"
  let ?chunks = "stream_chunks READ_CHUNK_SIZE data"
  let ?copy = "stage_chunks cfg (sg_read env i) (sg_write env i) 0 sofar ?chunks"
  note copied = stage_chunks_result [OF "2.prems"(1), where rd = "sg_read env i" and wr = "sg_write env i" and k = 0 and cs = ?chunks,
      unfolded chunks_concat]
  show ?case
  proof (cases "sg_normalize env ?name")
    case (Inl e)
    then show ?thesis by (auto simp: staging_error_def)
  next
    case (Inr name)
    obtain dest where dest: "build_upload_destination (Suc i) (taken temp_dir fs) name = Some dest" "dest \<notin> taken temp_dir fs"
      using build_upload_destination_free [OF "2.prems"(2), of "Suc i" name] "2.prems"(3) by auto
    show ?thesis
    proof (cases "sg_open env i dest")
      case (Some e)
      then show ?thesis using Inr dest(1) by (auto simp: staging_error_def)
    next
      case None
      show ?thesis
      proof (cases ?copy)
        case (Inl e)
        then have "stage_items cfg env temp_dir i sofar fs (FileItem key filename content_type data # items) = Inl e"
          using Inr dest(1) None by simp
        then show ?thesis using copied Inl form_bytes_nonneg [of items] by (auto simp: staging_error_def)
      next
        case copy: (Inr r)
        then have r: "r = (data, sofar + int (length data))" "sofar + int (length data) \<le> effective_file_size_limit cfg"
          using copied by (cases r; simp)+
        show ?thesis
        proof (cases "sg_close env i")
          case (Some e)
          then show ?thesis using Inr dest(1) None copy r(1) by (auto simp: staging_error_def)
        next
          case closed: None
          let ?fs = "fs(temp_dir @ [dest] \<mapsto> data)"
          let ?rest = "stage_items cfg env temp_dir (Suc i) (sofar + int (length data)) ?fs items"
          note IH = "2.IH" [OF refl Inr dest(1) None copy [unfolded r(1)] refl closed r(2)]
          have rest: "case ?rest of
              Inr (flds, us, fs') \<Rightarrow> staged_ok cfg env temp_dir (Suc i) (sofar + int (length data)) ?fs items flds us fs'
            | Inl e \<Rightarrow> staging_error env e \<or> (effective_file_size_limit cfg < sofar + int (length data) + form_bytes items
                \<and> (\<exists>msg. e = OtherException (Some 413) msg))"
            using IH card_taken_upd [OF "2.prems"(2,3)] by blast
          have new: "fs (temp_dir @ [dest]) = None" using dest(2) by (simp add: taken_def)
          show ?thesis
          proof (cases ?rest)
            case (Inl e)
            then show ?thesis using rest \<open>sg_normalize env ?name = Inr name\<close> dest(1) None copy r(1) closed
              by (simp add: algebra_simps)
          next
            case staged: (Inr q)
            obtain flds us fs' where q: "q = (flds, us, fs')" by (cases q)
            from rest staged q
            have "staged_ok cfg env temp_dir (Suc i) (sofar + int (length data)) ?fs items flds us fs'" by simp
            from staged_ok_file [OF this new] show ?thesis
              using staged q Inr dest(1) None copy r(1) closed by simp
          qed
        qed
      qed
    qed
  qed
next
  case (3 cfg env temp_dir i sofar fs key v items)
  show ?case
  proof (cases "stage_items cfg env temp_dir (Suc i) sofar fs items")
    case (Inl e)
    then show ?thesis using 3 by simp
  next
    case (Inr q)
    then show ?thesis using 3 by (cases q) (simp add: staged_ok_def)
  qed
qed

lemma stage_request_result:
  "case stage_bounded_multipart_request cfg env items of
     Inr p \<Rightarrow> mp_fields p = form_fields items \<and> mp_uploads p = form_uploads env 0 items
       \<and> form_bytes items \<le> effective_file_size_limit cfg
   | Inl e \<Rightarrow> staging_error env e
       \<or> (effective_file_size_limit cfg < form_bytes items \<and> (\<exists>msg. e = OtherException (Some 413) msg))"
proof (cases "stage_files cfg env items")
  case (Inl e)
  then show ?thesis
    using stage_items_correct [of 0 cfg _ Map.empty 0 env items] limit_bounds(1) [of cfg]
    by (fastforce simp: stage_bounded_multipart_request_def stage_files_def staging_error_def taken_def
        split: sum.splits option.splits)
next
  case (Inr q)
  obtain flds us fs where q: "q = (flds, us, fs)" by (cases q)
  obtain temp_dir where "stage_items cfg env temp_dir 0 0 Map.empty items = Inr (flds, us, fs)"
    using Inr q by (auto simp: stage_files_def split: sum.splits option.splits)
  then have "staged_ok cfg env temp_dir 0 0 Map.empty items flds us fs"
    using stage_items_correct [of 0 cfg temp_dir Map.empty 0 env items] limit_bounds(1) [of cfg] by (simp add: taken_def)
  then show ?thesis using Inr q by (simp add: stage_bounded_multipart_request_def staged_ok_def)
qed

text \<open>The staged files have paths of their own below the directory, as the renaming that follows needs.\<close>

lemma stage_files_apart:
  assumes "stage_files cfg env items = Inr (flds, us, fs)"
  shows "distinct (map sf_path us)" and "\<forall>u \<in> set us. fs (sf_path u) \<noteq> None"
    and "\<exists>temp_dir. sg_temp_dir env = Inr temp_dir \<and> (\<forall>u \<in> set us. \<exists>n. sf_path u = temp_dir @ [n])"
proof -
  obtain temp_dir where t: "sg_temp_dir env = Inr temp_dir" "stage_items cfg env temp_dir 0 0 Map.empty items = Inr (flds, us, fs)"
    using assms by (auto simp: stage_files_def split: sum.splits option.splits)
  have "staged_ok cfg env temp_dir 0 0 Map.empty items flds us fs"
    using stage_items_correct [of 0 cfg temp_dir Map.empty 0 env items] limit_bounds(1) [of cfg] t(2) by (simp add: taken_def)
  then show "distinct (map sf_path us)" and "\<forall>u \<in> set us. fs (sf_path u) \<noteq> None"
    and "\<exists>temp_dir. sg_temp_dir env = Inr temp_dir \<and> (\<forall>u \<in> set us. \<exists>n. sf_path u = temp_dir @ [n])"
    using t(1) by (auto simp: staged_ok_def)
qed

subsection \<open>Ingest\<close>

text \<open>What an accepted or rejected request leaves behind. An accepted one adds one row: of a hit, a
  completed task whose result object is in the store; otherwise a queued task whose payload object
  rebuilds to the staged form. A rejected one adds no row. Workers and events are not touched.\<close>

definition durable :: "('s \<Rightarrow> string \<Rightarrow> bytes option) \<Rightarrow> 's \<Rightarrow> multipart_payload \<Rightarrow> IngestResult \<Rightarrow> task \<Rightarrow> bool" where
  "durable contents s p result row \<longleftrightarrow>
     t_task_id row = ir_task_id result \<and> t_status row = ir_status result
   \<and> (if ir_cache_hit result
      then t_status row = TASK_COMPLETED \<and> t_result_key row = Some (result_key (t_task_id row) ''zip'')
        \<and> contents s (result_key (t_task_id row) ''zip'') \<noteq> None
      else t_status row = TASK_QUEUED \<and> t_payload_key row = Some (payload_key (t_task_id row))
        \<and> t_file_names row = map su_upload_name (mp_uploads p)
        \<and> (\<exists>blob. contents s (payload_key (t_task_id row)) = Some blob \<and> rebuild_from_blob blob = Inr (Some p)))"

definition other_tables :: "db \<Rightarrow> db \<Rightarrow> bool" where
  "other_tables d d' \<longleftrightarrow> db_workers d' = db_workers d \<and> db_events d' = db_events d \<and> (db_wf d \<longrightarrow> db_wf d')"

lemma other_tables_refl [simp]: "other_tables d d"
  by (simp add: other_tables_def)

lemma other_tables_trans: "other_tables a b \<Longrightarrow> other_tables b c \<Longrightarrow> other_tables a c"
  by (simp add: other_tables_def)

lemma other_tables_upd_cache [simp]: "(\<And>r. c_cache_key (f r) = c_cache_key r) \<Longrightarrow> other_tables d (upd_cache k f d)"
  by (auto simp: other_tables_def upd_cache_def db_wf_def)

lemma reset_expired_tables:
  assumes "reset_expired_row st cfg now rk row s d = (s', d')"
  shows "db_tasks d' = db_tasks d" "other_tables d d'"
  using assms by (auto simp: reset_expired_row_def Let_def)

lemma lookup_tables:
  assumes "lookup st cfg now ck s d = (entry, s', d')"
  shows "db_tasks d' = db_tasks d" "other_tables d d'"
  using assms reset_expired_tables
  by (fastforce simp: lookup_def Let_def split: option.splits if_splits)+

lemma create_placeholder_tables:
  assumes "create_placeholder st cfg now race ck rk s d = (r, s', d')"
  shows "db_tasks d' = db_tasks d \<and> other_tables d d'"
proof (cases "get_cache_row ck d")
  case (Some row)
  then show ?thesis using assms reset_expired_tables [of st cfg now "Some rk" row s d]
    by (auto simp: create_placeholder_def split: if_splits prod.splits)
next
  case None
  define d1 where "d1 = (case race of None \<Rightarrow> d | Some r \<Rightarrow> d\<lparr>db_cache := db_cache d @ [r\<lparr>c_cache_key := ck\<rparr>]\<rparr>)"
  have fresh: "ck \<notin> c_cache_key ` set (db_cache d)" using None by (auto simp: get_cache_row_def db_get_None)
  have d1: "db_tasks d1 = db_tasks d" "other_tables d d1"
    using fresh by (auto simp: d1_def other_tables_def db_wf_def split: option.splits)
  let ?row = "build_placeholder_row cfg now ck rk"
  show ?thesis
  proof (cases "db_insert c_cache_key ?row (db_cache d1)")
    case (Inr rows)
    then have "d' = d1\<lparr>db_cache := rows\<rparr>" using assms None by (simp add: create_placeholder_def d1_def [symmetric])
    moreover have "rows = db_cache d1 @ [?row]" "c_cache_key ?row \<notin> c_cache_key ` set (db_cache d1)"
      using Inr by (auto simp: db_insert_result db_get_None split: if_splits)
    ultimately show ?thesis using d1 by (auto simp: other_tables_def db_wf_def)
  next
    case (Inl e)
    then show ?thesis using assms None d1 reset_expired_tables [of st cfg now "Some rk" _ s d1]
      by (auto simp: create_placeholder_def d1_def [symmetric] split: option.splits if_splits prod.splits
          intro: other_tables_trans)
  qed
qed

lemma place_holder_tables:
  assumes "place_holder st cfg env ck c h b pm opts s d = (r, s', d')"
  shows "(\<exists>ck'. r = Inr (ck', None)) \<and> db_tasks d' = db_tasks d \<and> other_tables d d'"
  using assms unfolding place_holder_def by (auto dest: create_placeholder_tables split: prod.splits sum.splits)

lemma insert_task:
  assumes "db_insert t_task_id row (db_tasks d) = Inr rows"
  shows "rows = db_tasks d @ [row]" "other_tables d (d\<lparr>db_tasks := rows\<rparr>)"
  using assms by (auto simp: db_insert_result db_get_None other_tables_def db_wf_def split: if_splits)

lemma hit_result_durable:
  assumes "object_store st contents" and "truthy (c_object_key e)"
    and "build_cache_hit_result (Some st) env e names s d = (r, s', d')"
  shows "other_tables d d'" and "(case r of Inl _ \<Rightarrow> db_tasks d' = db_tasks d
    | Inr result \<Rightarrow> \<exists>row. db_tasks d' = db_tasks d @ [row] \<and> task_ok row \<and> ir_task_id result = ie_task_id env
        \<and> durable contents s' p result row)"
proof -
  obtain c s1 d1 where hit: "create_hit_task st (ie_now env) (ie_task_id env) e names s d = (c, s1, d1)"
    by (cases "create_hit_task st (ie_now env) (ie_task_id env) e names s d") auto
  have "other_tables d d' \<and> (case r of Inl _ \<Rightarrow> db_tasks d' = db_tasks d
    | Inr result \<Rightarrow> \<exists>row. db_tasks d' = db_tasks d @ [row] \<and> task_ok row \<and> ir_task_id result = ie_task_id env
        \<and> durable contents s' p result row)"
  proof (cases c)
    case (Inl err)
    then have "d1 = d" using hit by (auto simp: create_hit_task_def Let_def split: prod.splits sum.splits)
    then show ?thesis using assms(3) hit Inl by (auto simp: build_cache_hit_result_def)
  next
    case (Inr t)
    note H = create_hit_task_Inr [OF assms(1,2) hit [unfolded Inr]]
    have ins: "db_insert t_task_id t (db_tasks d) = Inr (db_tasks d1)" "d1 = d\<lparr>db_tasks := db_tasks d1\<rparr>" "task_ok t"
      using hit unfolding Inr
      by (auto simp: create_hit_task_def Let_def task_ok_def new_task_def TASK_STATUSES_TERMINAL_def
          split: prod.splits sum.splits)
    show ?thesis using assms(3) hit Inr H insert_task [OF ins(1)] ins(2,3)
      by (auto simp: build_cache_hit_result_def durable_def)
  qed
  then show "other_tables d d'" and "(case r of Inl _ \<Rightarrow> db_tasks d' = db_tasks d
    | Inr result \<Rightarrow> \<exists>row. db_tasks d' = db_tasks d @ [row] \<and> task_ok row \<and> ir_task_id result = ie_task_id env
        \<and> durable contents s' p result row)" by auto
qed

lemma resolve_cache_effect:
  assumes "object_store st contents"
    and "resolve_cache (Some st) cfg env records names opts b pm nocache s d = (r, s', d')"
  shows "other_tables d d' \<and> (case r of
      Inr (_, Some hit) \<Rightarrow> \<exists>row. db_tasks d' = db_tasks d @ [row] \<and> task_ok row \<and> ir_task_id hit = ie_task_id env
        \<and> durable contents s' p hit row
    | _ \<Rightarrow> db_tasks d' = db_tasks d)"
proof (cases "nocache \<or> \<not> cache_enabled (cache cfg)")
  case True
  then show ?thesis using assms(2) by (auto simp: resolve_cache_def)
next
  case False
  obtain ck h where key: "compute_cache_key (ie_sha256 env) records opts = (ck, h)" by fastforce
  obtain entry s1 d1 where look: "lookup st cfg (ie_now env) ck s d = (entry, s1, d1)" by (cases "lookup st cfg (ie_now env) ck s d")
  note T = lookup_tables [OF look]
  let ?c = "content_sha256_from_records (ie_sha256 env) records"
  show ?thesis
  proof (cases "\<exists>e. entry = Some e \<and> truthy (c_object_key e)")
    case True
    then obtain e where e: "entry = Some e" "truthy (c_object_key e)" by auto
    obtain q s2 d2 where hit: "build_cache_hit_result (Some st) env e names s1 d1 = (q, s2, d2)"
      by (cases "build_cache_hit_result (Some st) env e names s1 d1") auto
    note H = hit_result_durable(1) [OF assms(1) e(2) hit] hit_result_durable(2) [OF assms(1) e(2) hit, of p]
    have "resolve_cache (Some st) cfg env records names opts b pm nocache s d
        = (map_sum id (\<lambda>res. (Some ck, Some res)) q, s2, d2)"
      using False e hit key look by (cases q) (simp_all add: resolve_cache_def)
    then have "s' = s2" "d' = d2" "r = map_sum id (\<lambda>res. (Some ck, Some res)) q" using assms(2) by simp_all
    then show ?thesis using H T by (cases q) (auto intro: other_tables_trans)
  next
    case False
    then have "place_holder st cfg env ck ?c h b pm opts s1 d1 = (r, s', d')"
      using assms(2) key look \<open>\<not> (nocache \<or> \<not> cache_enabled (cache cfg))\<close>
      by (cases entry) (simp_all add: resolve_cache_def)
    from place_holder_tables [OF this] show ?thesis using T by (auto intro: other_tables_trans)
  qed
qed

lemma create_task_durable:
  assumes "object_store st contents"
    and "\<And>u. u \<in> set (mp_uploads p) \<Longrightarrow> sanitize_client_filename (su_upload_name u) = Inr (su_upload_name u)"
    and "create_task_with_payload (Some st) cfg env p (map su_upload_name (mp_uploads p)) b pm opts ck source s d = (r, s', d')"
  shows "other_tables d d' \<and> (case r of Inl _ \<Rightarrow> db_tasks d' = db_tasks d
    | Inr _ \<Rightarrow> \<exists>row. db_tasks d' = db_tasks d @ [row] \<and> task_ok row
        \<and> durable contents s' p \<lparr>ir_task_id = ie_task_id env, ir_cache_hit = False, ir_status = TASK_QUEUED, ir_response = v\<rparr> row)"
proof -
  let ?names = "map su_upload_name (mp_uploads p)"
  obtain q s1 where st: "store_payload cfg (Some st) (ie_task_id env) p s = (q, s1)"
    by (cases "store_payload cfg (Some st) (ie_task_id env) p s")
  show ?thesis
  proof (cases q)
    case (Inl e)
    then show ?thesis using assms(3) st by (auto simp: create_task_with_payload_def)
  next
    case (Inr pkey)
    obtain blob n where pack: "pack_payload cfg p = Inr blob" and pkey: "pkey = Some (payload_key (ie_task_id env))"
      and put: "os_put st (payload_key (ie_task_id env)) blob ''application/octet-stream'' None s = (Inr n, s1)"
      using st Inr by (auto simp: store_payload_def apfst_sum split: sum.splits)
    have stored: "contents s1 (payload_key (ie_task_id env)) = Some blob" using object_store.put_ok [OF assms(1) put] by simp
    have rebuilt: "rebuild_from_blob blob = Inr (Some p)" using rebuild_packed [OF pack] assms(2) by simp
    show ?thesis
    proof (cases "create_queued_task (ie_now env) (ie_task_id env) ?names b pm opts pkey source ck d")
      case (Inl e)
      then show ?thesis using assms(3) st Inr by (auto simp: create_task_with_payload_def)
    next
      case (Inr rd)
      obtain row d1 where rd: "rd = (row, d1)" by (cases rd)
      have row: "d1 = d\<lparr>db_tasks := db_tasks d1\<rparr>" "db_insert t_task_id row (db_tasks d) = Inr (db_tasks d1)"
        "t_task_id row = ie_task_id env" "t_status row = TASK_QUEUED" "t_payload_key row = pkey"
        "t_file_names row = ?names" "task_ok row"
        using Inr rd by (auto simp: create_queued_task_def Let_def new_task_def task_ok_def TASK_STATUSES_TERMINAL_def
            split: sum.splits)
      have "r = Inr ()" "s' = s1" "d' = d1" using assms(3) st \<open>q = Inr pkey\<close> Inr rd by (auto simp: create_task_with_payload_def)
      then show ?thesis using row insert_task [OF row(2)] stored rebuilt pkey by (auto simp: durable_def)
    qed
  qed
qed

lemma ingest_payload_effect:
  assumes "object_store st contents"
    and "\<And>u. u \<in> set (mp_uploads p) \<Longrightarrow> sanitize_client_filename (su_upload_name u) = Inr (su_upload_name u)"
    and "ingest_payload (Some st) cfg env source nocache p s d = (r, s', d')"
  shows "other_tables d d' \<and> (case r of Inl _ \<Rightarrow> db_tasks d' = db_tasks d
    | Inr result \<Rightarrow> \<exists>row. db_tasks d' = db_tasks d @ [row] \<and> task_ok row \<and> ir_task_id result = ie_task_id env
        \<and> durable contents s' p result row)"
proof (cases "validate_http_client_policy env p")
  case (Inl e)
  then show ?thesis using assms(3) by (auto simp: ingest_payload_def)
next
  case (Inr u)
  show ?thesis
  proof (cases "hash_staged_payload env cfg p")
    case (Inl e)
    then show ?thesis using assms(3) Inr by (auto simp: ingest_payload_def)
  next
    case (Inr ro)
    obtain records opts where ro: "ro = (records, opts)" by (cases ro)
    let ?names = "map su_upload_name (mp_uploads p)"
    let ?b = "option_get ''backend'' DEFAULT_BACKEND opts" and ?pm = "option_get ''parse_method'' DEFAULT_PARSE_METHOD opts"
    obtain q s1 d1 where res: "resolve_cache (Some st) cfg env records ?names opts ?b ?pm nocache s d = (q, s1, d1)"
      by (cases "resolve_cache (Some st) cfg env records ?names opts ?b ?pm nocache s d") auto
    note R = resolve_cache_effect [OF assms(1) res, of p]
    note D = assms(3) [unfolded ingest_payload_def Let_def \<open>validate_http_client_policy env p = Inr u\<close> Inr ro]
    show ?thesis
    proof (cases "\<exists>ck. q = Inr (ck, None)")
      case False
      then show ?thesis using D R res by (cases q) (auto split: option.splits)
    next
      case True
      then obtain ck where q: "q = Inr (ck, None)" by auto
      obtain c s2 d2 where new: "create_task_with_payload (Some st) cfg env p ?names ?b ?pm opts ck source s1 d1 = (c, s2, d2)"
        by (cases "create_task_with_payload (Some st) cfg env p ?names ?b ?pm opts ck source s1 d1") auto
      have base: "db_tasks d1 = db_tasks d" "other_tables d d1" using R q by auto
      note C = create_task_durable [OF assms(1,2) new, of "pending_response (ie_task_id env) source"]
      show ?thesis using D res q new C base by (cases c) (auto intro: other_tables_trans)
    qed
  qed
qed

lemma ingest_task_effect:
  assumes "object_store st contents"
    and "ingest_task (Some st) cfg env staging source nocache form s d = (r, s', d')"
  shows "(case r of Inl _ \<Rightarrow> db_tasks d' = db_tasks d
      | Inr result \<Rightarrow> \<exists>p row. stage_bounded_multipart_request cfg staging form = Inr p
          \<and> db_tasks d' = db_tasks d @ [row] \<and> task_ok row \<and> ir_task_id result = ie_task_id env \<and> durable contents s' p result row)
    \<and> other_tables d d'"
proof (cases "stage_bounded_multipart_request cfg staging form")
  case (Inl e)
  then show ?thesis using assms(2) by (auto simp: ingest_task_def)
next
  case (Inr p)
  show ?thesis
  proof (cases "rewrite_staged_uploads p")
    case (Inl e)
    then show ?thesis using assms(2) Inr by (auto simp: ingest_task_def)
  next
    case (Inr q)
    note A = rewrite_accepted [OF Inr]
    have "ingest_payload (Some st) cfg env source nocache q s d = (r, s', d')"
      using assms(2) Inr \<open>stage_bounded_multipart_request cfg staging form = Inr p\<close> by (simp add: ingest_task_def)
    from ingest_payload_effect [OF assms(1) A(2) this] show ?thesis
      using A(1) \<open>stage_bounded_multipart_request cfg staging form = Inr p\<close> by (cases r) auto
  qed
qed

lemma ingest_task_id:
  assumes "object_store st contents"
    and "ingest_task (Some st) cfg env staging source nocache form s d = (Inr result, s', d')"
  shows "ir_task_id result = ie_task_id env"
  using ingest_task_effect [OF assms] by auto

subsection \<open>Base64\<close>

text \<open>What a client sends: the standard encoding with padding.\<close>

definition b64_char :: "nat \<Rightarrow> char" where
  "b64_char n = char_of (if n < 26 then n + 65 else if n < 52 then n + 71 else if n < 62 then n - 4
     else if n = 62 then 43 else (47::nat))"

fun b64encode :: "bytes \<Rightarrow> string" where
  "b64encode [] = []"
| "b64encode [a] = [b64_char (unat a div 4), b64_char (unat a mod 4 * 16), CHR ''='', CHR ''='']"
| "b64encode [a, b] = [b64_char (unat a div 4), b64_char (unat a mod 4 * 16 + unat b div 16),
     b64_char (unat b mod 16 * 4), CHR ''='']"
| "b64encode (a # b # c # rest) = [b64_char (unat a div 4), b64_char (unat a mod 4 * 16 + unat b div 16),
     b64_char (unat b mod 16 * 4 + unat c div 64), b64_char (unat c mod 64)] @ b64encode rest"

lemma b64_code:
  assumes "n < 64"
  shows "of_char (b64_char n) = (if n < 26 then n + 65 else if n < 52 then n + 71 else if n < 62 then n - 4
     else if n = 62 then 43 else (47::nat))"
  using assms by (simp add: b64_char_def of_char_of)

lemma b64_value_char:
  assumes "n < 64"
  shows "b64_value (b64_char n) = Some n" "b64_char n \<noteq> CHR ''=''" "\<not> py_isspace (b64_char n)"
proof -
  show some: "b64_value (b64_char n) = Some n"
    using assms by (simp add: b64_value_def b64_code Let_def split: if_splits) presburger
  have "b64_value CHR ''='' = None" by (simp add: b64_value_def)
  then show "b64_char n \<noteq> CHR ''=''" using some by fastforce
  show "\<not> py_isspace (b64_char n)"
    using assms by (auto simp: py_isspace_def b64_code Let_def split: if_splits)
qed

lemma byte_bound: "unat (a :: 8 word) < 256"
  using unsigned_less [of a, where 'a = nat] by simp

lemma b64_sextets:
  fixes a b c :: "8 word"
  shows "unat a div 4 < 64" "unat a mod 4 * 16 + unat b div 16 < 64" "unat a mod 4 * 16 < 64"
    "unat b mod 16 * 4 + unat c div 64 < 64" "unat b mod 16 * 4 < 64" "unat c mod 64 < 64"
    "(unat a mod 4 * 16 + unat b div 16) div 16 = unat a mod 4" "(unat a mod 4 * 16 + unat b div 16) mod 16 = unat b div 16"
    "(unat b mod 16 * 4 + unat c div 64) div 4 = unat b mod 16" "(unat b mod 16 * 4 + unat c div 64) mod 4 = unat c div 64"
    "unat b div 16 mod 16 = unat b div 16" "unat c div 64 mod 4 = unat c div 64"
proof -
  have d: "unat a div 4 < 64" "unat b div 16 < 16" "unat c div 64 < 4"
    using byte_bound [of a] byte_bound [of b] byte_bound [of c] by (simp_all add: less_mult_imp_div_less)
  have m: "unat a mod 4 < 4" "unat b mod 16 < 16" "unat c mod 64 < 64" by simp_all
  show "unat a div 4 < 64" "unat a mod 4 * 16 + unat b div 16 < 64" "unat a mod 4 * 16 < 64"
    "unat b mod 16 * 4 + unat c div 64 < 64" "unat b mod 16 * 4 < 64" "unat c mod 64 < 64"
    using d m by linarith+
  show "(unat a mod 4 * 16 + unat b div 16) div 16 = unat a mod 4" "(unat a mod 4 * 16 + unat b div 16) mod 16 = unat b div 16"
    "(unat b mod 16 * 4 + unat c div 64) div 4 = unat b mod 16" "(unat b mod 16 * 4 + unat c div 64) mod 4 = unat c div 64"
    "unat b div 16 mod 16 = unat b div 16" "unat c div 64 mod 4 = unat c div 64"
    using d by simp_all
qed

lemma byte_parts:
  fixes a :: "8 word"
  shows "word_of_nat (unat a div k * k + unat a mod k) = a"
  by (simp only: div_mult_mod_eq) simp

lemma b64_roundtrip: "b64decode (b64encode data) = Some data"
proof (induction data rule: b64encode.induct)
  case (2 a)
  then show ?case using byte_parts [of a 4] by (simp add: b64_value_char b64_sextets)
next
  case (3 a b)
  then show ?case using byte_parts [of a 4] byte_parts [of b 16] by (simp add: b64_value_char b64_sextets)
next
  case (4 a b c rest)
  then show ?case using byte_parts [of a 4] byte_parts [of b 16] byte_parts [of c 64]
    by (simp add: b64_value_char b64_sextets)
qed simp

lemma b64encode_length: "length (b64encode data) = 4 * ((length data + 2) div 3)"
proof (induction data rule: b64encode.induct)
  case (4 a b c rest)
  have "(5 + length rest) div 3 = Suc (Suc (Suc (length rest)) div 3)" by presburger
  then show ?case using 4 by simp
qed simp_all

lemma b64encode_no_space: "list_all (\<lambda>c. \<not> py_isspace c) (b64encode data)"
  by (induction data rule: b64encode.induct) (simp_all add: b64_value_char b64_sextets, simp_all add: py_isspace_def)

lemma b64encode_strip: "py_strip (b64encode data) = b64encode data"
proof -
  have id: "dropWhile py_isspace xs = xs" if "list_all (\<lambda>c. \<not> py_isspace c) xs" for xs
    using that by (cases xs) auto
  have "list_all (\<lambda>c. \<not> py_isspace c) (rev (b64encode data))" using b64encode_no_space [of data] by simp
  then show ?thesis using b64encode_no_space [of data] by (simp add: py_strip_def id)
qed

subsection \<open>Example\<close>

definition example_form :: "form_item list" where
  "example_form = [FieldItem ''backend'' ''pipeline'',
     FileItem ''files'' (Some ''a.pdf'') (Some ''application/pdf'') [1, 2, 3]]"

definition example_ingest_env :: ingest_env where
  "example_ingest_env = \<lparr>ie_field = (\<lambda>fs k. map_of fs k), ie_policy = (\<lambda>_ _. Inr ()), ie_sha256 = (\<lambda>_. ''ab12''),
     ie_now = 5, ie_task_id = ''t1'', ie_race = None\<rparr>"

definition plain_staging :: stage_env where
  "plain_staging = \<lparr>sg_temp_dir = Inr [''tmp''], sg_form = None, sg_anonymous = (\<lambda>_. []), sg_normalize = Inr,
     sg_open = (\<lambda>_ _. None), sg_read = (\<lambda>_ _. None), sg_write = (\<lambda>_ _. None), sg_close = (\<lambda>_. None)\<rparr>"

lemma plain_staging_faultless: "\<not> staging_error plain_staging e"
  by (simp add: staging_error_def plain_staging_def)

lemma example_chunks: "bounded_chunks default_settings t (stream_chunks READ_CHUNK_SIZE [1, 2, 3]) = Inr (stream_chunks READ_CHUNK_SIZE [1, 2, 3])"
  if "t \<le> 100"
  by (rule bounded_chunks_ok)
    (use that in \<open>simp add: chunks_concat effective_file_size_limit_def default_settings_def MAX_FILE_SIZE_HARD_BYTES_def\<close>)

lemma example_limit: "3 \<le> effective_file_size_limit default_settings"
  by (simp add: effective_file_size_limit_def default_settings_def MAX_FILE_SIZE_HARD_BYTES_def)

lemma example_form_staged: "stage_bounded_multipart_request default_settings plain_staging example_form = Inr example_payload"
proof (cases "stage_bounded_multipart_request default_settings plain_staging example_form")
  case (Inl e)
  then show ?thesis
    using stage_request_result [where cfg = default_settings and env = plain_staging and items = example_form] example_limit plain_staging_faultless
    by (simp add: example_form_def)
next
  case (Inr p)
  then show ?thesis
    using stage_request_result [where cfg = default_settings and env = plain_staging and items = example_form]
    by (cases p) (simp add: example_form_def example_payload_def text_or_def)
qed

lemma example_ingest:
  "\<exists>s' d'. ingest_task (Some (S3ObjectStore memory_client ''b'')) default_settings example_ingest_env plain_staging ''tasks'' True
     example_form Map.empty empty_db = (Inr \<lparr>ir_task_id = ''t1'', ir_cache_hit = False, ir_status = TASK_QUEUED,
       ir_response = pending_response ''t1'' ''tasks''\<rparr>, s', d')
     \<and> (\<exists>row. db_tasks d' = [row] \<and> t_task_id row = ''t1'' \<and> t_status row = TASK_QUEUED \<and> t_client_expired_at row = None)"
proof -
  obtain blob where blob: "pack_payload default_settings example_payload = Inr blob" using example_payload_packs ..
  have hash: "\<exists>records opts. hash_staged_payload example_ingest_env default_settings example_payload = Inr (records, opts)"
    by (simp add: hash_staged_payload_def example_payload_def compute_file_records_from_paths_def hash_file_at_path_def
        iter_bounded_file_def example_chunks)
  then show ?thesis
    by (auto simp: ingest_task_def example_form_staged example_payload_accepted ingest_payload_def
        validate_http_client_policy_def resolve_cache_def create_task_with_payload_def store_payload_def blob
        example_ingest_env_def create_queued_task_def db_insert_def empty_db_def new_task_def Let_def
        S3ObjectStore_def s3_put_def memory_client_def)
qed

section \<open>Properties\<close>

text \<open>C2: Accepting a request is durable and rejecting it is atomic. When the gateway answers with a
  task id, exactly one row was added: for a cache hit a completed task whose result object exists, and
  otherwise a queued task whose payload object rebuilds to exactly the staged form, so the scheduler
  can dispatch what the client sent. When it answers with an error, at any stage, no task row was
  added or changed. In both cases workers and scaling events are untouched and keys stay unique.\<close>

theorem ingest_durable_or_rejected:
  assumes "object_store st contents"
    and "ingest_task (Some st) cfg env staging source nocache form s d = (r, s', d')"
  shows "(case r of Inl _ \<Rightarrow> db_tasks d' = db_tasks d
      | Inr result \<Rightarrow> \<exists>p row. stage_bounded_multipart_request cfg staging form = Inr p
          \<and> db_tasks d' = db_tasks d @ [row] \<and> ir_task_id result = ie_task_id env \<and> durable contents s' p result row)
    \<and> other_tables d d'"
  using ingest_task_effect [OF assms] by (cases r) auto

theorem ingest_durable_or_rejected_witness:
  "\<exists>result s' d' row. ingest_task (Some (S3ObjectStore memory_client ''b'')) default_settings example_ingest_env plain_staging ''tasks'' True
     example_form Map.empty empty_db = (Inr result, s', d') \<and> db_tasks d' = [row]
     \<and> durable (\<lambda>s k. s (''b'', k)) s' example_payload result row"
proof -
  obtain result s' d' where run: "ingest_task (Some (S3ObjectStore memory_client ''b'')) default_settings example_ingest_env
      plain_staging ''tasks'' True example_form Map.empty empty_db = (Inr result, s', d')"
    using example_ingest by blast
  from ingest_durable_or_rejected [OF memory.object_store_axioms run] run show ?thesis
    by (auto simp: example_form_staged empty_db_def)
qed

text \<open>C32: Staging keeps everything the client sent and enforces the limit on the whole form. The files are
  written to a temporary directory under names of their own, two uploads of the same name included,
  and a staged form has the fields of the request and its uploads, in order, each with its field, the
  name the client gave it (or a generated one), its content type, and, read back from its file when
  staging has ended, its content byte for byte; the files together are within the limit. Staging fails
  only with an exception of its surroundings (the directory, the form parser, MinerU's
  \<open>normalize_upload_filename\<close>, or opening, reading, writing or closing a file) or, when the files
  together are larger than the limit, with 413; so without such an exception it refuses exactly the
  forms that are too large.\<close>

theorem stage_bounded_multipart_request_correct:
  "case stage_bounded_multipart_request cfg staging form of
     Inr p \<Rightarrow> mp_fields p = form_fields form \<and> mp_uploads p = form_uploads staging 0 form
       \<and> form_bytes form \<le> effective_file_size_limit cfg
   | Inl e \<Rightarrow> staging_error staging e
       \<or> (effective_file_size_limit cfg < form_bytes form \<and> (\<exists>msg. e = OtherException (Some 413) msg))"
  by (rule stage_request_result)

text \<open>Two uploads of one name keep their contents.\<close>

theorem stage_bounded_multipart_request_correct_witness:
  "\<exists>p. stage_bounded_multipart_request default_settings plain_staging
      [FileItem ''files'' (Some ''a.pdf'') None [1], FileItem ''files'' (Some ''a.pdf'') None [2]] = Inr p
    \<and> map su_data (mp_uploads p) = [[1], [2]]"
proof -
  let ?form = "[FileItem ''files'' (Some ''a.pdf'') None [1], FileItem ''files'' (Some ''a.pdf'') None [2]]"
  note S = stage_bounded_multipart_request_correct [where cfg = default_settings and staging = plain_staging and form = ?form]
  show ?thesis
  proof (cases "stage_bounded_multipart_request default_settings plain_staging ?form")
    case (Inl e)
    then show ?thesis using S example_limit plain_staging_faultless by simp
  next
    case (Inr p)
    then show ?thesis using S by simp
  qed
qed

text \<open>C39: The limit on inline documents. A document in standard base64 is decoded to the client's bytes
  when its size rounded up to a multiple of three is within the limit, and refused with 413 otherwise:
  the estimate counts the padding, so a document that is within the limit but less than three bytes
  below a limit that is not a multiple of three can be refused, unlike the same document uploaded as a
  file.\<close>

theorem inline_document_limit:
  "decode_inline_file cfg (b64encode data) name =
     (if int (3 * ((length data + 2) div 3)) \<le> effective_file_size_limit cfg
      then Inr (Some data, text_or name ''document'')
      else Inl (file_too_large (int (3 * ((length data + 2) div 3))) (effective_file_size_limit cfg)))"
proof -
  have "estimated_size (b64encode data) = int (3 * ((length data + 2) div 3))"
    by (simp add: estimated_size_def b64encode_length)
  moreover have "length data \<le> 3 * ((length data + 2) div 3)" by presburger
  ultimately show ?thesis
    by (simp add: decode_inline_file_def b64encode_strip b64_roundtrip enforce_byte_limit_def Let_def)
qed

end
