(* ===== verification/Normalize.thy ===== *)
theory Normalize
  imports Complex_Main Json Config
begin

text \<open>
  \<^verbatim>\<open>protocol/normalize.py\<close> and the page models of \<^verbatim>\<open>protocol/ocr_models.py\<close>: from a result archive
  of MinerU to pages. A parsed JSON document is a Python value (\<open>pyval\<close>); every attribute access,
  iteration and conversion that Python would refuse is an \<open>Inl\<close>. Reading a zip archive, parsing JSON
  with floats and lossy UTF-8 decoding are arguments (\<open>zip_env\<close>).
\<close>

section \<open>Definitions\<close>

subsection \<open>Python values\<close>

datatype pyval = PNone | PBool bool | PInt int | PFloat rat | PNonFinite | PStr string
  | PList "pyval list" | PDict "(string \<times> pyval) list"

datatype norm_error = BadZipFile | JSONDecodeError | PyError string

record OCRPageImage =
  pi_id :: string
  pi_image_base64 :: "string option"
  pi_top_left_x :: "int option"
  pi_top_left_y :: "int option"
  pi_bottom_right_x :: "int option"
  pi_bottom_right_y :: "int option"
  pi_image_annotation :: "string option"

record OCRPage =
  pg_index :: int
  pg_markdown :: string
  pg_images :: "OCRPageImage list"
  pg_dimensions :: "(string \<times> int) list option"

fun py_truthy :: "pyval \<Rightarrow> bool" where
  "py_truthy PNone = False"
| "py_truthy (PBool b) = b"
| "py_truthy (PInt i) = (i \<noteq> 0)"
| "py_truthy (PFloat x) = (x \<noteq> 0)"
| "py_truthy PNonFinite = True"
| "py_truthy (PStr s) = (s \<noteq> [])"
| "py_truthy (PList xs) = (xs \<noteq> [])"
| "py_truthy (PDict kvs) = (kvs \<noteq> [])"

text \<open>\<open>a or b\<close>.\<close>

definition or_else :: "pyval \<Rightarrow> pyval \<Rightarrow> pyval" where
  "or_else a b = (if py_truthy a then a else b)"

text \<open>\<open>x.get(key, default)\<close>; only a dict has it.\<close>

fun dict_get :: "pyval \<Rightarrow> string \<Rightarrow> pyval \<Rightarrow> norm_error + pyval" where
  "dict_get (PDict kvs) key dflt = Inr (case map_of kvs key of Some v \<Rightarrow> v | None \<Rightarrow> dflt)"
| "dict_get _ key dflt = Inl (PyError ''AttributeError'')"

text \<open>\<open>x.get(a) or x.get(b) or default\<close>.\<close>

definition get_either :: "pyval \<Rightarrow> string \<Rightarrow> string \<Rightarrow> pyval \<Rightarrow> norm_error + pyval" where
  "get_either x a b dflt =
    (case (dict_get x a PNone, dict_get x b PNone) of
       (Inr va, Inr vb) \<Rightarrow> Inr (or_else va (or_else vb dflt))
     | (Inl e, _) \<Rightarrow> Inl e
     | (_, Inl e) \<Rightarrow> Inl e)"

text \<open>What a \<open>for\<close> loop runs over.\<close>

fun py_iter :: "pyval \<Rightarrow> norm_error + pyval list" where
  "py_iter (PList xs) = Inr xs"
| "py_iter (PStr s) = Inr (map (\<lambda>c. PStr [c]) s)"
| "py_iter (PDict kvs) = Inr (map (\<lambda>(k, _). PStr k) kvs)"
| "py_iter _ = Inl (PyError ''TypeError'')"

fun str_strip :: "pyval \<Rightarrow> norm_error + string" where
  "str_strip (PStr s) = Inr (py_strip s)"
| "str_strip _ = Inl (PyError ''AttributeError'')"

text \<open>\<open>int(x)\<close>: floats are truncated, strings parsed (sign, digits, single underscores between them).\<close>

fun digits_of :: "bool \<Rightarrow> int \<Rightarrow> string \<Rightarrow> int option" where
  "digits_of after_digit acc [] = (if after_digit then Some acc else None)"
| "digits_of after_digit acc (c # cs) =
    (if is_digit c then digits_of True (10 * acc + int (of_char c - 48)) cs
     else if c = CHR ''_'' \<and> after_digit \<and> cs \<noteq> [] then digits_of False acc cs
     else None)"

definition int_of_str :: "string \<Rightarrow> int option" where
  "int_of_str s =
    (case py_strip s of
       CHR ''-'' # cs \<Rightarrow> map_option uminus (digits_of False 0 cs)
     | CHR ''+'' # cs \<Rightarrow> digits_of False 0 cs
     | cs \<Rightarrow> digits_of False 0 cs)"

fun py_int :: "pyval \<Rightarrow> norm_error + int" where
  "py_int (PInt i) = Inr i"
| "py_int (PBool b) = Inr (if b then 1 else 0)"
| "py_int (PFloat x) = Inr (if x < 0 then \<lceil>x\<rceil> else \<lfloor>x\<rfloor>)"
| "py_int PNonFinite = Inl (PyError ''ValueError'')"
| "py_int (PStr s) = (case int_of_str s of Some i \<Rightarrow> Inr i | None \<Rightarrow> Inl (PyError ''ValueError''))"
| "py_int _ = Inl (PyError ''TypeError'')"

fun py_len :: "pyval \<Rightarrow> norm_error + nat" where
  "py_len (PList xs) = Inr (length xs)"
| "py_len (PStr s) = Inr (length s)"
| "py_len (PDict kvs) = Inr (length kvs)"
| "py_len _ = Inl (PyError ''TypeError'')"

text \<open>\<open>x[i]\<close> for a small non-negative index; the keys of a JSON object are strings.\<close>

fun py_index :: "pyval \<Rightarrow> nat \<Rightarrow> norm_error + pyval" where
  "py_index (PList xs) i = (if i < length xs then Inr (xs ! i) else Inl (PyError ''IndexError''))"
| "py_index (PStr s) i = (if i < length s then Inr (PStr [s ! i]) else Inl (PyError ''IndexError''))"
| "py_index (PDict kvs) i = Inl (PyError ''KeyError'')"
| "py_index _ i = Inl (PyError ''TypeError'')"

definition bind_sum :: "'e + 'a \<Rightarrow> ('a \<Rightarrow> 'e + 'b) \<Rightarrow> 'e + 'b" where
  "bind_sum r f = (case r of Inl e \<Rightarrow> Inl e | Inr x \<Rightarrow> f x)"

subsection \<open>Blocks\<close>

text \<open>The loop over the spans of one line, and over the lines: \<open>parts\<close> is what was collected.\<close>

fun span_parts :: "pyval list \<Rightarrow> pyval list \<Rightarrow> norm_error + pyval list" where
  "span_parts parts [] = Inr parts"
| "span_parts parts (sp # spans) =
    bind_sum (get_either sp ''content'' ''text'' (PStr []))
      (\<lambda>content. span_parts (if py_truthy content then parts @ [content] else parts) spans)"

fun line_parts :: "pyval list \<Rightarrow> pyval list \<Rightarrow> norm_error + pyval list" where
  "line_parts parts [] = Inr parts"
| "line_parts parts (line # lines) =
    bind_sum (dict_get line ''spans'' PNone)
      (\<lambda>spans. bind_sum (py_iter (or_else spans (PList [])))
        (\<lambda>spans. bind_sum (span_parts parts spans) (\<lambda>parts. line_parts parts lines)))"

text \<open>\<open>" ".join(parts)\<close>.\<close>

fun strings_of :: "pyval list \<Rightarrow> norm_error + string list" where
  "strings_of [] = Inr []"
| "strings_of (PStr s # vs) = map_sum id (\<lambda>ss. s # ss) (strings_of vs)"
| "strings_of (_ # vs) = Inl (PyError ''TypeError'')"

definition extract_block_text :: "pyval \<Rightarrow> norm_error + string" where
  "extract_block_text block =
    bind_sum (dict_get block ''lines'' PNone) (\<lambda>lines.
    bind_sum (py_iter (or_else lines (PList []))) (\<lambda>lines.
    bind_sum (line_parts [] lines) (\<lambda>parts.
    bind_sum (strings_of parts) (\<lambda>parts.
      let text = py_strip (join '' '' parts) in
      if text \<noteq> [] then Inr text
      else bind_sum (get_either block ''text'' ''content'' (PStr [])) str_strip))))"

definition include_images :: "pyval \<Rightarrow> norm_error + bool" where
  "include_images block =
    bind_sum (get_either block ''blocks'' ''img_caption'' PNone) (\<lambda>a.
    bind_sum (dict_get block ''image_body'' PNone) (\<lambda>b. Inr (py_truthy (or_else a b))))"

definition corner :: "pyval \<Rightarrow> nat \<Rightarrow> nat \<Rightarrow> norm_error + int option" where
  "corner bbox n i =
    (if i < n then bind_sum (py_index bbox i) (\<lambda>v. map_sum id Some (py_int v)) else Inr None)"

definition extract_image :: "pyval \<Rightarrow> nat \<Rightarrow> norm_error + OCRPageImage" where
  "extract_image block idx =
    bind_sum (dict_get block ''bbox'' PNone) (\<lambda>bbox.
      let bbox = or_else bbox (PList [PInt 0, PInt 0, PInt 0, PInt 0]) in
      bind_sum (py_len bbox) (\<lambda>n.
      bind_sum (corner bbox n 0) (\<lambda>x0.
      bind_sum (corner bbox n 1) (\<lambda>y0.
      bind_sum (corner bbox n 2) (\<lambda>x1.
      bind_sum (corner bbox n 3) (\<lambda>y1.
        Inr \<lparr>pi_id = ''img-'' @ show_nat idx, pi_image_base64 = None, pi_top_left_x = x0, pi_top_left_y = y0,
             pi_bottom_right_x = x1, pi_bottom_right_y = y1, pi_image_annotation = None\<rparr>))))))"

subsection \<open>Pages\<close>

text \<open>The loop over the blocks of a page. An unhashable or odd block type equals none of the names.\<close>

definition type_in :: "pyval \<Rightarrow> string list \<Rightarrow> bool" where
  "type_in btype names = (case btype of PStr s \<Rightarrow> s \<in> set names | _ \<Rightarrow> False)"

fun page_blocks ::
    "string list \<Rightarrow> OCRPageImage list \<Rightarrow> pyval list \<Rightarrow> norm_error + string list \<times> OCRPageImage list" where
  "page_blocks md images [] = Inr (md, images)"
| "page_blocks md images (block # blocks) =
    bind_sum (dict_get block ''type'' (PStr [])) (\<lambda>btype.
    bind_sum (extract_block_text block) (\<lambda>text.
      let md = (if text = [] then md
                else if type_in btype [''table'', ''image'', ''figure'']
                then md @ [[CHR 10, CHR 10] @ text @ [CHR 10, CHR 10]]
                else md @ [text])
      in bind_sum (if type_in btype [''image'', ''figure''] then include_images block else Inr False) (\<lambda>with_image.
         if with_image
         then bind_sum (extract_image block (length images)) (\<lambda>img. page_blocks md (images @ [img]) blocks)
         else page_blocks md images blocks)))"

definition page_dimensions :: "pyval \<Rightarrow> norm_error + (string \<times> int) list option" where
  "page_dimensions page_size =
    (case page_size of
       PList (w # h # rest) \<Rightarrow>
         bind_sum (py_int w) (\<lambda>w. bind_sum (py_int h) (\<lambda>h.
           Inr (Some [(''dpi'', 72), (''width'', w), (''height'', h)])))
     | _ \<Rightarrow> Inr None)"

definition is_dict :: "pyval \<Rightarrow> bool" where
  "is_dict v = (case v of PDict _ \<Rightarrow> True | _ \<Rightarrow> False)"

definition normalize_page :: "pyval \<Rightarrow> nat \<Rightarrow> norm_error + OCRPage" where
  "normalize_page page page_idx =
    bind_sum (if is_dict page then dict_get page ''page_idx'' (PInt (int page_idx)) else Inr (PInt (int page_idx))) (\<lambda>idx.
    bind_sum (if is_dict page then get_either page ''page_size'' ''size'' (PList [PInt 0, PInt 0])
              else Inr (PList [PInt 0, PInt 0])) (\<lambda>page_size.
    bind_sum (page_dimensions page_size) (\<lambda>dims.
    bind_sum (if is_dict page then get_either page ''blocks'' ''para_blocks'' (PList []) else Inr (PList [])) (\<lambda>blocks.
    bind_sum (py_iter blocks) (\<lambda>blocks.
    bind_sum (page_blocks [] [] blocks) (\<lambda>(md_parts, images).
    bind_sum (py_int idx) (\<lambda>i.
      Inr \<lparr>pg_index = i, pg_markdown = py_strip (join '' '' md_parts), pg_images = images, pg_dimensions = dims\<rparr>)))))))"

fun normalize_pages :: "nat \<Rightarrow> pyval list \<Rightarrow> norm_error + OCRPage list" where
  "normalize_pages i [] = Inr []"
| "normalize_pages i (page # pages) =
    bind_sum (normalize_page page i) (\<lambda>p. map_sum id (\<lambda>ps. p # ps) (normalize_pages (Suc i) pages))"

definition normalize_middle_json :: "pyval \<Rightarrow> norm_error + OCRPage list" where
  "normalize_middle_json middle =
    bind_sum (get_either middle ''pdf_info'' ''_pdf_info'' (PList [])) (\<lambda>pdf_info.
    bind_sum (py_iter pdf_info) (normalize_pages 0))"

definition normalize_markdown :: "string \<Rightarrow> OCRPage list" where
  "normalize_markdown markdown = [\<lparr>pg_index = 0, pg_markdown = markdown, pg_images = [], pg_dimensions = None\<rparr>]"

subsection \<open>Archives\<close>

text \<open>\<open>ze_members\<close>: the names of the archive in order, each with the result of reading it.\<close>

record zip_env =
  ze_members :: "bytes \<Rightarrow> norm_error + (string \<times> (norm_error + bytes)) list"
  ze_loads :: "bytes \<Rightarrow> norm_error + pyval"
  ze_decode :: "bytes \<Rightarrow> string"

text \<open>The dict that is filled: \<open>middle_json\<close>, \<open>markdown\<close> and \<open>extra_md\<close>. No name written to it is
  \<open>full.md\<close>, so the test for that key never fails.\<close>

record extracted =
  ex_middle_json :: "pyval option"
  ex_markdown :: "string option"
  ex_extra_md :: "string list"

definition extracted_keys :: "extracted \<Rightarrow> string list" where
  "extracted_keys r = (if ex_middle_json r \<noteq> None then [''middle_json''] else [])
     @ (if ex_markdown r \<noteq> None then [''markdown''] else []) @ (if ex_extra_md r \<noteq> [] then [''extra_md''] else [])"

definition ends_with :: "string \<Rightarrow> string \<Rightarrow> bool" where
  "ends_with suffix s = (length suffix \<le> length s \<and> drop (length s - length suffix) s = suffix)"

fun extract_members ::
    "zip_env \<Rightarrow> extracted \<Rightarrow> (string \<times> (norm_error + bytes)) list \<Rightarrow> norm_error + extracted" where
  "extract_members env result [] = Inr result"
| "extract_members env result ((name, contents) # members) =
    (if ends_with ''/'' name then extract_members env result members
     else bind_sum contents (\<lambda>data.
       if ends_with ''middle.json'' name
       then bind_sum (ze_loads env data) (\<lambda>v. extract_members env (result\<lparr>ex_middle_json := Some v\<rparr>) members)
       else if ends_with ''.md'' name \<and> ''full.md'' \<notin> set (extracted_keys result)
       then extract_members env (result\<lparr>ex_markdown := Some (ze_decode env data)\<rparr>) members
       else if ends_with ''.md'' name
       then extract_members env (result\<lparr>ex_extra_md := ex_extra_md result @ [ze_decode env data]\<rparr>) members
       else extract_members env result members))"

definition extract_from_zip :: "zip_env \<Rightarrow> bytes \<Rightarrow> norm_error + extracted" where
  "extract_from_zip env zip_bytes =
    bind_sum (ze_members env zip_bytes)
      (extract_members env \<lparr>ex_middle_json = None, ex_markdown = None, ex_extra_md = []\<rparr>)"

definition fallback_pages :: "string option \<Rightarrow> OCRPage list" where
  "fallback_pages markdown_fallback =
    (if truthy markdown_fallback then normalize_markdown (the markdown_fallback) else normalize_markdown [])"

definition normalize_result :: "zip_env \<Rightarrow> bytes option \<Rightarrow> string option \<Rightarrow> norm_error + OCRPage list" where
  "normalize_result env zip_bytes markdown_fallback =
    (case zip_bytes of
       Some (b # bs) \<Rightarrow>
         (let attempt = bind_sum (extract_from_zip env (b # bs)) (\<lambda>extracted.
            (case ex_middle_json extracted of
               Some middle \<Rightarrow> map_sum id Some (normalize_middle_json middle)
             | None \<Rightarrow> Inr (map_option normalize_markdown (ex_markdown extracted))))
          in case attempt of
               Inr (Some pages) \<Rightarrow> Inr pages
             | Inr None \<Rightarrow> Inr (fallback_pages markdown_fallback)
             | Inl BadZipFile \<Rightarrow> Inr (fallback_pages markdown_fallback)
             | Inl JSONDecodeError \<Rightarrow> Inr (fallback_pages markdown_fallback)
             | Inl (PyError e) \<Rightarrow> Inl (PyError e))
     | _ \<Rightarrow> Inr (fallback_pages markdown_fallback))"

section \<open>Lemmas\<close>

text \<open>The documents MinerU writes: what a block, a page and a whole document may hold.\<close>

definition field_ok :: "(pyval \<Rightarrow> bool) \<Rightarrow> string \<Rightarrow> pyval \<Rightarrow> bool" where
  "field_ok P key v = (case v of PDict kvs \<Rightarrow> (case map_of kvs key of None \<Rightarrow> True | Some x \<Rightarrow> x = PNone \<or> P x) | _ \<Rightarrow> False)"

definition is_str :: "pyval \<Rightarrow> bool" where
  "is_str v = (case v of PStr _ \<Rightarrow> True | _ \<Rightarrow> False)"

definition is_number :: "pyval \<Rightarrow> bool" where
  "is_number v = (case v of PInt _ \<Rightarrow> True | PFloat _ \<Rightarrow> True | _ \<Rightarrow> False)"

definition list_of :: "(pyval \<Rightarrow> bool) \<Rightarrow> pyval \<Rightarrow> bool" where
  "list_of P v = (case v of PList xs \<Rightarrow> list_all P xs | _ \<Rightarrow> False)"

definition span_ok :: "pyval \<Rightarrow> bool" where
  "span_ok v \<longleftrightarrow> field_ok is_str ''content'' v \<and> field_ok is_str ''text'' v"

definition line_ok :: "pyval \<Rightarrow> bool" where
  "line_ok v \<longleftrightarrow> field_ok (list_of span_ok) ''spans'' v"

definition block_ok :: "pyval \<Rightarrow> bool" where
  "block_ok v \<longleftrightarrow> field_ok (list_of line_ok) ''lines'' v \<and> field_ok is_str ''text'' v \<and> field_ok is_str ''content'' v
     \<and> field_ok (list_of is_number) ''bbox'' v"

definition page_ok :: "pyval \<Rightarrow> bool" where
  "page_ok v \<longleftrightarrow> is_dict v \<longrightarrow>
     field_ok is_number ''page_idx'' v \<and> dict_get v ''page_idx'' (PInt 0) \<noteq> Inr PNone
     \<and> field_ok (list_of is_number) ''page_size'' v \<and> field_ok (list_of is_number) ''size'' v
     \<and> field_ok (list_of block_ok) ''blocks'' v \<and> field_ok (list_of block_ok) ''para_blocks'' v"

definition document_ok :: "pyval \<Rightarrow> bool" where
  "document_ok v \<longleftrightarrow> field_ok (list_of page_ok) ''pdf_info'' v \<and> field_ok (list_of page_ok) ''_pdf_info'' v"

lemmas value_splits = pyval.splits option.splits list.splits

lemma bind_sum_simps [simp]: "bind_sum (Inr x) f = f x" "bind_sum (Inl e) f = Inl e"
  by (simp_all add: bind_sum_def)

lemma field_okE:
  assumes "field_ok P key v"
  obtains kvs where "v = PDict kvs" "\<And>x. map_of kvs key = Some x \<Longrightarrow> x = PNone \<or> P x"
  using assms by (auto simp: field_ok_def split: pyval.splits option.splits)

lemma get_field:
  assumes "field_ok P key v"
  shows "\<exists>x. dict_get v key PNone = Inr x \<and> (x = PNone \<or> P x)"
  using assms by (rule field_okE) (auto split: option.splits)

lemma get_either_ok:
  assumes "field_ok P a v" and "field_ok P b v" and "P dflt"
  shows "\<exists>x. get_either v a b dflt = Inr x \<and> P x"
proof -
  obtain x y where "dict_get v a PNone = Inr x" "x = PNone \<or> P x" "dict_get v b PNone = Inr y" "y = PNone \<or> P y"
    using get_field [OF assms(1)] get_field [OF assms(2)] by blast
  then show ?thesis using assms(3) by (auto simp: get_either_def or_else_def)
qed

lemma iter_list: "list_of P v \<Longrightarrow> \<exists>xs. v = PList xs \<and> py_iter v = Inr xs \<and> list_all P xs"
  by (auto simp: list_of_def split: pyval.splits)

lemma iter_field:
  assumes "field_ok (list_of P) key v"
  shows "\<exists>x xs. dict_get v key PNone = Inr x \<and> py_iter (or_else x (PList [])) = Inr xs \<and> list_all P xs"
proof -
  obtain x where x: "dict_get v key PNone = Inr x" "x = PNone \<or> list_of P x" using get_field [OF assms] by blast
  then consider "x = PNone" | xs where "x = PList xs" "list_all P xs" by (auto simp: list_of_def split: pyval.splits)
  then show ?thesis using x(1) by cases (auto simp: or_else_def)
qed

lemma span_parts_ok: "list_all span_ok spans \<Longrightarrow> list_all is_str parts \<Longrightarrow> \<exists>ps. span_parts parts spans = Inr ps \<and> list_all is_str ps"
proof (induction parts spans rule: span_parts.induct)
  case (2 parts sp spans)
  obtain c where c: "get_either sp ''content'' ''text'' (PStr []) = Inr c" "is_str c"
    using get_either_ok [of is_str "''content''" sp "''text''" "PStr []"] "2.prems"
    by (auto simp: span_ok_def is_str_def)
  show ?case using "2.IH" [of c] "2.prems" c by auto
qed auto

lemma line_parts_ok: "list_all line_ok lines \<Longrightarrow> list_all is_str parts \<Longrightarrow> \<exists>ps. line_parts parts lines = Inr ps \<and> list_all is_str ps"
proof (induction lines arbitrary: parts)
  case (Cons line lines)
  obtain x spans where x: "dict_get line ''spans'' PNone = Inr x" "py_iter (or_else x (PList [])) = Inr spans" "list_all span_ok spans"
    using iter_field [of span_ok "''spans''" line] Cons.prems by (auto simp: line_ok_def)
  obtain ps where "span_parts parts spans = Inr ps" "list_all is_str ps" using span_parts_ok [OF x(3) Cons.prems(2)] by blast
  then show ?case using Cons.IH [of ps] Cons.prems x by auto
qed auto

lemma strings_of_ok: "list_all is_str vs \<Longrightarrow> \<exists>ss. strings_of vs = Inr ss"
  by (induction vs rule: strings_of.induct) (auto simp: is_str_def)

lemma block_text_ok:
  assumes "block_ok block" shows "\<exists>text. extract_block_text block = Inr text"
proof -
  obtain x lines where x: "dict_get block ''lines'' PNone = Inr x" "py_iter (or_else x (PList [])) = Inr lines" "list_all line_ok lines"
    using iter_field [of line_ok "''lines''" block] assms by (auto simp: block_ok_def)
  obtain ps ss where p: "line_parts [] lines = Inr ps" "strings_of ps = Inr ss"
    using line_parts_ok [OF x(3), of "[]"] strings_of_ok by fastforce
  obtain c where c: "get_either block ''text'' ''content'' (PStr []) = Inr c" "is_str c"
    using get_either_ok [of is_str "''text''" block "''content''" "PStr []"] assms by (auto simp: block_ok_def is_str_def)
  then obtain t where "c = PStr t" by (auto simp: is_str_def split: pyval.splits)
  then show ?thesis using x p c by (simp add: extract_block_text_def Let_def)
qed

lemma int_num: "is_number v \<Longrightarrow> \<exists>i. py_int v = Inr i"
  by (cases v) (simp_all add: is_number_def)

lemma corner_ok: "list_all is_number xs \<Longrightarrow> \<exists>c. corner (PList xs) (length xs) i = Inr c"
  using int_num [of "xs ! i"] by (auto simp: corner_def list_all_length)

lemma extract_image_ok:
  assumes "block_ok block" shows "\<exists>img. extract_image block idx = Inr img \<and> pi_id img = ''img-'' @ show_nat idx"
proof -
  obtain b where b: "dict_get block ''bbox'' PNone = Inr b" "b = PNone \<or> list_of is_number b"
    using get_field [of "list_of is_number" "''bbox''" block] assms by (auto simp: block_ok_def)
  let ?zero = "[PInt 0, PInt 0, PInt 0, PInt 0]"
  have "list_all is_number ?zero" by (simp add: is_number_def)
  then obtain xs where xs: "or_else b (PList ?zero) = PList xs" "list_all is_number xs"
    using b(2) iter_list [of is_number b] by (cases "py_truthy b") (auto simp: or_else_def)
  show ?thesis using b(1) xs corner_ok [OF xs(2), of 0] corner_ok [OF xs(2), of 1] corner_ok [OF xs(2), of 2] corner_ok [OF xs(2), of 3]
    by (auto simp: extract_image_def Let_def)
qed

lemma page_blocks_ok:
  "list_all block_ok blocks \<Longrightarrow> \<exists>md' images'. page_blocks md images blocks = Inr (md', images')
     \<and> (map pi_id images = map (\<lambda>i. ''img-'' @ show_nat i) [0..<length images]
        \<longrightarrow> map pi_id images' = map (\<lambda>i. ''img-'' @ show_nat i) [0..<length images'])"
proof (induction blocks arbitrary: md images)
  case (Cons block blocks)
  then have ok: "block_ok block" and rest: "list_all block_ok blocks" by simp_all
  obtain kvs where kvs: "block = PDict kvs" using ok by (auto simp: block_ok_def elim: field_okE)
  then obtain ty where ty: "dict_get block ''type'' (PStr []) = Inr ty" by simp
  obtain t where t: "extract_block_text block = Inr t" using block_text_ok [OF ok] by blast
  obtain w where w: "include_images block = Inr w" using kvs by (simp add: include_images_def get_either_def)
  obtain img where img: "extract_image block (length images) = Inr img" "pi_id img = ''img-'' @ show_nat (length images)"
    using extract_image_ok [OF ok] by blast
  show ?case
  proof (cases "type_in ty [''image'', ''figure''] \<and> w")
    case True
    then show ?thesis using Cons.IH [OF rest, of _ "images @ [img]"] ty t w img by (simp add: Let_def)
  next
    case False
    then show ?thesis using Cons.IH [OF rest, of _ images] ty t w by (auto simp: Let_def)
  qed
qed auto

lemma page_dimensions_ok: "list_of is_number v \<Longrightarrow> \<exists>dims. page_dimensions v = Inr dims"
proof -
  assume "list_of is_number v"
  then obtain xs where xs: "v = PList xs" "list_all is_number xs" using iter_list by blast
  show ?thesis
  proof (cases "\<exists>w h rest. xs = w # h # rest")
    case True
    then obtain w h rest where "xs = w # h # rest" by blast
    moreover obtain i j where "py_int w = Inr i" "py_int h = Inr j" using xs(2) calculation int_num by fastforce
    ultimately show ?thesis using xs by (simp add: page_dimensions_def)
  qed (use xs in \<open>auto simp: page_dimensions_def split: list.splits\<close>)
qed

lemma normalize_page_ok:
  assumes "page_ok page"
  shows "\<exists>p. normalize_page page i = Inr p \<and> map pi_id (pg_images p) = map (\<lambda>j. ''img-'' @ show_nat j) [0..<length (pg_images p)]"
proof (cases "is_dict page")
  case False
  then show ?thesis by (auto simp: normalize_page_def page_dimensions_def)
next
  case True
  then have fields: "field_ok is_number ''page_idx'' page" "dict_get page ''page_idx'' (PInt 0) \<noteq> Inr PNone"
    "field_ok (list_of is_number) ''page_size'' page" "field_ok (list_of is_number) ''size'' page"
    "field_ok (list_of block_ok) ''blocks'' page" "field_ok (list_of block_ok) ''para_blocks'' page"
    using assms by (simp_all add: page_ok_def)
  obtain ix where ix: "dict_get page ''page_idx'' (PInt (int i)) = Inr ix" "is_number ix"
    using fields(1,2) by (auto simp: is_number_def elim!: field_okE split: option.splits)
  obtain sz where sz: "get_either page ''page_size'' ''size'' (PList [PInt 0, PInt 0]) = Inr sz" "list_of is_number sz"
    using get_either_ok [OF fields(3,4), of "PList [PInt 0, PInt 0]"] by (auto simp: list_of_def is_number_def)
  obtain bs where bs: "get_either page ''blocks'' ''para_blocks'' (PList []) = Inr bs" "list_of block_ok bs"
    using get_either_ok [OF fields(5,6), of "PList []"] by (auto simp: list_of_def)
  obtain xs where xs: "py_iter bs = Inr xs" "list_all block_ok xs" using iter_list [OF bs(2)] by blast
  obtain dims n where "page_dimensions sz = Inr dims" "py_int ix = Inr n"
    using page_dimensions_ok [OF sz(2)] int_num [OF ix(2)] by blast
  then show ?thesis using True ix sz bs xs page_blocks_ok [OF xs(2), of "[]" "[]"] by (auto simp: normalize_page_def)
qed

lemma normalize_pages_ok:
  "list_all page_ok pages \<Longrightarrow> \<exists>ps. normalize_pages i pages = Inr ps \<and> length ps = length pages
     \<and> (\<forall>p \<in> set ps. map pi_id (pg_images p) = map (\<lambda>j. ''img-'' @ show_nat j) [0..<length (pg_images p)])"
proof (induction pages arbitrary: i)
  case (Cons page pages)
  obtain p where p: "normalize_page page i = Inr p"
    "map pi_id (pg_images p) = map (\<lambda>j. ''img-'' @ show_nat j) [0..<length (pg_images p)]"
    using normalize_page_ok [of page i] Cons.prems by auto
  then show ?case using Cons.IH [of "Suc i"] Cons.prems by auto
qed simp

text \<open>The markdown members of an archive, in order.\<close>

definition md_members :: "(string \<times> (norm_error + bytes)) list \<Rightarrow> bytes list" where
  "md_members members = concat (map (\<lambda>(name, contents). case contents of
     Inr data \<Rightarrow> if ends_with ''.md'' name \<and> \<not> ends_with ''middle.json'' name \<and> \<not> ends_with ''/'' name then [data] else []
   | Inl _ \<Rightarrow> []) members)"

lemma extract_members_markdown:
  assumes "extract_members env r members = Inr r'"
  shows "ex_extra_md r' = ex_extra_md r
    \<and> ex_markdown r' = (if md_members members = [] then ex_markdown r else Some (ze_decode env (last (md_members members))))"
  using assms
proof (induction env r members rule: extract_members.induct)
  case (2 env r name contents members)
  have never: "''full.md'' \<notin> set (extracted_keys q)" for q by (simp add: extracted_keys_def)
  show ?case
  proof (cases "ends_with ''/'' name")
    case True
    then show ?thesis using "2.IH"(1) "2.prems" by (cases contents) (auto simp: md_members_def)
  next
    case False
    then obtain data where data: "contents = Inr data" using "2.prems" by (cases contents) auto
    show ?thesis
    proof (cases "ends_with ''middle.json'' name")
      case True
      then obtain v where "ze_loads env data = Inr v" using False data "2.prems" by (cases "ze_loads env data") auto
      then show ?thesis using "2.IH"(2) [OF False True] "2.prems" False True data by (simp add: md_members_def)
    next
      case nojson: False
      then show ?thesis using "2.IH"(3) [OF False] "2.IH"(5) [OF False] "2.prems" \<open>\<not> ends_with ''/'' name\<close> data never [of r]
        by (cases "ends_with ''.md'' name") (auto simp: md_members_def)
    qed
  qed
qed (simp add: md_members_def)

section \<open>Properties\<close>

text \<open>C28: Normalising a document of the shape MinerU writes never fails. Whatever fields are absent,
  null or empty, the result has one page per entry of the document, in order, and the images of a page
  are named consecutively.\<close>

theorem normalize_middle_json_total:
  assumes "document_ok middle"
  shows "\<exists>pdf_info pages. get_either middle ''pdf_info'' ''_pdf_info'' (PList []) = Inr (PList pdf_info)
    \<and> normalize_middle_json middle = Inr pages \<and> length pages = length pdf_info
    \<and> (\<forall>p \<in> set pages. map pi_id (pg_images p) = map (\<lambda>j. ''img-'' @ show_nat j) [0..<length (pg_images p)])"
proof -
  obtain x where x: "get_either middle ''pdf_info'' ''_pdf_info'' (PList []) = Inr x" "list_of page_ok x"
    using get_either_ok [of "list_of page_ok" "''pdf_info''" middle "''_pdf_info''" "PList []"] assms
    by (auto simp: document_ok_def list_of_def)
  then obtain xs where xs: "x = PList xs" "list_all page_ok xs" using iter_list by blast
  from normalize_pages_ok [OF xs(2), of 0] show ?thesis using x xs by (auto simp: normalize_middle_json_def)
qed

definition example_document :: pyval where
  "example_document = PDict [(''pdf_info'', PList [
     PDict [(''page_size'', PList [PInt 612, PFloat 792]), (''para_blocks'', PList [
       PDict [(''type'', PStr ''text''), (''lines'', PList [PDict [(''spans'', PList [PDict [(''content'', PStr ''Hello'')]])]])],
       PDict [(''type'', PStr ''image''), (''img_caption'', PStr ''x''), (''bbox'', PList [PInt 1, PInt 2])]])],
     PNone])]"

theorem normalize_middle_json_total_witness:
  "\<exists>a b. normalize_middle_json example_document = Inr [a, b] \<and> map pi_id (pg_images a) = [''img-0'']"
proof -
  have "document_ok example_document" by code_simp
  from normalize_middle_json_total [OF this] obtain pages where
    pages: "normalize_middle_json example_document = Inr pages" by blast
  have "map_sum id (map (\<lambda>p. map pi_id (pg_images p))) (normalize_middle_json example_document) = Inr [[''img-0''], []]"
    by code_simp
  then show ?thesis unfolding pages by (auto simp: map_eq_Cons_conv)
qed

text \<open>Which markdown an archive yields: always the last markdown file of the archive, whatever its
  name, and never any extra markdown; \<open>full.md\<close> gets no preference, since the key that is tested for
  is never written.\<close>

lemma extract_last_markdown:
  assumes "ze_members env zip_bytes = Inr members" and "extract_from_zip env zip_bytes = Inr r"
  shows "ex_extra_md r = [] \<and> ex_markdown r =
    (if md_members members = [] then None else Some (ze_decode env (last (md_members members))))"
  using extract_members_markdown [of env _ members r] assms by (fastforce simp: extract_from_zip_def)

end
