(* ===== verification/Gateway.thy ===== *)
theory Gateway
  imports Ingest Normalize
begin

text \<open>
  \<^verbatim>\<open>gateway/task_flow.py\<close> and the handlers of \<^verbatim>\<open>gateway/api\<close>. A handler is a function of the request,
  the object store and the database that returns the response, or the exception that FastAPI turns into
  an error response, with the state after it. What other processes do while a synchronous route sleeps is
  the argument \<open>evolve\<close>: the \<open>i\<close>-th sleep maps the store and the database to what is found after it.
  Typographic dashes in messages are written as hyphens.
\<close>

section \<open>Definitions\<close>

datatype response = JSONResponse int json | BytesResponse bytes "(string \<times> string) list"

definition json_opt :: "string option \<Rightarrow> json" where
  "json_opt v = (case v of None \<Rightarrow> JNull | Some s \<Rightarrow> JStr s)"

definition detail_json :: "string \<Rightarrow> json" where
  "detail_json msg = JObj [(''detail'', JStr msg)]"

subsection \<open>Timestamps\<close>

text \<open>\<open>isoformat\<close> of an instant in UTC, counted in microseconds from 1970.\<close>

definition pad :: "nat \<Rightarrow> int \<Rightarrow> string" where
  "pad n i = (let s = show_nat (nat i) in replicate (n - length s) (CHR ''0'') @ s)"

definition civil_from_days :: "int \<Rightarrow> int \<times> int \<times> int" where
  "civil_from_days n =
    (let z = n + 719468; era = z div 146097; doe = z mod 146097;
         yoe = (doe - doe div 1460 + doe div 36524 - doe div 146096) div 365;
         doy = doe - (365 * yoe + yoe div 4 - yoe div 100);
         mp = (5 * doy + 2) div 153;
         d = doy - (153 * mp + 2) div 5 + 1;
         m = (if mp < 10 then mp + 3 else mp - 9)
     in (yoe + era * 400 + (if m \<le> 2 then 1 else 0), m, d))"

definition isoformat :: "time \<Rightarrow> string" where
  "isoformat t =
    (let (y, m, d) = civil_from_days (t div 86400000000); r = t mod 86400000000; micro = r mod 1000000; sec = r div 1000000
     in pad 4 y @ ''-'' @ pad 2 m @ ''-'' @ pad 2 d @ ''T''
        @ pad 2 (sec div 3600) @ '':'' @ pad 2 (sec div 60 mod 60) @ '':'' @ pad 2 (sec mod 60)
        @ (if micro = 0 then [] else ''.'' @ pad 6 micro) @ ''+00:00'')"

definition to_iso :: "time option \<Rightarrow> json" where
  "to_iso t = json_opt (map_option isoformat t)"

subsection \<open>Task flow\<close>

definition FAILURE_STATUSES :: "task_status set" where "FAILURE_STATUSES = {TASK_FAILED, TASK_EXPIRED}"
definition POLL_ITERATIONS :: nat where "POLL_ITERATIONS = 300"

definition require_store :: "'s store_ops option \<Rightarrow> string \<Rightarrow> response + 's store_ops" where
  "require_store store detail =
    (case store of None \<Rightarrow> Inl (JSONResponse 503 (detail_json detail)) | Some st \<Rightarrow> Inr st)"

definition is_poll_complete :: "task \<Rightarrow> bool" where
  "is_poll_complete row =
    (if t_status row = TASK_COMPLETED \<and> truthy (t_result_key row) then True
     else if t_status row \<in> FAILURE_STATUSES then True
     else t_client_expired_at row \<noteq> None)"

definition client_sla_expired_response :: "string \<Rightarrow> task_status \<Rightarrow> response" where
  "client_sla_expired_response tid st =
     JSONResponse 202 (JObj [(''task_id'', JStr tid), (''status'', JStr (status_text st)), (''client_sla_expired'', JBool True),
       (''message'', JStr ''Client SLA expired; task execution continues. Check status and result endpoints.''),
       (''status_url'', JStr (task_status_url tid)), (''result_url'', JStr (task_result_url tid))])"

definition fetch_result_or_none :: "'s store_ops \<Rightarrow> string \<Rightarrow> 's \<Rightarrow> db \<Rightarrow> (exc + bytes option) \<times> 's" where
  "fetch_result_or_none store tid s d =
    (case read_result store tid s d of
       (Inr (data, fmt), s') \<Rightarrow> (Inr (Some data), s')
     | (Inl (KeyError k), s') \<Rightarrow> (Inr None, s')
     | (Inl e, s') \<Rightarrow> (Inl e, s'))"

definition try_fetch_result_bytes :: "'s store_ops option \<Rightarrow> string \<Rightarrow> task \<Rightarrow> 's \<Rightarrow> db \<Rightarrow> (exc + bytes option) \<times> 's" where
  "try_fetch_result_bytes store tid row s d =
    (case store of
       None \<Rightarrow> (Inr None, s)
     | Some st \<Rightarrow>
         if t_status row \<noteq> TASK_COMPLETED \<or> \<not> truthy (t_result_key row) then (Inr None, s)
         else fetch_result_or_none st tid s d)"

text \<open>\<open>Inl\<close> the result bytes, \<open>Inr\<close> the response for every other outcome.\<close>

definition resolve_sync_result ::
    "'s store_ops option \<Rightarrow> string \<Rightarrow> task option \<Rightarrow> 's \<Rightarrow> db \<Rightarrow> (exc + bytes + response) \<times> 's" where
  "resolve_sync_result store tid row s d =
    (case row of
       None \<Rightarrow> (Inr (Inr (JSONResponse 409 (JObj [(''detail'', JStr ''Processing failed''), (''error'', JStr ''task disappeared'')]))), s)
     | Some r \<Rightarrow>
         if t_status r \<in> FAILURE_STATUSES
         then (Inr (Inr (JSONResponse 409 (JObj [(''detail'', JStr ''Processing failed''), (''error'', json_opt (t_error r))]))), s)
         else
           (case try_fetch_result_bytes store tid r s d of
              (Inl e, s') \<Rightarrow> (Inl e, s')
            | (Inr (Some data), s') \<Rightarrow> (Inr (Inl data), s')
            | (Inr None, s') \<Rightarrow>
                (Inr (Inr (if t_client_expired_at r \<noteq> None then client_sla_expired_response tid (t_status r)
                   else if \<not> is_poll_complete r
                   then JSONResponse 202 (JObj [(''task_id'', JStr tid), (''status'', JStr (status_text (t_status r))),
                          (''message'', JStr ''Result is not ready yet'')])
                   else JSONResponse 404 (detail_json ''Result not yet stored''))), s')))"

text \<open>The loop: \<open>n\<close> iterations are left, \<open>i\<close> were done, \<open>row\<close> is the row read last.\<close>

fun poll_loop ::
    "(nat \<Rightarrow> 's \<times> db \<Rightarrow> 's \<times> db) \<Rightarrow> string \<Rightarrow> nat \<Rightarrow> nat \<Rightarrow> task option \<Rightarrow> 's \<times> db \<Rightarrow> task option \<times> 's \<times> db" where
  "poll_loop evolve tid 0 i row w = (row, w)"
| "poll_loop evolve tid (Suc n) i row w =
    (case get_task tid (snd w) of
       None \<Rightarrow> (None, w)
     | Some r \<Rightarrow> if is_poll_complete r then (Some r, w) else poll_loop evolve tid n (Suc i) (Some r) (evolve i w))"

definition poll_task_until_terminal ::
    "(nat \<Rightarrow> 's \<times> db \<Rightarrow> 's \<times> db) \<Rightarrow> string \<Rightarrow> 's \<times> db \<Rightarrow> task option \<times> 's \<times> db" where
  "poll_task_until_terminal evolve tid w = poll_loop evolve tid POLL_ITERATIONS 0 None w"

subsection \<open>\<open>api/tasks.py\<close>\<close>

definition submit_task ::
    "'s store_ops option \<Rightarrow> gateway_settings \<Rightarrow> ingest_env \<Rightarrow> stage_env \<Rightarrow> int option option \<Rightarrow> bool \<Rightarrow> form_item list
      \<Rightarrow> 's \<Rightarrow> db \<Rightarrow> (exc + response) \<times> 's \<times> db" where
  "submit_task store cfg env staging content_length skip_cache form s d =
    (case check_admission cfg content_length of
       Inl e \<Rightarrow> (Inl e, s, d)
     | Inr _ \<Rightarrow>
         (case require_store store ''Object store not configured - POST /tasks requires durable payload storage.'' of
            Inl resp \<Rightarrow> (Inr resp, s, d)
          | Inr st \<Rightarrow>
              apfst (map_sum id (\<lambda>result. JSONResponse 202 (ir_response result)))
                (ingest_task (Some st) cfg env staging ''tasks'' skip_cache form s d)))"

definition get_task_status :: "string \<Rightarrow> db \<Rightarrow> response" where
  "get_task_status tid d =
    (case get_task tid d of
       None \<Rightarrow> JSONResponse 404 (detail_json ''Task not found'')
     | Some row \<Rightarrow>
         JSONResponse 200 (JObj [(''task_id'', JStr (t_task_id row)), (''status'', JStr (status_text (t_status row))),
           (''backend'', JStr (t_backend row)), (''file_names'', JList (map JStr (t_file_names row))),
           (''error'', json_opt (t_error row)), (''created_at'', to_iso (Some (t_created_at row))),
           (''started_at'', to_iso (t_started_at row)), (''completed_at'', to_iso (t_completed_at row)),
           (''client_expired_at'', to_iso (t_client_expired_at row)),
           (''status_url'', JStr (task_status_url tid)), (''result_url'', JStr (task_result_url tid))]))"

definition zip_response :: "bytes \<Rightarrow> (string \<times> string) list \<Rightarrow> response" where
  "zip_response data headers = BytesResponse data ((''content-type'', ''application/zip'') # headers)"

definition get_task_result :: "'s store_ops option \<Rightarrow> string \<Rightarrow> 's \<Rightarrow> db \<Rightarrow> (exc + response) \<times> 's" where
  "get_task_result store tid s d =
    (case get_task tid d of
       None \<Rightarrow> (Inr (JSONResponse 404 (detail_json ''Task not found'')), s)
     | Some row \<Rightarrow>
         if t_status row \<in> {TASK_FAILED, TASK_EXPIRED}
         then (Inr (JSONResponse 409 (JObj [(''detail'', JStr ''Task execution failed''), (''error'', json_opt (t_error row))])), s)
         else if t_status row \<noteq> TASK_COMPLETED \<or> \<not> truthy (t_result_key row)
         then (Inr (JSONResponse 202 (JObj [(''task_id'', JStr tid), (''status'', JStr (status_text (t_status row))),
                 (''message'', JStr ''Task result is not ready yet'')])), s)
         else
           (case (case store of None \<Rightarrow> (Inr None, s) | Some st \<Rightarrow> fetch_result_or_none st tid s d) of
              (Inl e, s') \<Rightarrow> (Inl e, s')
            | (Inr (Some data), s') \<Rightarrow>
                (Inr (zip_response data [(''content-disposition'', ''attachment; filename=\"'' @ tid @ ''.zip\"'')]), s')
            | (Inr None, s') \<Rightarrow> (Inr (JSONResponse 404 (detail_json ''Result not yet stored'')), s')))"

text \<open>The common tail of the synchronous routes: poll, then resolve.\<close>

definition await_result ::
    "'s store_ops \<Rightarrow> (nat \<Rightarrow> 's \<times> db \<Rightarrow> 's \<times> db) \<Rightarrow> string \<Rightarrow> 's \<Rightarrow> db \<Rightarrow> (exc + bytes + response) \<times> 's \<times> db" where
  "await_result st evolve tid s d =
    (case poll_task_until_terminal evolve tid (s, d) of
       (row, s1, d1) \<Rightarrow> (case resolve_sync_result (Some st) tid row s1 d1 of (r, s2) \<Rightarrow> (r, s2, d1)))"

definition file_parse ::
    "'s store_ops option \<Rightarrow> gateway_settings \<Rightarrow> ingest_env \<Rightarrow> stage_env \<Rightarrow> (nat \<Rightarrow> 's \<times> db \<Rightarrow> 's \<times> db)
      \<Rightarrow> int option option \<Rightarrow> bool \<Rightarrow> form_item list \<Rightarrow> 's \<Rightarrow> db \<Rightarrow> (exc + response) \<times> 's \<times> db" where
  "file_parse store cfg env staging evolve content_length skip_cache form s d =
    (case check_admission cfg content_length of
       Inl e \<Rightarrow> (Inl e, s, d)
     | Inr _ \<Rightarrow>
         (case require_store store ''Object store not configured - /file_parse requires durable payload storage.'' of
            Inl resp \<Rightarrow> (Inr resp, s, d)
          | Inr st \<Rightarrow>
              (case ingest_task (Some st) cfg env staging ''tasks'' skip_cache form s d of
                 (Inl e, s1, d1) \<Rightarrow> (Inl e, s1, d1)
               | (Inr result, s1, d1) \<Rightarrow>
                   (case (if ir_cache_hit result then fetch_result_or_none st (ir_task_id result) s1 d1 else (Inr None, s1)) of
                      (Inl e, s2) \<Rightarrow> (Inl e, s2, d1)
                    | (Inr (Some data), s2) \<Rightarrow> (Inr (zip_response data []), s2, d1)
                    | (Inr None, s2) \<Rightarrow>
                        (case await_result st evolve (ir_task_id result) s2 d1 of
                           (Inl e, s3, d3) \<Rightarrow> (Inl e, s3, d3)
                         | (Inr (Inl data), s3, d3) \<Rightarrow> (Inr (zip_response data []), s3, d3)
                         | (Inr (Inr resp), s3, d3) \<Rightarrow> (Inr resp, s3, d3))))))"

subsection \<open>\<open>api/ocr.py\<close>\<close>

definition json_int_opt :: "int option \<Rightarrow> json" where
  "json_int_opt v = (case v of None \<Rightarrow> JNull | Some i \<Rightarrow> JInt i)"

text \<open>\<open>model_dump\<close> of the page models.\<close>

definition image_json :: "OCRPageImage \<Rightarrow> json" where
  "image_json img = JObj [(''id'', JStr (pi_id img)), (''image_base64'', json_opt (pi_image_base64 img)),
     (''top_left_x'', json_int_opt (pi_top_left_x img)), (''top_left_y'', json_int_opt (pi_top_left_y img)),
     (''bottom_right_x'', json_int_opt (pi_bottom_right_x img)), (''bottom_right_y'', json_int_opt (pi_bottom_right_y img)),
     (''image_annotation'', json_opt (pi_image_annotation img))]"

definition page_json :: "OCRPage \<Rightarrow> json" where
  "page_json p = JObj [(''index'', JInt (pg_index p)), (''markdown'', JStr (pg_markdown p)),
     (''images'', JList (map image_json (pg_images p))),
     (''dimensions'', case pg_dimensions p of None \<Rightarrow> JNull | Some kvs \<Rightarrow> JObj (map (\<lambda>(k, v). (k, JInt v)) kvs))]"

fun norm_exc :: "norm_error \<Rightarrow> exc" where
  "norm_exc BadZipFile = OtherException None ''BadZipFile''"
| "norm_exc JSONDecodeError = OtherException None ''JSONDecodeError''"
| "norm_exc (PyError e) = OtherException None e"

definition ocr_response :: "zip_env \<Rightarrow> OCRRequest \<Rightarrow> bytes \<Rightarrow> exc + response" where
  "ocr_response zenv body result_bytes =
     map_sum norm_exc (\<lambda>pages. JSONResponse 200 (JObj [(''model'', JStr (or_model body)), (''pages'', JList (map page_json pages))]))
       (normalize_result zenv (Some result_bytes) None)"

definition create_ocr ::
    "'s store_ops option \<Rightarrow> gateway_settings \<Rightarrow> ingest_env \<Rightarrow> download \<Rightarrow> zip_env \<Rightarrow> (nat \<Rightarrow> 's \<times> db \<Rightarrow> 's \<times> db)
      \<Rightarrow> int option option \<Rightarrow> bool \<Rightarrow> OCRRequest \<Rightarrow> 's \<Rightarrow> db \<Rightarrow> (exc + response) \<times> 's \<times> db" where
  "create_ocr store cfg env dl zenv evolve content_length skip_cache body s d =
    (case check_admission cfg content_length of
       Inl e \<Rightarrow> (Inl e, s, d)
     | Inr _ \<Rightarrow>
    (case extract_document cfg env dl body of
       Inl e \<Rightarrow> (Inl e, s, d)
     | Inr (None, _) \<Rightarrow>
         (Inr (JSONResponse 400 (detail_json ''Could not extract document. Provide document_url, image_url, or file.'')), s, d)
     | Inr (Some file_bytes, file_name) \<Rightarrow>
    (case require_store store ''Object store not configured - /v1/ocr requires durable result storage.'' of
       Inl resp \<Rightarrow> (Inr resp, s, d)
     | Inr st \<Rightarrow>
    (case build_payload file_bytes file_name body of
       Inl e \<Rightarrow> (Inr (JSONResponse 422 (detail_json (exc_str e))), s, d)
     | Inr p \<Rightarrow>
    (case ingest_payload (Some st) cfg env ''ocr'' skip_cache p s d of
       (Inl e, s1, d1) \<Rightarrow> (Inl e, s1, d1)
     | (Inr result, s1, d1) \<Rightarrow>
         if ir_cache_hit result
         then (case fetch_result_or_none st (ir_task_id result) s1 d1 of
                 (Inl e, s2) \<Rightarrow> (Inl e, s2, d1)
               | (Inr None, s2) \<Rightarrow> (Inr (JSONResponse 404 (detail_json ''Cached result not found in object store'')), s2, d1)
               | (Inr (Some data), s2) \<Rightarrow> (ocr_response zenv body data, s2, d1))
         else (case await_result st evolve (ir_task_id result) s1 d1 of
                 (Inl e, s2, d2) \<Rightarrow> (Inl e, s2, d2)
               | (Inr (Inr resp), s2, d2) \<Rightarrow> (Inr resp, s2, d2)
               | (Inr (Inl data), s2, d2) \<Rightarrow> (ocr_response zenv body data, s2, d2)))))))"

subsection \<open>\<open>api/admin.py\<close>\<close>

fun cloud_state_text :: "cloud_state \<Rightarrow> string" where
  "cloud_state_text CLOUD_STATE_PENDING = ''pending''"
| "cloud_state_text CLOUD_STATE_RUNNING = ''running''"
| "cloud_state_text CLOUD_STATE_STOPPING = ''stopping''"
| "cloud_state_text CLOUD_STATE_TERMINATING = ''terminating''"
| "cloud_state_text CLOUD_STATE_STOPPED = ''stopped''"
| "cloud_state_text CLOUD_STATE_TERMINATED = ''terminated''"
| "cloud_state_text CLOUD_STATE_UNKNOWN = ''unknown''"

definition worker_dict :: "worker \<Rightarrow> json" where
  "worker_dict w = JObj [(''id'', JStr (w_id w)), (''provider'', JStr (w_provider w)),
     (''deployment_id'', JStr (w_deployment_id w)), (''instance_id'', json_opt (w_instance_id w)),
     (''base_url'', json_opt (w_base_url w)), (''desired_state'', JStr (cloud_state_text (w_desired_state w))),
     (''cloud_state'', JStr (cloud_state_text (w_cloud_state w))), (''healthy'', JBool (w_healthy w)),
     (''draining'', JBool (w_draining w)), (''drain_target'', json_opt (map_option cloud_state_text (w_drain_target w))),
     (''replacement_for'', json_opt (w_replacement_for w)), (''rotation_requested'', JBool (w_rotation_requested w)),
     (''generation'', JInt (w_generation w)), (''failure_count'', JInt (w_failure_count w)),
     (''retry_after'', to_iso (w_retry_after w)), (''stalled_at'', to_iso (w_stalled_at w)), (''ready_at'', to_iso (w_ready_at w)),
     (''last_error'', json_opt (w_last_error w)), (''provisioning_detail'', json_opt (w_provisioning_detail w)),
     (''last_active_at'', to_iso (w_last_active_at w)), (''terminated_at'', to_iso (w_terminated_at w)),
     (''created_at'', to_iso (Some (w_created_at w))), (''updated_at'', to_iso (Some (w_updated_at w)))]"

record EmergencyCommandRequest =
  ec_reason :: string
  ec_requester :: "string option"

definition worker_response :: "worker option \<Rightarrow> response" where
  "worker_response row =
    (case row of None \<Rightarrow> JSONResponse 404 (detail_json ''Worker not found'') | Some w \<Rightarrow> JSONResponse 200 (worker_dict w))"

definition admin_list_workers :: "gateway_settings \<Rightarrow> db \<Rightarrow> response" where
  "admin_list_workers cfg d = JSONResponse 200 (JObj [(''workers'', JList (map worker_dict (list_workers cfg d)))])"

definition admin_get_worker :: "gateway_settings \<Rightarrow> string \<Rightarrow> db \<Rightarrow> response" where
  "admin_get_worker cfg wid d = worker_response (get_worker cfg wid d)"

definition drain_worker :: "gateway_settings \<Rightarrow> time \<Rightarrow> string \<Rightarrow> EmergencyCommandRequest \<Rightarrow> bool \<Rightarrow> db \<Rightarrow> response \<times> db" where
  "drain_worker cfg now wid body terminate d =
     apfst worker_response (set_drain_intent cfg now wid
       (if terminate then CLOUD_STATE_TERMINATED else CLOUD_STATE_STOPPED) (ec_reason body) (ec_requester body) d)"

definition rotate_worker :: "gateway_settings \<Rightarrow> time \<Rightarrow> string \<Rightarrow> EmergencyCommandRequest \<Rightarrow> db \<Rightarrow> response \<times> db" where
  "rotate_worker cfg now wid body d =
     apfst worker_response (set_rotation_requested cfg now wid (ec_reason body) (ec_requester body) d)"

definition admin_recover_worker :: "gateway_settings \<Rightarrow> time \<Rightarrow> string \<Rightarrow> EmergencyCommandRequest \<Rightarrow> db \<Rightarrow> response \<times> db" where
  "admin_recover_worker cfg now wid body d =
     apfst worker_response (recover_worker cfg now wid (ec_reason body) (ec_requester body) d)"

definition invalidate_cache ::
    "'s store_ops option \<Rightarrow> (db \<Rightarrow> db) \<Rightarrow> (db \<Rightarrow> db) \<Rightarrow> string \<Rightarrow> 's \<Rightarrow> db \<Rightarrow> response \<times> 's \<times> db" where
  "invalidate_cache store interfere1 interfere2 ck s d =
    (case require_store store ''Object store not configured'' of
       Inl resp \<Rightarrow> (resp, s, d)
     | Inr st \<Rightarrow>
         apfst (\<lambda>done. if done then JSONResponse 200 (JObj [(''invalidated'', JStr ck)])
             else JSONResponse 404 (detail_json ''Cache entry not found''))
           (invalidate st interfere1 interfere2 ck s d))"

definition sweep_cache ::
    "'s store_ops option \<Rightarrow> (nat \<Rightarrow> db \<Rightarrow> db) \<Rightarrow> time \<Rightarrow> 's \<Rightarrow> db \<Rightarrow> response \<times> 's \<times> db" where
  "sweep_cache store interfere now s d =
    (case require_store store ''Object store not configured'' of
       Inl resp \<Rightarrow> (resp, s, d)
     | Inr st \<Rightarrow> apfst (\<lambda>removed. JSONResponse 200 (JObj [(''removed'', JInt (int removed))]))
         (sweep_expired st interfere now s d))"

section \<open>Lemmas\<close>

text \<open>The world after \<open>k\<close> sleeps, and the polls at which the loop stops.\<close>

definition world_after :: "(nat \<Rightarrow> 's \<times> db \<Rightarrow> 's \<times> db) \<Rightarrow> nat \<Rightarrow> 's \<times> db \<Rightarrow> 's \<times> db" where
  "world_after evolve k w = fold evolve [0..<k] w"

definition stops :: "string \<Rightarrow> 's \<times> db \<Rightarrow> bool" where
  "stops tid w = (case get_task tid (snd w) of None \<Rightarrow> True | Some r \<Rightarrow> is_poll_complete r)"

lemma world_after_simps [simp]: "world_after evolve 0 w = w" "world_after evolve (Suc k) w = evolve k (world_after evolve k w)"
  by (simp_all add: world_after_def)

lemma poll_loop_first:
  "\<exists>k \<le> n. poll_loop evolve tid n i row (world_after evolve i w) =
      (if k < n then (get_task tid (snd (world_after evolve (i + k) w)), world_after evolve (i + k) w)
       else (if n = 0 then row else get_task tid (snd (world_after evolve (i + n - 1) w)), world_after evolve (i + n) w))
    \<and> (\<forall>j<k. \<not> stops tid (world_after evolve (i + j) w)) \<and> (k < n \<longrightarrow> stops tid (world_after evolve (i + k) w))"
proof (induction n arbitrary: i row)
  case (Suc n)
  let ?w = "world_after evolve i w"
  show ?case
  proof (cases "stops tid ?w")
    case True
    then show ?thesis by (intro exI [of _ 0]) (auto simp: stops_def split: option.splits)
  next
    case False
    then obtain r where r: "get_task tid (snd ?w) = Some r" "\<not> is_poll_complete r"
      by (auto simp: stops_def split: option.splits)
    obtain k where k: "k \<le> n" "poll_loop evolve tid n (Suc i) (Some r) (world_after evolve (Suc i) w) =
        (if k < n then (get_task tid (snd (world_after evolve (Suc i + k) w)), world_after evolve (Suc i + k) w)
         else (if n = 0 then Some r else get_task tid (snd (world_after evolve (Suc i + n - 1) w)), world_after evolve (Suc i + n) w))"
      "\<forall>j<k. \<not> stops tid (world_after evolve (Suc i + j) w)" "k < n \<longrightarrow> stops tid (world_after evolve (Suc i + k) w)"
      using Suc.IH [of "Suc i" "Some r"] by blast
    have "\<forall>j<Suc k. \<not> stops tid (world_after evolve (i + j) w)"
      using False k(3) by (auto simp: less_Suc_eq_0_disj)
    then show ?thesis using k r by (intro exI [of _ "Suc k"]) auto
  qed
qed auto

lemma poll_first:
  obtains k where "k \<le> 300" "poll_task_until_terminal evolve tid w =
      (if k < 300 then (get_task tid (snd (world_after evolve k w)), world_after evolve k w)
       else (get_task tid (snd (world_after evolve 299 w)), world_after evolve 300 w))"
    "\<forall>j<k. \<not> stops tid (world_after evolve j w)" "k < 300 \<longrightarrow> stops tid (world_after evolve k w)"
proof -
  obtain k where k: "k \<le> 300" "poll_loop evolve tid 300 0 None (world_after evolve 0 w) =
      (if k < 300 then (get_task tid (snd (world_after evolve (0 + k) w)), world_after evolve (0 + k) w)
       else (if (300::nat) = 0 then None else get_task tid (snd (world_after evolve (0 + 300 - 1) w)), world_after evolve (0 + 300) w))"
    "\<forall>j<k. \<not> stops tid (world_after evolve (0 + j) w)" "k < 300 \<longrightarrow> stops tid (world_after evolve (0 + k) w)"
    using poll_loop_first [of 300 evolve tid 0 None w] by blast
  then show thesis
    by (intro that [of k]) (cases "k < 300"; simp add: poll_task_until_terminal_def POLL_ITERATIONS_def)+
qed

lemma poll_outcome:
  assumes "poll_task_until_terminal evolve tid w = (row, w')"
  shows "row = get_task tid (snd w') \<or> (\<exists>r. row = Some r \<and> \<not> is_poll_complete r)"
proof -
  obtain k where k: "k \<le> 300" "poll_task_until_terminal evolve tid w =
      (if k < 300 then (get_task tid (snd (world_after evolve k w)), world_after evolve k w)
       else (get_task tid (snd (world_after evolve 299 w)), world_after evolve 300 w))"
    "\<forall>j<k. \<not> stops tid (world_after evolve j w)"
    by (rule poll_first [of evolve tid w])
  show ?thesis
  proof (cases "k < 300")
    case False
    then have "\<not> stops tid (world_after evolve 299 w)" using k(1,3) by simp
    then show ?thesis using k(2) False assms by (auto simp: stops_def split: option.splits)
  qed (use k(2) assms in simp)
qed

text \<open>Bytes that are served are the object the task row points to.\<close>

definition serves :: "('s \<Rightarrow> string \<Rightarrow> bytes option) \<Rightarrow> string \<Rightarrow> 's \<Rightarrow> db \<Rightarrow> bytes \<Rightarrow> bool" where
  "serves contents tid s d data \<longleftrightarrow>
     (\<exists>row key. get_task tid d = Some row \<and> t_result_key row = Some key \<and> contents s key = Some data)"

lemma fetch_serves:
  assumes "object_store st contents" and "fetch_result_or_none st tid s d = (Inr (Some data), s')"
  shows "serves contents tid s' d data"
proof -
  obtain fmt where "read_result st tid s d = (Inr (data, fmt), s')"
    using assms(2) by (auto simp: fetch_result_or_none_def split: prod.splits sum.splits exc.splits)
  then obtain row key where row: "get_task tid d = Some row" "t_result_key row = Some key" "os_get st key s = (Inr data, s')"
    by (auto simp: read_result_def apfst_sum split: option.splits)
  then have "contents s' key = Some data" using object_store.get_ok [OF assms(1) row(3)] object_store.get_frame [OF assms(1) row(3)] by simp
  then show ?thesis using row by (auto simp: serves_def)
qed

lemma await_serves:
  assumes "object_store st contents" and "await_result st evolve tid s d = (Inr (Inl data), s', d')"
  shows "serves contents tid s' d' data"
  using assms(2) fetch_serves [OF assms(1)]
  by (auto simp: await_result_def resolve_sync_result_def try_fetch_result_bytes_def
      split: prod.splits option.splits if_splits sum.splits)

lemma await_failed:
  assumes "await_result st evolve tid s d = (Inr (Inr (JSONResponse 409 body)), s', d')"
  shows "case get_task tid d' of None \<Rightarrow> True | Some row \<Rightarrow> t_status row \<in> {TASK_FAILED, TASK_EXPIRED}"
proof -
  obtain row s1 where poll: "poll_task_until_terminal evolve tid (s, d) = (row, s1, d')"
    and res: "resolve_sync_result (Some st) tid row s1 d' = (Inr (Inr (JSONResponse 409 body)), s')"
    using assms by (auto simp: await_result_def split: prod.splits)
  from res have failed: "row = None \<or> (\<exists>r. row = Some r \<and> t_status r \<in> FAILURE_STATUSES)"
    by (auto simp: resolve_sync_result_def client_sla_expired_response_def split: option.splits if_splits prod.splits sum.splits)
  from poll_outcome [OF poll] show ?thesis
    using failed by (auto simp: is_poll_complete_def FAILURE_STATUSES_def split: option.splits)
qed

section \<open>Properties\<close>

text \<open>C29: The polling loop of the synchronous routes is the bounded search it stands for. It returns
  the row, and the state, of the first of at most 300 polls at which the task is gone, finished with a
  result, failed, or past the client's deadline; when there is none, the row of the last poll.\<close>

theorem poll_returns_first_complete:
  "\<exists>k \<le> 300. poll_task_until_terminal evolve tid w =
      (if k < 300 then (get_task tid (snd (world_after evolve k w)), world_after evolve k w)
       else (get_task tid (snd (world_after evolve 299 w)), world_after evolve 300 w))
    \<and> (\<forall>j<k. \<exists>r. get_task tid (snd (world_after evolve j w)) = Some r \<and> \<not> is_poll_complete r)
    \<and> (k < 300 \<longrightarrow> (\<forall>r. get_task tid (snd (world_after evolve k w)) = Some r \<longrightarrow> is_poll_complete r))"
proof -
  obtain k where k: "k \<le> 300" "poll_task_until_terminal evolve tid w =
      (if k < 300 then (get_task tid (snd (world_after evolve k w)), world_after evolve k w)
       else (get_task tid (snd (world_after evolve 299 w)), world_after evolve 300 w))"
    "\<forall>j<k. \<not> stops tid (world_after evolve j w)" "k < 300 \<longrightarrow> stops tid (world_after evolve k w)"
    by (rule poll_first [of evolve tid w])
  show ?thesis
  proof (intro exI [of _ k] conjI k(1,2))
    show "\<forall>j<k. \<exists>r. get_task tid (snd (world_after evolve j w)) = Some r \<and> \<not> is_poll_complete r"
      using k(3) by (auto simp: stops_def split: option.splits)
    show "k < 300 \<longrightarrow> (\<forall>r. get_task tid (snd (world_after evolve k w)) = Some r \<longrightarrow> is_poll_complete r)"
      using k(4) by (auto simp: stops_def)
  qed
qed

theorem poll_returns_first_complete_witness:
  "poll_task_until_terminal (\<lambda>_ w. w) ''t1'' ((), empty_db) = (None, (), empty_db)"
proof -
  have same: "world_after (\<lambda>_ w. w) k ((), empty_db) = ((), empty_db)" for k by (induction k) simp_all
  have none: "get_task ''t1'' empty_db = None" by (simp add: get_task_def empty_db_def db_get_def)
  from poll_returns_first_complete [of "\<lambda>_ w. w" "''t1''" "((), empty_db)"] show ?thesis
    unfolding same by (auto simp: none split: if_splits)
qed

text \<open>C9: What \<open>/file_parse\<close> answers is true of the task it created, whatever other processes did
  meanwhile. Bytes are the object to which the row of the task points at that moment, for a cache hit as
  for a parsed document; the failure answer 409 is given only when the row is gone, failed or expired.\<close>

theorem file_parse_truthful:
  assumes "object_store st contents"
    and "file_parse (Some st) cfg env staging evolve content_length nocache form s d = (Inr resp, s', d')"
  shows "case resp of
      BytesResponse data headers \<Rightarrow> serves contents (ie_task_id env) s' d' data
    | JSONResponse code body \<Rightarrow> code = 409 \<longrightarrow>
        (case get_task (ie_task_id env) d' of None \<Rightarrow> True | Some row \<Rightarrow> t_status row \<in> {TASK_FAILED, TASK_EXPIRED})"
proof -
  obtain result s1 d1 where ing: "ingest_task (Some st) cfg env staging ''tasks'' nocache form s d = (Inr result, s1, d1)"
    using assms(2) by (auto simp: file_parse_def require_store_def split: prod.splits sum.splits)
  obtain u where adm: "check_admission cfg content_length = Inr u"
    using assms(2) by (auto simp: file_parse_def split: sum.splits)
  have tid: "ir_task_id result = ie_task_id env"
    using ingest_task_id [OF assms(1) ing] .
  note D = assms(2) [unfolded file_parse_def require_store_def]
  show ?thesis
  proof (cases "\<exists>data s2. ir_cache_hit result \<and> fetch_result_or_none st (ie_task_id env) s1 d1 = (Inr (Some data), s2)")
    case True
    then show ?thesis using D adm ing fetch_serves [OF assms(1)] tid by (auto simp: zip_response_def)
  next
    case False
    then consider (bytes) s2 data where "await_result st evolve (ie_task_id env) s2 d1 = (Inr (Inl data), s', d')" "resp = zip_response data []"
      | (other) s2 where "await_result st evolve (ie_task_id env) s2 d1 = (Inr (Inr resp), s', d')"
      using D adm ing tid by (auto split: if_splits prod.splits sum.splits option.splits)
    then show ?thesis
    proof cases
      case bytes
      then show ?thesis using await_serves [OF assms(1)] by (auto simp: zip_response_def)
    next
      case other
      moreover have "\<nexists>data h. resp = BytesResponse data h"
        using other by (auto simp: await_result_def resolve_sync_result_def client_sla_expired_response_def
            split: prod.splits option.splits if_splits sum.splits)
      ultimately show ?thesis using await_failed [of st evolve "ie_task_id env" s2 d1 _ s' d']
        by (cases resp) auto
    qed
  qed
qed

text \<open>The scheduler parsed the document during the first sleep.\<close>

definition example_done :: "buckets \<times> db" where
  "example_done = (Map.empty((''b'', ''results/t1.zip'') \<mapsto> [9]),
     empty_db\<lparr>db_tasks := [(new_task ''t1'' 0)\<lparr>t_status := TASK_COMPLETED, t_result_key := Some ''results/t1.zip''\<rparr>]\<rparr>)"

theorem file_parse_truthful_witness:
  "\<exists>s' d'. file_parse (Some (S3ObjectStore memory_client ''b'')) default_settings example_ingest_env plain_staging (\<lambda>_ _. example_done)
      None True example_form Map.empty empty_db = (Inr (zip_response [9] []), s', d')
    \<and> serves (\<lambda>s k. s (''b'', k)) ''t1'' s' d' [9]"
proof -
  let ?st = "S3ObjectStore memory_client ''b''"
  obtain s1 d1 row where ing: "ingest_task (Some ?st) default_settings example_ingest_env plain_staging ''tasks'' True example_form Map.empty empty_db
      = (Inr \<lparr>ir_task_id = ''t1'', ir_cache_hit = False, ir_status = TASK_QUEUED, ir_response = pending_response ''t1'' ''tasks''\<rparr>, s1, d1)"
    and row: "db_tasks d1 = [row]" "t_task_id row = ''t1''" "t_status row = TASK_QUEUED" "t_client_expired_at row = None"
    using example_ingest by blast
  have "poll_loop (\<lambda>_ _. example_done) ''t1'' (Suc (Suc 298)) 0 None (s1, d1)
      = (Some ((new_task ''t1'' 0)\<lparr>t_status := TASK_COMPLETED, t_result_key := Some ''results/t1.zip''\<rparr>), example_done)"
    unfolding poll_loop.simps
    using row by (simp add: get_task_def db_get_def is_poll_complete_def FAILURE_STATUSES_def example_done_def new_task_def)
  then have poll: "poll_task_until_terminal (\<lambda>_ _. example_done) ''t1'' (s1, d1)
      = (Some ((new_task ''t1'' 0)\<lparr>t_status := TASK_COMPLETED, t_result_key := Some ''results/t1.zip''\<rparr>), example_done)"
    by (simp add: poll_task_until_terminal_def POLL_ITERATIONS_def)
  have "\<exists>s' d'. file_parse (Some ?st) default_settings example_ingest_env plain_staging (\<lambda>_ _. example_done)
      None True example_form Map.empty empty_db = (Inr (zip_response [9] []), s', d')"
    by (simp add: file_parse_def check_admission_def require_store_def ing await_result_def poll)
      (simp add: resolve_sync_result_def try_fetch_result_bytes_def fetch_result_or_none_def read_result_def FAILURE_STATUSES_def
        get_task_def db_get_def new_task_def example_done_def S3ObjectStore_def s3_get_def memory_client_def)
  then obtain s' d' where run: "file_parse (Some ?st) default_settings example_ingest_env plain_staging (\<lambda>_ _. example_done)
      None True example_form Map.empty empty_db = (Inr (zip_response [9] []), s', d')" by blast
  from file_parse_truthful [OF memory.object_store_axioms run] run show ?thesis
    by (auto simp: zip_response_def example_ingest_env_def)
qed

end
