(* ===== verification/Access.thy ===== *)
theory Access
  imports Fleet Gateway
begin

text \<open>
  Who may use the gateway and what must hold before it serves: \<^verbatim>\<open>gateway/auth.py\<close>,
  \<^verbatim>\<open>startup_guard.py\<close>, \<^verbatim>\<open>mineru_compat.py\<close>, \<^verbatim>\<open>cloud/registry.py\<close>, \<^verbatim>\<open>cloud/aws/ssm.py\<close>,
  \<^verbatim>\<open>gateway/readiness.py\<close> and the start-up sequences of \<^verbatim>\<open>gateway/app.py\<close> and \<^verbatim>\<open>scheduler/main.py\<close>.
  MinerU's test for public hosts and its version, the answers of AWS and of the database are arguments.
\<close>

section \<open>Definitions\<close>

subsection \<open>API keys\<close>

definition PUBLIC_PATHS :: "string set" where
  "PUBLIC_PATHS = {''/health'', ''/ready'', ''/docs'', ''/openapi.json'', ''/redoc''}"

definition removeprefix :: "string \<Rightarrow> string \<Rightarrow> string" where
  "removeprefix pre s = (if take (length pre) s = pre then drop (length pre) s else s)"

text \<open>\<open>secrets.compare_digest\<close> on strings refuses characters outside ASCII.\<close>

definition is_ascii :: "string \<Rightarrow> bool" where
  "is_ascii s = list_all (\<lambda>c. of_char c < (128 :: nat)) s"

definition compare_digest :: "string \<Rightarrow> string \<Rightarrow> exc + bool" where
  "compare_digest a b =
    (if is_ascii a \<and> is_ascii b then Inr (a = b)
     else Inl (OtherException None ''comparing strings with non-ASCII characters is not supported''))"

text \<open>\<open>any(compare_digest(provided, key) for key in keys)\<close>.\<close>

fun any_key :: "string \<Rightarrow> string list \<Rightarrow> exc + bool" where
  "any_key provided [] = Inr False"
| "any_key provided (key # keys) =
    (case compare_digest provided key of
       Inl e \<Rightarrow> Inl e
     | Inr True \<Rightarrow> Inr True
     | Inr False \<Rightarrow> any_key provided keys)"

definition provided_key :: "string option \<Rightarrow> string option \<Rightarrow> string" where
  "provided_key x_api_key authorization =
     text_or x_api_key (py_strip (removeprefix ''Bearer '' (case authorization of None \<Rightarrow> [] | Some a \<Rightarrow> a)))"

text \<open>\<open>None\<close>: the request is passed on to the routes.\<close>

definition auth_dispatch ::
    "gateway_settings \<Rightarrow> string \<Rightarrow> string option \<Rightarrow> string option \<Rightarrow> exc + response option" where
  "auth_dispatch cfg path x_api_key authorization =
    (if \<not> auth_enabled (auth cfg) then Inr None
     else if path \<in> PUBLIC_PATHS then Inr None
     else
       (let provided = provided_key x_api_key authorization;
            rejected = Inr (Some (JSONResponse 401 (detail_json ''Invalid or missing API key'')))
        in if provided = [] then rejected
           else (case any_key provided (resolved_keys (auth cfg)) of
                   Inl e \<Rightarrow> Inl e
                 | Inr True \<Rightarrow> Inr None
                 | Inr False \<Rightarrow> rejected)))"

subsection \<open>Start-up guard\<close>

definition StartupDependencyError :: "string \<Rightarrow> exc" where
  "StartupDependencyError msg = OtherException None msg"

definition PublicBindWithoutAuthError :: "string \<Rightarrow> exc" where
  "PublicBindWithoutAuthError msg = OtherException None msg"

definition enforce_bind_guard :: "(string \<Rightarrow> bool) \<Rightarrow> gateway_settings \<Rightarrow> string option \<Rightarrow> exc + unit" where
  "enforce_bind_guard is_public_bind_host cfg cli_host =
    (if auth_enabled (auth cfg) then Inr ()
     else
       (let hst = text_or cli_host (host cfg) in
        if is_public_bind_host hst
        then Inl (PublicBindWithoutAuthError (''Refusing to bind public host '' @ [CHR 39] @ hst @ [CHR 39]
               @ '' without auth enabled. Enable auth in config or bind to a loopback address.''))
        else Inr ()))"

definition validate_mineru_compat :: "int \<Rightarrow> string \<Rightarrow> exc + string" where
  "validate_mineru_compat protocol_version version =
    (if protocol_version \<noteq> 2
     then Inl (OtherException None (''Expected MinerU API_PROTOCOL_VERSION == 2, got '' @ show_int protocol_version
            @ ''. The gateway needs updating for the new protocol.''))
     else
       (case map int_of_str (take 2 (split_on (CHR ''.'') version)) of
          [Some major, Some minor] \<Rightarrow>
            if (major, minor) \<noteq> (3, 4)
            then Inl (OtherException None (''MinerU version '' @ version @ '' is outside the supported range >=3.4.4,<3.5.''))
            else Inr version
        | _ \<Rightarrow> Inl (OtherException None ''ValueError'')))"

definition provider_conflicts :: "gateway_settings \<Rightarrow> db \<Rightarrow> worker list" where
  "provider_conflicts cfg d =
     filter (\<lambda>w. w_terminated_at w = None \<and> w_provider w \<noteq> cloud_provider (cloud cfg)) (db_workers d)"

definition validate_worker_provider_ownership :: "gateway_settings \<Rightarrow> db \<Rightarrow> exc + unit" where
  "validate_worker_provider_ownership cfg d =
    (case provider_conflicts cfg d of
       [] \<Rightarrow> Inr ()
     | w # ws \<Rightarrow>
         Inl (StartupDependencyError (''DB contains workers for provider '' @ repr_string (w_provider w)
           @ '' but configured provider is '' @ repr_string (cloud_provider (cloud cfg)) @ '' (conflicting workers: ''
           @ join '', '' (map w_id (take 5 (w # ws))) @ (if length (w # ws) > 5 then ''...'' else []) @ '')'')))"

definition validate_startup_dependencies ::
    "int \<Rightarrow> string \<Rightarrow> gateway_settings \<Rightarrow> 's store_ops option \<Rightarrow> db \<Rightarrow> exc + unit" where
  "validate_startup_dependencies protocol_version version cfg store d =
    (case validate_mineru_compat protocol_version version of
       Inl e \<Rightarrow> Inl e
     | Inr _ \<Rightarrow>
         if py_strip (deployment_id cfg) = [] then Inl (StartupDependencyError ''deployment_id is required'')
         else if \<not> is_object_store_configured (cloud cfg)
         then Inl (StartupDependencyError (''cloud.'' @ cloud_provider (cloud cfg) @ '' bucket/container name is required''))
         else if store = None
         then Inl (StartupDependencyError ''Object storage is required - configure cloud bucket and ensure access'')
         else if auth_enabled (auth cfg) \<and> resolved_keys (auth cfg) = []
         then Inl (StartupDependencyError ''auth.api_key is required when auth.enabled is true'')
         else if cloud_workers_enabled cfg \<and> cloud_provider (cloud cfg) = ''aws'' \<and> \<not> truthy (fst (launch_template (cloud cfg)))
         then Inl (StartupDependencyError ''cloud.aws.launch_template_id is required when cloud workers are enabled'')
         else validate_worker_provider_ownership cfg d)"

subsection \<open>Registry and SSM\<close>

definition SSM_PREFIX :: string where "SSM_PREFIX = ''ssm:''"

definition is_ssm_reference :: "string option \<Rightarrow> bool" where
  "is_ssm_reference v = (case v of None \<Rightarrow> False | Some s \<Rightarrow> take (length SSM_PREFIX) s = SSM_PREFIX)"

text \<open>\<open>get_parameter\<close>: the value of a parameter, or the error of the service (\<open>ClientError\<close>) or of the
  connection.\<close>

definition resolve_ssm_reference :: "(string \<Rightarrow> s3_error + string) \<Rightarrow> string \<Rightarrow> exc + string" where
  "resolve_ssm_reference get_parameter v =
    (let name = drop (length SSM_PREFIX) v in
     if take 1 name \<noteq> ''/''
     then Inl (OtherException None (''SSM reference must be an absolute parameter path: '' @ repr_string v))
     else
       (case get_parameter name of
          Inl (ClientError code msg) \<Rightarrow>
            if code \<in> {''ParameterNotFound'', ''ParameterVersionNotFound''}
            then Inl (CloudError CAT_NOT_FOUND code (''SSM parameter '' @ [CHR 39] @ name @ [CHR 39]
                   @ '' not found - deploy the worker stack that publishes it'') False)
            else Inl (CloudError (if code \<in> {''AccessDeniedException'', ''UnauthorizedOperation''} then CAT_AUTH else CAT_RETRYABLE)
                   (if code \<noteq> [] then code else ''SSMError'')
                   (''Cannot read SSM parameter '' @ [CHR 39] @ name @ [CHR 39] @ '': '' @ msg) False)
        | Inl (S3TransportError msg) \<Rightarrow>
            Inl (CloudError CAT_RETRYABLE ''SSMUnreachable''
                   (''Cannot reach SSM for parameter '' @ [CHR 39] @ name @ [CHR 39] @ '': '' @ msg) False)
        | Inr raw \<Rightarrow>
            (let resolved = py_strip raw in
             if resolved = []
             then Inl (CloudError CAT_NOT_FOUND ''SSMParameterEmpty'' (''SSM parameter '' @ [CHR 39] @ name @ [CHR 39] @ '' is empty'') False)
             else Inr resolved)))"

definition resolve_cloud_config :: "(string \<Rightarrow> s3_error + string) \<Rightarrow> cloud_config \<Rightarrow> exc + cloud_config" where
  "resolve_cloud_config get_parameter c =
    (let template_id = aws_launch_template_id (cloud_aws c) in
     if \<not> is_ssm_reference template_id then Inr c
     else map_sum id (\<lambda>resolved. c\<lparr>cloud_aws := (cloud_aws c)\<lparr>aws_launch_template_id := Some resolved\<rparr>\<rparr>)
       (resolve_ssm_reference get_parameter (the template_id)))"

text \<open>The only registered storage provider is S3; \<open>mk_client\<close> is the client for an endpoint and region.\<close>

definition registry_get_store ::
    "(string option \<Rightarrow> string \<Rightarrow> 's s3_client) \<Rightarrow> string option \<Rightarrow> gateway_settings \<Rightarrow> exc + 's s3_client \<times> string" where
  "registry_get_store mk_client name cfg =
    (let resolved = text_or name (cloud_provider (cloud cfg)); a = cloud_aws (cloud cfg) in
     if resolved = ''aws'' then Inr (mk_client (aws_endpoint_url a) (aws_region a), aws_bucket a)
     else Inl (OtherException None (''Object store for provider '' @ [CHR 39] @ resolved @ [CHR 39]
            @ '' is not implemented. Available: ['' @ [CHR 39] @ ''aws'' @ [CHR 39] @ '']'')))"

definition init_store ::
    "(string option \<Rightarrow> string \<Rightarrow> 's s3_client) \<Rightarrow> gateway_settings \<Rightarrow> bool \<Rightarrow> 's \<Rightarrow> (exc + 's store_ops option) \<times> 's" where
  "init_store mk_client cfg required s =
    (if \<not> is_object_store_configured (cloud cfg)
     then (if required then Inl (StartupDependencyError (''cloud.'' @ cloud_provider (cloud cfg) @ '' bucket/container name is required''))
           else Inr None, s)
     else
       (case registry_get_store mk_client (Some (cloud_provider (cloud cfg))) cfg of
          Inl e \<Rightarrow> (Inl e, s)
        | Inr (client, bucket) \<Rightarrow> apfst (map_sum id (\<lambda>_. Some (S3ObjectStore client bucket))) (s3_prepare client bucket s)))"

subsection \<open>Start-up sequences and readiness\<close>

definition gateway_main :: "(string \<Rightarrow> bool) \<Rightarrow> gateway_settings \<Rightarrow> string option \<Rightarrow> exc + string" where
  "gateway_main is_public_bind_host cfg cli_host =
    (let bind_host = (case cli_host of Some h \<Rightarrow> h | None \<Rightarrow> host cfg)
     in map_sum id (\<lambda>_. bind_host) (enforce_bind_guard is_public_bind_host cfg (Some bind_host)))"

text \<open>The flag \<open>public_bind_exposed\<close> and the store the application serves with.\<close>

definition lifespan ::
    "(string \<Rightarrow> bool) \<Rightarrow> (string option \<Rightarrow> string \<Rightarrow> 's s3_client) \<Rightarrow> int \<Rightarrow> string \<Rightarrow> gateway_settings \<Rightarrow> db \<Rightarrow> 's
      \<Rightarrow> (exc + bool \<times> 's store_ops option) \<times> 's" where
  "lifespan is_public_bind_host mk_client protocol_version version cfg d s =
    (case enforce_bind_guard is_public_bind_host cfg None of
       Inl e \<Rightarrow> (Inl e, s)
     | Inr _ \<Rightarrow>
         (case init_store mk_client cfg True s of
            (Inl e, s1) \<Rightarrow> (Inl e, s1)
          | (Inr store, s1) \<Rightarrow>
              (case validate_startup_dependencies protocol_version version cfg store d of
                 Inl e \<Rightarrow> (Inl e, s1)
               | Inr _ \<Rightarrow> (Inr (is_public_bind_host (host cfg), store), s1))))"

definition check_readiness :: "bool \<Rightarrow> 's s3_client option \<Rightarrow> string \<Rightarrow> 's \<Rightarrow> (bool \<times> string) \<times> 's" where
  "check_readiness database_answers client bucket s =
    (if \<not> database_answers then ((False, ''database unavailable''), s)
     else
       (case client of
          None \<Rightarrow> ((False, ''object storage not configured''), s)
        | Some c \<Rightarrow>
            (case s3_prepare c bucket s of
               (Inl _, s') \<Rightarrow> ((False, ''object storage unavailable''), s')
             | (Inr _, s') \<Rightarrow> ((True, ''ok''), s'))))"

definition ready :: "bool \<times> string \<Rightarrow> response" where
  "ready r = (case r of
     (True, detail) \<Rightarrow> JSONResponse 200 (JObj [(''status'', JStr ''ready''), (''detail'', JStr detail)])
   | (False, detail) \<Rightarrow> JSONResponse 503 (JObj [(''status'', JStr ''not_ready''), (''detail'', JStr detail)]))"

section \<open>Lemmas\<close>

lemma any_key_ascii:
  assumes "is_ascii provided" and "\<And>k. k \<in> set keys \<Longrightarrow> is_ascii k"
  shows "any_key provided keys = Inr (provided \<in> set keys)"
  using assms(2) by (induction keys) (auto simp: compare_digest_def assms(1) split: bool.splits)

lemma any_key_admits: "any_key provided keys = Inr True \<Longrightarrow> provided \<in> set keys"
  by (induction keys) (auto simp: compare_digest_def split: if_splits sum.splits bool.splits)

lemma startup_keys:
  assumes "validate_startup_dependencies v ver cfg store d = Inr u"
  shows "auth_enabled (auth cfg) \<longrightarrow> resolved_keys (auth cfg) \<noteq> []" "store \<noteq> None" "provider_conflicts cfg d = []"
  using assms by (auto simp: validate_startup_dependencies_def validate_worker_provider_ownership_def
      split: sum.splits if_splits list.splits)

section \<open>Properties\<close>

text \<open>A gateway that started on a public host serves nobody without a configured key. When the
  start-up sequence succeeded and the configured host is public, authentication is on, there is a key to
  present, and a request to any path but the five probe and documentation paths is passed on only if
  the key it presents is one of the configured ones.\<close>

lemma public_gateway_requires_key:
  assumes "lifespan is_public mk_client v ver cfg d s = (Inr (True, store), s')"
    and "path \<notin> PUBLIC_PATHS" and "auth_dispatch cfg path x_api_key authorization = Inr None"
  shows "provided_key x_api_key authorization \<in> set (resolved_keys (auth cfg)) \<and> auth_enabled (auth cfg)
    \<and> provided_key x_api_key authorization \<noteq> [] \<and> store \<noteq> None"
proof -
  obtain u where guard: "enforce_bind_guard is_public cfg None = Inr u" and pub: "is_public (host cfg)"
    and deps: "\<exists>u. validate_startup_dependencies v ver cfg store d = Inr u"
    using assms(1) by (auto simp: lifespan_def split: sum.splits prod.splits)
  have on: "auth_enabled (auth cfg)"
    using guard pub by (auto simp: enforce_bind_guard_def text_or_def Let_def split: if_splits)
  then show ?thesis using assms(2,3) any_key_admits deps startup_keys(2)
    by (auto simp: auth_dispatch_def Let_def split: if_splits sum.splits bool.splits)
qed

definition example_public :: gateway_settings where
  "example_public = default_settings\<lparr>host := ''0.0.0.0'', auth := \<lparr>auth_enabled = True, auth_api_key = Some ''k1''\<rparr>\<rparr>"

text \<open>C40: Who is admitted, exactly. With ASCII keys configured, a request is passed on when authentication
  is off, the path is public, or the presented key is configured; a missing or wrong key gets 401. A
  presented key with a character outside ASCII gets neither: the comparison raises, so the client
  sees a server error.\<close>

theorem auth_dispatch_exact:
  assumes "\<And>k. k \<in> set (resolved_keys (auth cfg)) \<Longrightarrow> is_ascii k"
  shows "auth_dispatch cfg path x_api_key authorization =
    (let provided = provided_key x_api_key authorization; keys = resolved_keys (auth cfg) in
     if \<not> auth_enabled (auth cfg) \<or> path \<in> PUBLIC_PATHS \<or> provided \<noteq> [] \<and> provided \<in> set keys then Inr None
     else if is_ascii provided \<or> keys = [] then Inr (Some (JSONResponse 401 (detail_json ''Invalid or missing API key'')))
     else Inl (OtherException None ''comparing strings with non-ASCII characters is not supported''))"
proof (cases "is_ascii (provided_key x_api_key authorization)")
  case True
  then show ?thesis using any_key_ascii [OF True assms] by (auto simp: auth_dispatch_def Let_def)
next
  case False
  then have "provided_key x_api_key authorization \<noteq> []" by (auto simp: is_ascii_def)
  then show ?thesis using False assms
    by (cases "resolved_keys (auth cfg)") (auto simp: auth_dispatch_def Let_def compare_digest_def)
qed

theorem auth_dispatch_exact_witness:
  "auth_dispatch example_public ''/tasks'' (Some [CHR 0xE9]) None
     = Inl (OtherException None ''comparing strings with non-ASCII characters is not supported'')"
proof -
  have keys: "resolved_keys (auth example_public) = [''k1'']" by code_simp
  have "is_ascii k" if "k \<in> set (resolved_keys (auth example_public))" for k
    using that unfolding keys by (simp add: is_ascii_def)
  then have "auth_dispatch example_public ''/tasks'' (Some [CHR 0xE9]) None =
    (let provided = provided_key (Some [CHR 0xE9]) None; keys = resolved_keys (auth example_public) in
     if \<not> auth_enabled (auth example_public) \<or> ''/tasks'' \<in> PUBLIC_PATHS \<or> provided \<noteq> [] \<and> provided \<in> set keys then Inr None
     else if is_ascii provided \<or> keys = [] then Inr (Some (JSONResponse 401 (detail_json ''Invalid or missing API key'')))
     else Inl (OtherException None ''comparing strings with non-ASCII characters is not supported''))"
    by (rule auth_dispatch_exact)
  then show ?thesis unfolding keys
    by (simp add: Let_def provided_key_def text_or_def is_ascii_def PUBLIC_PATHS_def example_public_def)
qed

end
