(* ===== verification/Ec2.thy ===== *)
theory Ec2
  imports Access
begin

text \<open>
  \<^verbatim>\<open>cloud/aws/ec2.py\<close>, the tags of \<^verbatim>\<open>cloud/types.py\<close> and the compute side of \<^verbatim>\<open>cloud/registry.py\<close>:
  the provider the scheduler drives, over the operations of a boto3 EC2 client. The client is an
  argument; what the code relies on (an instance carries the tags it was launched with, a filtered
  listing holds only instances that match, and sooner or later all of them) are the laws of the locale
  \<open>ec2_service\<close>, from which those of a compute provider follow for \<open>AwsEc2Provider\<close>. Listings are
  eventually consistent: \<open>visible\<close> are the instances a listing already knows. That a repeated request
  with the same client token, here the worker's id, starts no second instance is EC2's own promise
  and not used.
\<close>

section \<open>Definitions\<close>

definition TAG_GENERATION :: string where "TAG_GENERATION = ''mineru-gateway-generation''"
definition TAG_NAME :: string where "TAG_NAME = ''Name''"

definition format_worker_instance_name :: "string \<Rightarrow> string \<Rightarrow> string" where
  "format_worker_instance_name dep wid = dep @ ''-'' @ removeprefix ''cloud-'' wid"

definition build_worker_tags :: "string \<Rightarrow> string \<Rightarrow> int \<Rightarrow> (string \<times> string) list" where
  "build_worker_tags wid dep generation =
    [(TAG_NAME, format_worker_instance_name dep wid), (TAG_MANAGED, ''true''), (TAG_DEPLOYMENT, dep),
     (TAG_WORKER_ID, wid), (TAG_ROLE, TAG_ROLE_WORKER), (TAG_GENERATION, show_int generation)]"

record ec2_instance =
  ei_id :: string
  ei_state :: string
  ei_private_ip :: "string option"
  ei_tags :: "(string \<times> string) list"

text \<open>The parameters of \<open>run_instances\<close>; \<open>MinCount\<close> and \<open>MaxCount\<close> are always one.\<close>

record run_params =
  rp_template_id :: string
  rp_template_version :: string
  rp_client_token :: string
  rp_tags :: "(string \<times> string) list"

type_synonym tag_filter = "string \<times> string list"

record 'c ec2_client =
  ec_describe :: "string \<Rightarrow> 'c \<Rightarrow> (s3_error + ec2_instance list list) \<times> 'c"
  ec_pages :: "tag_filter list \<Rightarrow> 'c \<Rightarrow> (s3_error + ec2_instance list list list) \<times> 'c"
  ec_run :: "run_params \<Rightarrow> 'c \<Rightarrow> (s3_error + ec2_instance list) \<times> 'c"
  ec_start :: "string \<Rightarrow> 'c \<Rightarrow> (s3_error + unit) \<times> 'c"
  ec_stop :: "string \<Rightarrow> 'c \<Rightarrow> (s3_error + unit) \<times> 'c"
  ec_terminate :: "string \<Rightarrow> 'c \<Rightarrow> (s3_error + unit) \<times> 'c"

definition EC2_STATE_MAP :: "string \<rightharpoonup> InstanceState" where
  "EC2_STATE_MAP = map_of [(''running'', RUNNING), (''stopped'', SUSPENDED), (''pending'', STARTING),
     (''stopping'', STOPPING), (''shutting-down'', TERMINATING), (''terminated'', TERMINATED)]"

definition EC2_ERROR_CLASSIFICATION :: "string \<rightharpoonup> CloudErrorCategory \<times> bool" where
  "EC2_ERROR_CLASSIFICATION = map_of [
     (''InvalidInstanceID.NotFound'', CAT_NOT_FOUND, False), (''InvalidInstanceID.Malformed'', CAT_INVALID_ID, False),
     (''InvalidInstanceID'', CAT_INVALID_ID, False), (''UnauthorizedOperation'', CAT_AUTH, False),
     (''AccessDenied'', CAT_AUTH, False), (''RequestLimitExceeded'', CAT_RETRYABLE, True),
     (''Throttling'', CAT_RETRYABLE, True), (''ThrottlingException'', CAT_RETRYABLE, True),
     (''ServiceUnavailable'', CAT_RETRYABLE, True), (''InternalError'', CAT_RETRYABLE, True),
     (''InsufficientInstanceCapacity'', CAT_QUOTA, False), (''VcpuLimitExceeded'', CAT_QUOTA, False),
     (''InstanceLimitExceeded'', CAT_QUOTA, False), (''VolumeLimitExceeded'', CAT_QUOTA, False)]"

definition MISSING_INSTANCE_CODES :: "string set" where
  "MISSING_INSTANCE_CODES = {''InvalidInstanceID.NotFound'', ''InvalidInstanceID.Malformed'', ''InvalidInstanceID''}"

definition normalize_ec2_state :: "string \<Rightarrow> InstanceState" where
  "normalize_ec2_state vendor_state = (case EC2_STATE_MAP vendor_state of Some st \<Rightarrow> st | None \<Rightarrow> UNKNOWN)"

fun classify_ec2_error :: "s3_error \<Rightarrow> exc" where
  "classify_ec2_error (ClientError code msg) =
    (case EC2_ERROR_CLASSIFICATION code of
       Some (category, retryable) \<Rightarrow> CloudError category code msg retryable
     | None \<Rightarrow> CloudError CAT_UNKNOWN code msg False)"
| "classify_ec2_error (S3TransportError msg) = reraise (S3TransportError msg)"

text \<open>Whether the error is a \<open>ClientError\<close> with one of the given codes.\<close>

definition has_code :: "string set \<Rightarrow> s3_error \<Rightarrow> bool" where
  "has_code codes e = (case e of ClientError code _ \<Rightarrow> code \<in> codes | _ \<Rightarrow> False)"

definition describe_instance :: "'c ec2_client \<Rightarrow> string \<Rightarrow> 'c \<Rightarrow> (exc + ec2_instance option) \<times> 'c" where
  "describe_instance client iid c =
    (case ec_describe client iid c of
       (Inl e, c') \<Rightarrow> (if has_code MISSING_INSTANCE_CODES e then Inr None else Inl (classify_ec2_error e), c')
     | (Inr ((i # _) # _), c') \<Rightarrow> (Inr (Some i), c')
     | (Inr _, c') \<Rightarrow> (Inr None, c'))"

definition ec2_get_state :: "'c ec2_client \<Rightarrow> string \<Rightarrow> 'c \<Rightarrow> (exc + InstanceState) \<times> 'c" where
  "ec2_get_state client iid c =
     apfst (map_sum id (\<lambda>i. case i of None \<Rightarrow> TERMINATED | Some i \<Rightarrow> normalize_ec2_state (ei_state i))) (describe_instance client iid c)"

definition ec2_get_private_ip :: "'c ec2_client \<Rightarrow> string \<Rightarrow> 'c \<Rightarrow> (exc + string option) \<times> 'c" where
  "ec2_get_private_ip client iid c =
     apfst (map_sum id (\<lambda>i. case i of None \<Rightarrow> None | Some i \<Rightarrow> ei_private_ip i)) (describe_instance client iid c)"

text \<open>The shape the power commands share: nothing to do in the states \<open>skip\<close>, and the codes
  \<open>ignored\<close> are no error.\<close>

definition power_command ::
    "'c ec2_client \<Rightarrow> InstanceState set \<Rightarrow> string set \<Rightarrow> (string \<Rightarrow> 'c \<Rightarrow> (s3_error + unit) \<times> 'c) \<Rightarrow> string \<Rightarrow> 'c
      \<Rightarrow> (exc + unit) \<times> 'c" where
  "power_command client skipped ignored command iid c =
    (case ec2_get_state client iid c of
       (Inl e, c1) \<Rightarrow> (Inl e, c1)
     | (Inr st, c1) \<Rightarrow>
         if st \<in> skipped then (Inr (), c1)
         else (case command iid c1 of
                 (Inr _, c2) \<Rightarrow> (Inr (), c2)
               | (Inl e, c2) \<Rightarrow> (if has_code ignored e then Inr () else Inl (classify_ec2_error e), c2)))"

definition ec2_start :: "'c ec2_client \<Rightarrow> string \<Rightarrow> 'c \<Rightarrow> (exc + unit) \<times> 'c" where
  "ec2_start client = power_command client {RUNNING, STARTING} {''IncorrectInstanceState''} (ec_start client)"

definition ec2_stop :: "'c ec2_client \<Rightarrow> string \<Rightarrow> 'c \<Rightarrow> (exc + unit) \<times> 'c" where
  "ec2_stop client = power_command client {SUSPENDED, STOPPING, TERMINATED} {''IncorrectInstanceState''} (ec_stop client)"

definition ec2_terminate :: "'c ec2_client \<Rightarrow> string \<Rightarrow> 'c \<Rightarrow> (exc + unit) \<times> 'c" where
  "ec2_terminate client = power_command client {TERMINATED} (MISSING_INSTANCE_CODES \<union> {''IncorrectInstanceState''}) (ec_terminate client)"

definition ec2_launch :: "'c ec2_client \<Rightarrow> cloud_config option \<Rightarrow> string \<Rightarrow> string \<Rightarrow> int \<Rightarrow> 'c \<Rightarrow> (exc + string) \<times> 'c" where
  "ec2_launch client cloud_cfg wid dep generation c =
    (case cloud_cfg of
       None \<Rightarrow> (Inl (CloudError CAT_INVALID_ID ''MissingCloudConfig'' ''AwsEc2Provider requires cloud config at construction'' False), c)
     | Some cc \<Rightarrow>
         (let (template_id, version, _) = launch_template cc in
          if \<not> truthy template_id
          then (Inl (CloudError CAT_INVALID_ID ''MissingLaunchTemplate'' ''cloud.aws.launch_template_id is required'' False), c)
          else
            (case ec_run client \<lparr>rp_template_id = the template_id, rp_template_version = version, rp_client_token = wid,
                      rp_tags = build_worker_tags wid dep generation\<rparr> c of
               (Inl e, c') \<Rightarrow> (Inl (classify_ec2_error e), c')
             | (Inr [], c') \<Rightarrow> (Inl (OtherException None ''IndexError''), c')
             | (Inr (i # _), c') \<Rightarrow> (Inr (ei_id i), c'))))"

definition tags_from_instance :: "ec2_instance \<Rightarrow> (string \<times> string) list" where
  "tags_from_instance i = fold (\<lambda>(k, v) tags. dict_set k v tags) (ei_tags i) []"

definition discovered :: "ec2_instance \<Rightarrow> DiscoveredInstance" where
  "discovered i =
    (let tags = tags_from_instance i in
     \<lparr>di_instance_id = ei_id i, di_worker_id = map_of tags TAG_WORKER_ID, di_state = normalize_ec2_state (ei_state i), di_tags = tags\<rparr>)"

definition discover_filters :: "string \<Rightarrow> tag_filter list" where
  "discover_filters dep = [(TAG_MANAGED, [''true'']), (TAG_DEPLOYMENT, [dep]), (TAG_ROLE, [TAG_ROLE_WORKER])]"

definition ec2_discover :: "'c ec2_client \<Rightarrow> string \<Rightarrow> 'c \<Rightarrow> (exc + DiscoveredInstance list) \<times> 'c" where
  "ec2_discover client dep c =
     apfst (map_sum classify_ec2_error (\<lambda>pages. map discovered (concat (concat pages)))) (ec_pages client (discover_filters dep) c)"

definition AwsEc2Provider :: "'c ec2_client \<Rightarrow> cloud_config option \<Rightarrow> 'c compute_ops" where
  "AwsEc2Provider client cloud_cfg =
    \<lparr>cp_discover = ec2_discover client, cp_launch = ec2_launch client cloud_cfg, cp_start = ec2_start client,
     cp_stop = ec2_stop client, cp_terminate = ec2_terminate client, cp_get_state = ec2_get_state client,
     cp_get_private_ip = ec2_get_private_ip client\<rparr>"

text \<open>The compute side of the registry: the launch template is resolved once, when the provider is
  built.\<close>

definition get_provider ::
    "(string option \<Rightarrow> string \<Rightarrow> 'c ec2_client) \<Rightarrow> (string \<Rightarrow> s3_error + string) \<Rightarrow> string option \<Rightarrow> gateway_settings
      \<Rightarrow> exc + 'c compute_ops" where
  "get_provider mk_client get_parameter name cfg =
    (let resolved = text_or name (cloud_provider (cloud cfg)); a = cloud_aws (cloud cfg) in
     if resolved = ''aws''
     then map_sum id (\<lambda>cc. AwsEc2Provider (mk_client (aws_ec2_endpoint_url a) (aws_region a)) (Some cc))
       (resolve_cloud_config get_parameter (cloud cfg))
     else Inl (OtherException None (''Cloud provider '' @ [CHR 39] @ resolved @ [CHR 39]
            @ '' is not implemented. Available: ['' @ [CHR 39] @ ''aws'' @ [CHR 39] @ '']'')))"

definition init_provider ::
    "(string option \<Rightarrow> string \<Rightarrow> 'c ec2_client) \<Rightarrow> (string \<Rightarrow> s3_error + string) \<Rightarrow> gateway_settings
      \<Rightarrow> exc + 'c compute_ops option" where
  "init_provider mk_client get_parameter cfg =
    (if \<not> cloud_workers_enabled cfg then Inr None
     else map_sum id Some (get_provider mk_client get_parameter (Some (cloud_provider (cloud cfg))) cfg))"

text \<open>What \<open>_run_scheduler\<close> checks and builds before it takes the lock.\<close>

definition run_scheduler ::
    "(string option \<Rightarrow> string \<Rightarrow> 's s3_client) \<Rightarrow> (string option \<Rightarrow> string \<Rightarrow> 'c ec2_client) \<Rightarrow> (string \<Rightarrow> s3_error + string)
      \<Rightarrow> int \<Rightarrow> string \<Rightarrow> gateway_settings \<Rightarrow> db \<Rightarrow> 's \<Rightarrow> (exc + 's store_ops \<times> 'c compute_ops option) \<times> 's" where
  "run_scheduler mk_s3 mk_ec2 get_parameter protocol_version version cfg d s =
    (case init_store mk_s3 cfg True s of
       (Inl e, s1) \<Rightarrow> (Inl e, s1)
     | (Inr None, s1) \<Rightarrow> (Inl (OtherException None ''Object store is required for scheduler''), s1)
     | (Inr (Some st), s1) \<Rightarrow>
         (case validate_startup_dependencies protocol_version version cfg (Some st) d of
            Inl e \<Rightarrow> (Inl e, s1)
          | Inr _ \<Rightarrow>
              (case init_provider mk_ec2 get_parameter cfg of
                 Inl e \<Rightarrow> (Inl e, s1)
               | Inr provider \<Rightarrow>
                   if cloud_workers_enabled cfg \<and> provider = None
                   then (Inl (OtherException None ''Cloud workers enabled but compute provider failed to initialize''), s1)
                   else (Inr (st, provider), s1))))"

section \<open>Interfaces\<close>

text \<open>What the scheduler may rely on: \<open>launched c\<close> holds instance, worker and deployment of every launch,
  \<open>visible c\<close> the instances a discovery in \<open>c\<close> cannot miss.\<close>

locale compute_provider =
  fixes provider :: "'c compute_ops"
    and launched :: "'c \<Rightarrow> (string \<times> string \<times> string) set"
    and visible :: "'c \<Rightarrow> string set"
  assumes launch_recorded: "cp_launch provider wid dep g c = (Inr iid, c') \<Longrightarrow> (iid, wid, dep) \<in> launched c'"
    and discover_managed: "cp_discover provider dep c = (Inr found, c') \<Longrightarrow> x \<in> set found \<Longrightarrow>
            is_managed x \<and> map_of (di_tags x) TAG_DEPLOYMENT = Some dep"
    and discover_worker: "cp_discover provider dep c = (Inr found, c') \<Longrightarrow> x \<in> set found \<Longrightarrow>
            (di_instance_id x, wid, dep') \<in> launched c \<Longrightarrow> di_worker_id x = Some wid"
    and discover_visible: "cp_discover provider dep c = (Inr found, c') \<Longrightarrow> (iid, wid, dep) \<in> launched c \<Longrightarrow>
            iid \<in> visible c \<Longrightarrow> iid \<in> di_instance_id ` set found"
begin

lemma launched_found:
  assumes "cp_launch provider wid dep g c = (Inr iid, c1)" and "launched c1 \<subseteq> launched c2"
    and "cp_discover provider dep c2 = (Inr found, c3)"
  shows "\<forall>x \<in> set found. is_managed x \<and> map_of (di_tags x) TAG_DEPLOYMENT = Some dep
      \<and> (di_instance_id x = iid \<longrightarrow> di_worker_id x = Some wid)"
    and "iid \<in> visible c2 \<Longrightarrow> iid \<in> di_instance_id ` set found"
proof -
  have known: "(iid, wid, dep) \<in> launched c2" using launch_recorded [OF assms(1)] assms(2) by blast
  show "\<forall>x \<in> set found. is_managed x \<and> map_of (di_tags x) TAG_DEPLOYMENT = Some dep
      \<and> (di_instance_id x = iid \<longrightarrow> di_worker_id x = Some wid)"
    using discover_managed [OF assms(3)] discover_worker [OF assms(3)] known by blast
  show "iid \<in> visible c2 \<Longrightarrow> iid \<in> di_instance_id ` set found"
    using discover_visible [OF assms(3) known] .
qed

end

definition tag_matches :: "tag_filter list \<Rightarrow> ec2_instance \<Rightarrow> bool" where
  "tag_matches fs i = list_all (\<lambda>(k, vs). list_ex (\<lambda>(k', v). k' = k \<and> v \<in> set vs) (ei_tags i)) fs"

text \<open>The documented behaviour of EC2: \<open>insts\<close> are the tags of every instance there is. A successful
  \<open>run_instances\<close> for one instance answers with one, which carries the tags of the request. A listing
  holds instances that match its filters, under their tags, with distinct keys; an instance that
  exists need not be in it until it is \<open>visible\<close>.\<close>

locale ec2_service =
  fixes client :: "'c ec2_client"
    and insts :: "'c \<Rightarrow> string \<Rightarrow> (string \<times> string) list option"
    and visible :: "'c \<Rightarrow> string set"
  assumes run_tagged: "ec_run client p c = (Inr xs, c') \<Longrightarrow>
            \<exists>i tags. xs = [i] \<and> insts c' (ei_id i) = Some tags \<and> set (rp_tags p) \<subseteq> set tags"
    and pages_sound: "ec_pages client fs c = (Inr pages, c') \<Longrightarrow> x \<in> set (concat (concat pages)) \<Longrightarrow>
            tag_matches fs x \<and> distinct (map fst (ei_tags x)) \<and> insts c (ei_id x) = Some (ei_tags x)"
    and pages_visible: "ec_pages client fs c = (Inr pages, c') \<Longrightarrow> insts c iid = Some tags \<Longrightarrow> iid \<in> visible c \<Longrightarrow>
            \<forall>(k, vs) \<in> set fs. \<exists>v \<in> set vs. (k, v) \<in> set tags \<Longrightarrow> \<exists>x \<in> set (concat (concat pages)). ei_id x = iid"

lemma dict_fold_distinct:
  "distinct (map fst (acc @ ts)) \<Longrightarrow> fold (\<lambda>(k, v) tags. dict_set k v tags) ts acc = acc @ ts"
proof (induction ts arbitrary: acc)
  case (Cons kv ts)
  obtain k v where kv: "kv = (k, v)" by (cases kv)
  have "dict_set k v acc = acc @ [(k, v)]" if "k \<notin> fst ` set acc" for acc :: "('a \<times> 'b) list"
    using that by (induction acc) auto
  then show ?case using Cons.IH [of "acc @ [(k, v)]"] Cons.prems by (auto simp: kv)
qed simp

lemma tags_unique: "distinct (map fst (ei_tags i)) \<Longrightarrow> tags_from_instance i = ei_tags i"
  using dict_fold_distinct [of "[]" "ei_tags i"] by (simp add: tags_from_instance_def)

text \<open>What discovery reads off an instance with the given tags.\<close>

lemma discovered_tag:
  assumes "distinct (map fst (ei_tags i))" and "(k, v) \<in> set (ei_tags i)"
  shows "map_of (di_tags (discovered i)) k = Some v"
  using assms by (simp add: discovered_def tags_unique Let_def)

lemma discovered_worker: "di_worker_id (discovered i) = map_of (di_tags (discovered i)) TAG_WORKER_ID"
  by (simp add: discovered_def Let_def)

lemma discovered_id [simp]: "di_instance_id (discovered i) = ei_id i"
  by (simp add: discovered_def Let_def)

lemma discover_filters_match:
  assumes "tag_matches (discover_filters dep) i"
  shows "{(TAG_MANAGED, ''true''), (TAG_DEPLOYMENT, dep), (TAG_ROLE, TAG_ROLE_WORKER)} \<subseteq> set (ei_tags i)"
  using assms by (auto simp: tag_matches_def discover_filters_def list_ex_iff)

lemma worker_tags_match:
  assumes "set (build_worker_tags wid dep g) \<subseteq> set tags"
  shows "\<forall>(k, vs) \<in> set (discover_filters dep). \<exists>v \<in> set vs. (k, v) \<in> set tags"
    and "(TAG_WORKER_ID, wid) \<in> set tags"
  using assms by (auto simp: build_worker_tags_def discover_filters_def)

text \<open>The launches a state of EC2 knows of.\<close>

definition ec2_launched :: "('c \<Rightarrow> string \<Rightarrow> (string \<times> string) list option) \<Rightarrow> 'c \<Rightarrow> (string \<times> string \<times> string) set" where
  "ec2_launched insts c =
     {(iid, wid, dep). \<exists>tags g. insts c iid = Some tags \<and> set (build_worker_tags wid dep g) \<subseteq> set tags}"

lemma ec2_launched_mono: "insts c1 \<subseteq>\<^sub>m insts c2 \<Longrightarrow> ec2_launched insts c1 \<subseteq> ec2_launched insts c2"
  by (fastforce simp: ec2_launched_def map_le_def dom_def)

lemma launch_runs:
  assumes "ec2_launch client cc wid dep g c = (Inr iid, c')"
  obtains p i xs where "ec_run client p c = (Inr (i # xs), c')" "rp_client_token p = wid"
    "rp_tags p = build_worker_tags wid dep g" "iid = ei_id i"
  using assms that
  by (auto simp: ec2_launch_def Let_def split: option.splits prod.splits if_splits sum.splits list.splits)

lemma discover_lists:
  assumes "ec2_discover client dep c = (Inr found, c')"
  obtains pages where "ec_pages client (discover_filters dep) c = (Inr pages, c')"
    "found = map discovered (concat (concat pages))"
  using assms by (auto simp: ec2_discover_def apfst_sum)

sublocale ec2_service \<subseteq> prov: compute_provider "AwsEc2Provider client cc" "ec2_launched insts" visible for cc
proof (unfold_locales, goal_cases)
  case (1 wid dep g c iid c')
  then have "ec2_launch client cc wid dep g c = (Inr iid, c')" by (simp add: AwsEc2Provider_def)
  then obtain p i xs where "ec_run client p c = (Inr (i # xs), c')" "rp_tags p = build_worker_tags wid dep g" "iid = ei_id i"
    by (rule launch_runs)
  with run_tagged [OF this(1)] show ?case by (auto simp: ec2_launched_def)
next
  case (2 dep c found c' x)
  then have "ec2_discover client dep c = (Inr found, c')" by (simp add: AwsEc2Provider_def)
  then obtain pages where pages: "ec_pages client (discover_filters dep) c = (Inr pages, c')"
    "found = map discovered (concat (concat pages))" by (rule discover_lists)
  then obtain i where i: "i \<in> set (concat (concat pages))" "x = discovered i" using 2(2) by auto
  note S = pages_sound [OF pages(1) i(1)]
  show ?case
    using discover_filters_match [of dep i] discovered_tag [of i] S by (auto simp: i(2) is_managed_def)
next
  case (3 dep c found c' x wid dep')
  then have "ec2_discover client dep c = (Inr found, c')" by (simp add: AwsEc2Provider_def)
  then obtain pages where pages: "ec_pages client (discover_filters dep) c = (Inr pages, c')"
    "found = map discovered (concat (concat pages))" by (rule discover_lists)
  then obtain i where i: "i \<in> set (concat (concat pages))" "x = discovered i" using 3(2) by auto
  note S = pages_sound [OF pages(1) i(1)]
  then have "(TAG_WORKER_ID, wid) \<in> set (ei_tags i)"
    using 3(3) worker_tags_match(2) by (fastforce simp: ec2_launched_def i(2))
  then show ?case using discovered_tag [of i] S by (simp add: i(2) discovered_worker)
next
  case (4 dep c found c' iid wid)
  then have "ec2_discover client dep c = (Inr found, c')" by (simp add: AwsEc2Provider_def)
  then obtain pages where pages: "ec_pages client (discover_filters dep) c = (Inr pages, c')"
    "found = map discovered (concat (concat pages))" by (rule discover_lists)
  obtain tags g where tags: "insts c iid = Some tags" "set (build_worker_tags wid dep g) \<subseteq> set tags"
    using 4(2) by (auto simp: ec2_launched_def)
  obtain x where "x \<in> set (concat (concat pages))" "ei_id x = iid"
    using pages_visible [OF pages(1) tags(1) 4(3) worker_tags_match(1) [OF tags(2)]] by blast
  then show ?case unfolding pages(2) by force
qed

context ec2_service
begin

lemma provides: "compute_provider (AwsEc2Provider client cc) (ec2_launched insts) visible"
  by (rule prov.compute_provider_axioms)

end

text \<open>EC2 in memory: the requests that started an instance, and how many of these instances a listing
  knows; each listing catches up by one. A repeated client token answers with the instance it started,
  or with an error when the request differs.\<close>

definition mem_instance :: "run_params list \<Rightarrow> nat \<Rightarrow> ec2_instance" where
  "mem_instance ps k = \<lparr>ei_id = ''i-'' @ show_nat k, ei_state = ''pending'', ei_private_ip = None,
     ei_tags = (if distinct (map fst (rp_tags (ps ! k))) then rp_tags (ps ! k) else [])\<rparr>"

definition mem_insts :: "run_params list \<times> nat \<Rightarrow> string \<Rightarrow> (string \<times> string) list option" where
  "mem_insts c = map_of (map (\<lambda>k. (''i-'' @ show_nat k, ei_tags (mem_instance (fst c) k))) [0..<length (fst c)])"

definition mem_listed :: "run_params list \<times> nat \<Rightarrow> nat list" where
  "mem_listed c = [0..<min (snd c) (length (fst c))]"

definition mem_visible :: "run_params list \<times> nat \<Rightarrow> string set" where
  "mem_visible c = (\<lambda>k. ''i-'' @ show_nat k) ` set (mem_listed c)"

definition memory_ec2 :: "(run_params list \<times> nat) ec2_client" where
  "memory_ec2 = \<lparr>ec_describe = (\<lambda>iid c. (Inr [filter (\<lambda>i. ei_id i = iid) (map (mem_instance (fst c)) [0..<length (fst c)])], c)),
     ec_pages = (\<lambda>fs c. (Inr [[filter (tag_matches fs) (map (mem_instance (fst c)) (mem_listed c))]], (fst c, Suc (snd c)))),
     ec_run = (\<lambda>p c.
        if \<not> distinct (map fst (rp_tags p)) then (Inl (ClientError ''InvalidParameterValue'' ''Duplicate tag key''), c)
        else case find (\<lambda>k. rp_client_token (fst c ! k) = rp_client_token p) [0..<length (fst c)] of
               Some k \<Rightarrow> if fst c ! k = p then (Inr [mem_instance (fst c) k], c)
                 else (Inl (ClientError ''IdempotentParameterMismatch'' []), c)
             | None \<Rightarrow> (Inr [mem_instance (fst c @ [p]) (length (fst c))], (fst c @ [p], snd c))),
     ec_start = (\<lambda>_ c. (Inr (), c)), ec_stop = (\<lambda>_ c. (Inr (), c)), ec_terminate = (\<lambda>_ c. (Inr (), c))\<rparr>"

lemma show_nat_injective: "show_nat m = show_nat n \<Longrightarrow> m = n"
  by (metis show_nat_digits)

lemma mem_insts_at: "k < length (fst c) \<Longrightarrow> mem_insts c (''i-'' @ show_nat k) = Some (ei_tags (mem_instance (fst c) k))"
  unfolding mem_insts_def
  by (intro map_of_is_SomeI) (auto simp: distinct_map inj_on_def dest: show_nat_injective)

lemma mem_insts_Some:
  "mem_insts c iid = Some tags \<Longrightarrow> \<exists>k < length (fst c). iid = ''i-'' @ show_nat k \<and> tags = ei_tags (mem_instance (fst c) k)"
  unfolding mem_insts_def by (drule map_of_SomeD) auto

lemma mem_run_tagged:
  assumes "ec_run memory_ec2 p c = (Inr xs, c')"
  shows "\<exists>i tags. xs = [i] \<and> mem_insts c' (ei_id i) = Some tags \<and> set (rp_tags p) \<subseteq> set tags"
proof -
  have dist: "distinct (map fst (rp_tags p))" using assms by (simp add: memory_ec2_def split: if_splits)
  show ?thesis
  proof (cases "find (\<lambda>k. rp_client_token (fst c ! k) = rp_client_token p) [0..<length (fst c)]")
    case None
    then have "xs = [mem_instance (fst c @ [p]) (length (fst c))]" "c' = (fst c @ [p], snd c)"
      using assms dist by (simp_all add: memory_ec2_def)
    then show ?thesis using mem_insts_at [of "length (fst c)" c'] dist by (simp add: mem_instance_def)
  next
    case (Some k)
    then have "fst c ! k = p" "xs = [mem_instance (fst c) k]" "c' = c"
      using assms dist by (auto simp: memory_ec2_def split: if_splits)
    moreover have "k < length (fst c)" using Some by (auto simp: find_Some_iff)
    ultimately show ?thesis using mem_insts_at [of k c] dist by (simp add: mem_instance_def)
  qed
qed

interpretation mem_ec2: ec2_service memory_ec2 mem_insts mem_visible
proof (unfold_locales, goal_cases)
  case (1 p c xs c')
  then show ?case by (rule mem_run_tagged)
next
  case (2 fs c pages c' x)
  then obtain k where "k \<in> set (mem_listed c)" "x = mem_instance (fst c) k" "tag_matches fs x"
    by (auto simp: memory_ec2_def)
  moreover from this(1) have "k < length (fst c)" by (simp add: mem_listed_def)
  ultimately show ?case using mem_insts_at [of k c] by (auto simp: mem_instance_def)
next
  case (3 fs c pages c' iid tags)
  then obtain k where k: "k \<in> set (mem_listed c)" "iid = ''i-'' @ show_nat k" by (auto simp: mem_visible_def)
  then have "k < length (fst c)" by (simp add: mem_listed_def)
  then have "tags = ei_tags (mem_instance (fst c) k)" using 3(2) mem_insts_at [of k c] k(2) by simp
  then have "tag_matches fs (mem_instance (fst c) k)"
    using 3(4) by (fastforce simp: tag_matches_def list_all_iff list_ex_iff)
  moreover have "ei_id (mem_instance (fst c) k) = iid" by (simp add: mem_instance_def k(2))
  moreover have "set (concat (concat pages)) = {x \<in> mem_instance (fst c) ` set (mem_listed c). tag_matches fs x}"
    using 3(1) by (auto simp: memory_ec2_def)
  ultimately show ?case using k(1) by blast
qed

section \<open>Properties\<close>

text \<open>C27: The VM of a worker is found again under its worker. After a successful launch, in any later state
  in which no instance has lost its tags, whatever a discovery returns belongs to the deployment and is
  recognised as managed, and if the launched VM is among it, it is there under the worker's id, so that
  reconciliation neither takes it for an orphan nor for another worker's. It is among it as soon as
  EC2's listings, which are eventually consistent, show it; until then a discovery may miss it.\<close>

theorem launched_worker_discovered:
  assumes "ec2_service client insts visible"
    and "cp_launch (AwsEc2Provider client cc) wid dep g c = (Inr iid, c1)"
    and "insts c1 \<subseteq>\<^sub>m insts c2"
    and "cp_discover (AwsEc2Provider client cc) dep c2 = (Inr found, c3)"
  shows "(\<forall>x \<in> set found. is_managed x \<and> map_of (di_tags x) TAG_DEPLOYMENT = Some dep
        \<and> (di_instance_id x = iid \<longrightarrow> di_worker_id x = Some wid))
    \<and> (iid \<in> visible c2 \<longrightarrow> iid \<in> di_instance_id ` set found)"
proof -
  have prov: "compute_provider (AwsEc2Provider client cc) (ec2_launched insts) visible"
    by (rule ec2_service.provides [OF assms(1)])
  from compute_provider.launched_found [OF prov assms(2) ec2_launched_mono [OF assms(3)] assms(4)]
  show ?thesis by blast
qed

text \<open>The first discovery after the launch misses the VM, the second one finds it.\<close>

theorem launched_worker_discovered_witness:
  "\<exists>c1 c2 found c3. cp_launch (AwsEc2Provider memory_ec2 (Some \<lparr>cloud_provider = ''aws'',
        cloud_aws = default_aws\<lparr>aws_launch_template_id := Some ''lt-1''\<rparr>\<rparr>)) ''cloud-1'' ''dev'' 1 ([], 0) = (Inr ''i-0'', c1)
    \<and> cp_discover (AwsEc2Provider memory_ec2 None) ''dev'' c1 = (Inr [], c2)
    \<and> cp_discover (AwsEc2Provider memory_ec2 None) ''dev'' c2 = (Inr found, c3)
    \<and> (\<exists>x \<in> set found. di_instance_id x = ''i-0'' \<and> di_worker_id x = Some ''cloud-1'' \<and> is_managed x)"
proof -
  let ?cc = "Some \<lparr>cloud_provider = ''aws'', cloud_aws = default_aws\<lparr>aws_launch_template_id := Some ''lt-1''\<rparr>\<rparr>"
  let ?p = "\<lparr>rp_template_id = ''lt-1'', rp_template_version = ''$Latest'', rp_client_token = ''cloud-1'',
     rp_tags = build_worker_tags ''cloud-1'' ''dev'' 1\<rparr>"
  have zero: "show_nat 0 = ''0''" by code_simp
  have tags: "distinct (map fst (rp_tags ?p))"
    by (simp add: build_worker_tags_def TAG_NAME_def TAG_MANAGED_def TAG_DEPLOYMENT_def TAG_WORKER_ID_def TAG_ROLE_def TAG_GENERATION_def)
  have run: "cp_launch (AwsEc2Provider memory_ec2 ?cc) ''cloud-1'' ''dev'' 1 ([], 0) = (Inr ''i-0'', ([?p], 0))"
    using tags zero by (simp add: AwsEc2Provider_def ec2_launch_def launch_template_def memory_ec2_def default_aws_def mem_instance_def)
  have first: "cp_discover (AwsEc2Provider memory_ec2 ?cc) ''dev'' ([?p], 0) = (Inr [], ([?p], 1))"
    by (simp add: AwsEc2Provider_def ec2_discover_def memory_ec2_def mem_listed_def)
  obtain found where second: "cp_discover (AwsEc2Provider memory_ec2 ?cc) ''dev'' ([?p], 1) = (Inr found, ([?p], 2))"
    by (simp add: AwsEc2Provider_def ec2_discover_def memory_ec2_def numeral_2_eq_2)
  have same: "cp_discover (AwsEc2Provider memory_ec2 None) = cp_discover (AwsEc2Provider memory_ec2 ?cc)" by (simp add: AwsEc2Provider_def)
  have "mem_insts ([?p], 0) \<subseteq>\<^sub>m mem_insts ([?p], 1)" by (simp add: mem_insts_def)
  note found = launched_worker_discovered [OF mem_ec2.ec2_service_axioms run this second]
  have "''i-0'' \<in> mem_visible ([?p], 1)" using zero by (simp add: mem_visible_def mem_listed_def)
  with found have "\<exists>x \<in> set found. di_instance_id x = ''i-0'' \<and> di_worker_id x = Some ''cloud-1'' \<and> is_managed x"
    by fastforce
  with run first second show ?thesis unfolding same by blast
qed

end
