(* ===== verification/System.thy ===== *)
theory System
  imports Progress Ec2
begin

text \<open>
  The running system: one scheduler process and the gateway over the same database and object store.
  Every step is one tick of the scheduler, one request to the gateway, or a restart of the scheduler,
  in any order and with any inputs; each step is executed as a whole. The synchronous routes change the
  state only by their ingest, which is the step listed here; their polling reads. Below it, the abstract view of a
  task that clients have: it is created, moves along the lifecycle, and is forgotten once finished.
\<close>

section \<open>Definitions\<close>

definition at_state :: "('c, 's, 'l) process \<Rightarrow> 's \<Rightarrow> db \<Rightarrow> ('c, 's, 'l) process" where
  "at_state p s d = (set_db d p)\<lparr>pr_store := s\<rparr>"

inductive system_step :: "gateway_settings \<Rightarrow> 's store_ops \<Rightarrow> ('c, 's, 'l) process \<Rightarrow> ('c, 's, 'l) process \<Rightarrow> bool"
  for cfg :: gateway_settings and st :: "'s store_ops" where
  dispatch_tick: "system_step cfg st p p'"
    if "fast_tick cfg (ti :: ('c, 's, 'l, multipart_payload) tick_inputs) p = (r, p')"
      and "\<forall>j. pe_interfere (ti_persist ti) j = (\<lambda>d. d)"
| reconcile_tick: "system_step cfg st p p'"
    if "slow_tick cfg (ti :: ('c, 's, 'l, multipart_payload) tick_inputs) p = (r, p')"
      and "ti_store ti = st" and "ti_interfere ti = (\<lambda>_ d. d)"
| task_request: "system_step cfg st p (at_state p s d)"
    if "submit_task (Some st) cfg env staging content_length nocache form (pr_store p) (pr_db p) = (resp, s, d)"
| ocr_request: "system_step cfg st p (at_state p s d)"
    if "build_payload file_bytes file_name body = Inr q"
      and "ingest_payload (Some st) cfg env ''ocr'' nocache q (pr_store p) (pr_db p) = (resp, s, d)"
| drain_request: "system_step cfg st p (at_state p (pr_store p) (snd (drain_worker cfg now wid cmd terminate (pr_db p))))"
| rotate_request: "system_step cfg st p (at_state p (pr_store p) (snd (rotate_worker cfg now wid cmd (pr_db p))))"
| recover_request: "system_step cfg st p (at_state p (pr_store p) (snd (admin_recover_worker cfg now wid cmd (pr_db p))))"
| invalidate_request: "system_step cfg st p (at_state p s d)"
    if "invalidate_cache (Some st) (\<lambda>d. d) (\<lambda>d. d) ck (pr_store p) (pr_db p) = (resp, s, d)"
| sweep_request: "system_step cfg st p (at_state p s d)"
    if "sweep_cache (Some st) (\<lambda>_ d. d) now (pr_store p) (pr_db p) = (resp, s, d)"
| restart: "system_step cfg st p (p\<lparr>pr_sched := new_sched l, pr_conn := conn\<rparr>)"

text \<open>Reached from an empty database by any sequence of steps.\<close>

inductive reachable :: "gateway_settings \<Rightarrow> 's store_ops \<Rightarrow> ('c, 's, 'l) process \<Rightarrow> bool"
  for cfg :: gateway_settings and st :: "'s store_ops" where
  start: "reachable cfg st p" if "pr_db p = empty_db"
| step: "reachable cfg st p'" if "reachable cfg st p" and "system_step cfg st p p'"

text \<open>The abstract task: its status as clients can see it, absent before it is created and after it was
  cleaned up.\<close>

definition task_view :: "db \<Rightarrow> string \<Rightarrow> task_status option" where
  "task_view d tid = map_option t_status (get_task tid d)"

inductive view_step :: "task_status option \<Rightarrow> task_status option \<Rightarrow> bool" where
  absent: "view_step None None"
| create: "view_step None (Some TASK_QUEUED)"
| create_hit: "view_step None (Some TASK_COMPLETED)"
| move: "lifecycle\<^sup>*\<^sup>* a b \<Longrightarrow> view_step (Some a) (Some b)"
| forget: "a \<in> TASK_STATUSES_TERMINAL \<Longrightarrow> view_step (Some a) None"

inductive_simps view_step_simps: "view_step a b"

text \<open>What every state of the system satisfies.\<close>

definition system_ok :: "gateway_settings \<Rightarrow> db \<Rightarrow> bool" where
  "system_ok cfg d \<longleftrightarrow> tasks_ok d \<and> (\<forall>wid. int (compute_load d wid) \<le> target_per_worker (scaling cfg))"

definition good_step :: "gateway_settings \<Rightarrow> db \<Rightarrow> db \<Rightarrow> bool" where
  "good_step cfg d d' \<longleftrightarrow> (system_ok cfg d \<longrightarrow> system_ok cfg d' \<and> (\<forall>tid. view_step (task_view d tid) (task_view d' tid)))"

text \<open>What a step may do to the fleet: rows evolve, new ones are only appended, and the two counts grow
  no further than the reconciler lets them.\<close>

definition fleet_grows :: "gateway_settings \<Rightarrow> db \<Rightarrow> db \<Rightarrow> bool" where
  "fleet_grows cfg d d' \<longleftrightarrow>
     (\<exists>rows new. db_workers d' = rows @ new \<and> list_all2 worker_evolves (db_workers d) rows)
     \<and> count_workers cfg d' \<le> max (count_workers cfg d) (max_workers (scaling cfg) + 1)
     \<and> count_active_replacements cfg d' \<le> max (count_active_replacements cfg d) 1"

section \<open>Lemmas\<close>

lemma at_state_db [simp]: "pr_db (at_state p s d) = d" "pr_store (at_state p s d) = s"
  by (simp_all add: at_state_def set_db_def)

lemma view_same: "view_step a a"
  by (cases a) (auto intro: view_step.intros)

lemma evolve_get:
  assumes "list_all2 task_evolves xs ys"
  shows "rel_option task_evolves (db_get t_task_id k xs) (db_get t_task_id k ys)"
  using assms by (induction rule: list_all2_induct) (auto simp: db_get_def task_evolves_def)

lemma good_safe:
  assumes "safe_step cfg d d'" shows "good_step cfg d d'"
  unfolding good_step_def
proof (intro impI)
  assume ok: "system_ok cfg d"
  then have S: "tasks_ok d'" "list_all2 task_evolves (db_tasks d) (db_tasks d')"
    "\<forall>wid. int (compute_load d' wid) \<le> max (int (compute_load d wid)) (target_per_worker (scaling cfg))"
    using assms by (simp_all add: safe_step_def system_ok_def)
  have "view_step (task_view d tid) (task_view d' tid)" for tid
    using evolve_get [OF S(2), of tid]
    by (cases "get_task tid d"; cases "get_task tid d'") (auto simp: task_view_def get_task_def task_evolves_def intro: view_step.intros)
  moreover have "\<forall>wid. int (compute_load d' wid) \<le> target_per_worker (scaling cfg)"
    using S(3) ok by (auto simp: system_ok_def max_def split: if_splits dest: spec)
  ultimately show "system_ok cfg d' \<and> (\<forall>tid. view_step (task_view d tid) (task_view d' tid))"
    using S(1) by (simp add: system_ok_def)
qed

lemma good_tasks_same:
  assumes "db_tasks d' = db_tasks d" and "db_wf d \<Longrightarrow> db_wf d'" shows "good_step cfg d d'"
  using assms by (auto simp: good_step_def system_ok_def tasks_ok_def task_count_def task_view_def get_task_def view_same)

lemma good_append:
  assumes "db_tasks d' = db_tasks d @ [row]" and "db_wf d \<Longrightarrow> db_wf d'" and "task_ok row"
    and "t_status row \<in> {TASK_QUEUED, TASK_COMPLETED}"
  shows "good_step cfg d d'"
  unfolding good_step_def
proof (intro impI)
  assume ok: "system_ok cfg d"
  then have wf: "db_wf d'" using assms(2) by (simp add: system_ok_def tasks_ok_def)
  then have fresh: "t_task_id row \<notin> t_task_id ` set (db_tasks d)" using assms(1) by (auto simp: db_wf_def)
  have "compute_load d' wid = compute_load d wid" for wid
    using assms(1,4) by (auto simp: task_count_def db_count_def TASK_STATUSES_COMPUTE_CAPACITY_def)
  then have "system_ok cfg d'" using ok wf assms(1,3) by (simp add: system_ok_def tasks_ok_def)
  moreover have none: "get_task (t_task_id row) d = None" using fresh unfolding get_task_def db_get_None by auto
  moreover have "get_task tid d' = (if tid = t_task_id row then Some row else get_task tid d)" for tid
    using none assms(1) by (cases "get_task tid d") (auto simp: get_task_def db_get_append)
  ultimately show "system_ok cfg d' \<and> (\<forall>tid. view_step (task_view d tid) (task_view d' tid))"
    using assms(4) by (auto simp: task_view_def view_same intro: view_step.intros)
qed

lemma get_filtered:
  "db_get t_task_id k (filter (\<lambda>t. t_task_id t \<notin> D) rows) = (if k \<in> D then None else db_get t_task_id k rows)"
  by (induction rows) (auto simp: db_get_def)

lemma good_retained:
  assumes "db_wf d'" and "retained cutoff d d'" shows "good_step cfg d d'"
  unfolding good_step_def
proof (intro impI)
  assume ok: "system_ok cfg d"
  obtain D where D: "db_tasks d' = filter (\<lambda>t. t_task_id t \<notin> D) (db_tasks d)"
    "\<forall>t \<in> set (db_tasks d). t_task_id t \<in> D \<longrightarrow> t_status t \<in> TASK_STATUSES_TERMINAL"
    using assms(2) by (auto simp: retained_def retention_expired_def)
  have "compute_load d' wid \<le> compute_load d wid" for wid
    unfolding task_count_def D(1) db_count_def filter_filter conj_commute [of "t_task_id _ \<notin> D"]
    by (simp only: filter_filter [symmetric] length_filter_le)
  then have "\<forall>wid. int (compute_load d' wid) \<le> target_per_worker (scaling cfg)"
    using ok unfolding system_ok_def by (meson of_nat_le_iff order_trans)
  then have "system_ok cfg d'" using ok assms(1) D(1) by (auto simp: system_ok_def tasks_ok_def list_all_iff)
  moreover have "get_task tid d' = (if tid \<in> D then None else get_task tid d)" for tid
    unfolding get_task_def D(1) by (rule get_filtered)
  moreover have "t_status t \<in> TASK_STATUSES_TERMINAL" if "tid \<in> D" "get_task tid d = Some t" for tid t
    using D(2) that get_task_Some [OF that(2)] by auto
  ultimately have view: "view_step (task_view d tid) (task_view d' tid)" for tid
    by (cases "tid \<in> D"; cases "get_task tid d") (auto simp: task_view_def view_same intro: view_step.forget)
  show "system_ok cfg d' \<and> (\<forall>tid. view_step (task_view d tid) (task_view d' tid))"
    using \<open>system_ok cfg d'\<close> view by simp
qed

lemma good_trans: "good_step cfg d d1 \<Longrightarrow> db_tasks d1 = db_tasks d \<Longrightarrow> good_step cfg d1 d' \<Longrightarrow> good_step cfg d d'"
  by (simp add: good_step_def task_view_def get_task_def)

lemma good_slow:
  assumes "slow_effect cfg now d d'" shows "good_step cfg d d'"
proof -
  obtain dm where dm: "fleet_bounded cfg d dm" "retained (now - days (retention_days (retention cfg))) dm d'" "db_wf d'"
    using assms unfolding slow_effect_def by blast
  have "good_step cfg d dm" using dm(1) by (intro good_tasks_same) (auto simp: fleet_bounded_def)
  then show ?thesis using good_trans good_retained [OF dm(3,2)] dm(1) unfolding fleet_bounded_def by metis
qed

lemma invalidate_tables:
  assumes "invalidate st (\<lambda>d. d) (\<lambda>d. d) ck s d = (r, s', d')"
  shows "db_tasks d' = db_tasks d" "db_wf d \<Longrightarrow> db_wf d'"
  using assms
  by (auto simp: invalidate_def claim_generation_def remove_generation_def Let_def db_wf_def db_update_where_keys
      distinct_map_filter split: option.splits if_splits prod.splits bool.splits)

lemma admin_tables:
  assumes "\<And>r. w_id (f r) = w_id r"
  shows "db_tasks (snd (admin_update cfg now wid f a reason q d)) = db_tasks d"
    and "db_wf d \<Longrightarrow> db_wf (snd (admin_update cfg now wid f a reason q d))"
  using assms by (auto simp: admin_update_def Let_def record_scaling_event_now_def split: option.splits)

lemma good_admin:
  "good_step cfg d (snd (drain_worker cfg now wid cmd terminate d))"
  "good_step cfg d (snd (rotate_worker cfg now wid cmd d))"
  "good_step cfg d (snd (admin_recover_worker cfg now wid cmd d))"
  unfolding drain_worker_def rotate_worker_def admin_recover_worker_def set_drain_intent_def set_rotation_requested_def
    recover_worker_def snd_apfst
  by (rule good_tasks_same; rule admin_tables; simp add: Let_def)+

lemma good_ingest:
  assumes "other_tables d d'" and "case r of Inl _ \<Rightarrow> db_tasks d' = db_tasks d
    | Inr result \<Rightarrow> \<exists>row. db_tasks d' = db_tasks d @ [row] \<and> task_ok row \<and> ir_task_id result = tid
        \<and> durable contents s' q result row"
  shows "good_step cfg d d'"
proof (cases r)
  case (Inl e)
  then show ?thesis using assms by (intro good_tasks_same) (auto simp: other_tables_def)
next
  case (Inr result)
  then obtain row where row: "db_tasks d' = db_tasks d @ [row]" "task_ok row" "durable contents s' q result row" using assms(2) by auto
  then show ?thesis using assms(1) by (intro good_append [OF row(1)]) (auto simp: other_tables_def durable_def split: if_splits)
qed

lemma build_payload_names:
  assumes "build_payload file_bytes file_name body = Inr q" and "u \<in> set (mp_uploads q)"
  shows "sanitize_client_filename (su_upload_name u) = Inr (su_upload_name u)"
proof -
  obtain n where "sanitize_client_filename n = Inr (su_upload_name u)"
    using assms by (auto simp: build_payload_def Let_def split: sum.splits)
  then show ?thesis using sanitize_identity by metis
qed

text \<open>A request to submit a task changes the state only by its ingest.\<close>

lemma submit_ingests:
  assumes "submit_task (Some st) cfg env staging content_length nocache form s0 d0 = (resp, s, d)"
  obtains (same) "d = d0" | (ingest) r where "ingest_task (Some st) cfg env staging ''tasks'' nocache form s0 d0 = (r, s, d)"
  using assms by (cases "ingest_task (Some st) cfg env staging ''tasks'' nocache form s0 d0")
    (auto simp: submit_task_def require_store_def split: sum.splits)

lemma system_step_good:
  assumes "system_step cfg st p p'" and "object_store st contents" and "system_ok cfg (pr_db p)"
  shows "good_step cfg (pr_db p) (pr_db p')"
  using assms(1)
proof cases
  case (dispatch_tick ti r)
  then show ?thesis using fast_tick_step [of p ti cfg r p'] assms(3) by (intro good_safe) (auto simp: system_ok_def)
next
  case (reconcile_tick ti r)
  then have "object_store (ti_store ti) contents" "db_wf (pr_db p)" using assms(2,3) by (auto simp: system_ok_def tasks_ok_def)
  with slow_tick_step [OF this(1) _ this(2)] show ?thesis using reconcile_tick good_slow by blast
next
  case (task_request env staging content_length nocache form resp s d)
  from task_request(2) consider "d = pr_db p"
    | r where "ingest_task (Some st) cfg env staging ''tasks'' nocache form (pr_store p) (pr_db p) = (r, s, d)"
    by (rule submit_ingests)
  then show ?thesis
  proof cases
    case 2
    from ingest_task_effect [OF assms(2) 2] have "other_tables (pr_db p) d" by simp
    moreover have "db_tasks d = db_tasks (pr_db p) \<or> (\<exists>row. db_tasks d = db_tasks (pr_db p) @ [row] \<and> task_ok row
        \<and> t_status row \<in> {TASK_QUEUED, TASK_COMPLETED})"
      using ingest_task_effect [OF assms(2) 2] by (cases r) (auto simp: durable_def split: if_splits)
    ultimately show ?thesis using task_request good_append [of d "pr_db p"] good_tasks_same [of d "pr_db p"]
      by (auto simp: other_tables_def)
  qed (use task_request good_tasks_same in auto)
next
  case (ocr_request file_bytes file_name body q env nocache resp s d)
  note E = ingest_payload_effect [OF assms(2) build_payload_names [OF ocr_request(2)] ocr_request(3)]
  show ?thesis using good_ingest [OF conjunct1 [OF E] conjunct2 [OF E]] ocr_request(1) by simp
next
  case (invalidate_request ck resp s d)
  then show ?thesis using invalidate_tables [of st ck "pr_store p" "pr_db p" _ s d]
    by (intro good_tasks_same) (auto simp: invalidate_cache_def require_store_def dest: apfst_snd)
next
  case (sweep_request now resp s d)
  then obtain n where "sweep_rows st (\<lambda>_ d. d) 0 (take 100 (filter (expired_clause now) (db_cache (pr_db p)))) 0 (pr_store p) (pr_db p) = (n, s, d)"
    by (auto simp: sweep_cache_def require_store_def sweep_expired_def dest: apfst_snd)
  from sweep_tables [OF this] show ?thesis using sweep_request by (intro good_tasks_same) auto
qed (use good_admin good_tasks_same in \<open>auto\<close>)

subsection \<open>The fleet\<close>

lemma grows_evolves:
  assumes "list_all2 worker_evolves (db_workers d) (db_workers d')" shows "fleet_grows cfg d d'"
proof -
  have "fleet_step d (d\<lparr>db_workers := db_workers d'\<rparr>)" using assms by (simp add: fleet_step_def)
  from fleet_count [OF this, of cfg] fleet_active [OF this, of cfg] show ?thesis
    using rows_kept [OF assms]
    by (auto simp: fleet_grows_def count_workers_def count_active_replacements_def count_where_def)
qed

lemma grows_same: "db_workers d' = db_workers d \<Longrightarrow> fleet_grows cfg d d'"
  by (rule grows_evolves) (simp add: list_all2_refl)

lemma grows_other: "other_tables d d' \<Longrightarrow> fleet_grows cfg d d'"
  by (auto simp: other_tables_def intro: grows_same)

lemma stamped_evolves: "worker_stamped w w' \<Longrightarrow> worker_evolves w w'"
  using worker_stamped_fields [of w w'] by (simp add: worker_evolves_def)

lemma grows_safe:
  assumes "safe_step cfg d d'" and "tasks_ok d" shows "fleet_grows cfg d d'"
  using assms unfolding safe_step_def by (blast intro: grows_evolves list_all2_mono stamped_evolves)

lemma grows_slow:
  assumes "slow_effect cfg now d d'" and "db_wf d" shows "fleet_grows cfg d d'"
proof -
  obtain dm where "fleet_bounded cfg d dm" "db_workers d' = db_workers dm" using assms(1) unfolding slow_effect_def by blast
  then show ?thesis using assms(2)
    by (auto simp: fleet_grows_def fleet_bounded_def count_workers_def count_active_replacements_def count_where_def)
qed

lemma grows_admin_update:
  assumes "\<And>r. worker_evolves r (save_worker now f r)"
  shows "fleet_grows cfg d (snd (admin_update cfg now wid f a reason q d))"
  using fleet_upd_worker [of now f d wid, OF assms]
  by (auto simp: admin_update_def Let_def record_scaling_event_now_def fleet_step_def
      intro!: grows_evolves list_all2_refl split: option.splits)

lemma grows_admin:
  "fleet_grows cfg d (snd (drain_worker cfg now wid cmd terminate d))"
  "fleet_grows cfg d (snd (rotate_worker cfg now wid cmd d))"
  "fleet_grows cfg d (snd (admin_recover_worker cfg now wid cmd d))"
  unfolding drain_worker_def rotate_worker_def admin_recover_worker_def set_drain_intent_def set_rotation_requested_def
    recover_worker_def snd_apfst
  by (rule grows_admin_update; simp add: worker_evolves_def Let_def)+

lemma invalidate_workers: "invalidate st (\<lambda>d. d) (\<lambda>d. d) ck s d = (r, s', d') \<Longrightarrow> db_workers d' = db_workers d"
  by (auto simp: invalidate_def claim_generation_def remove_generation_def Let_def
      split: option.splits if_splits prod.splits bool.splits)

lemma system_step_fleet:
  assumes "system_step cfg st p p'" and "object_store st contents" and "tasks_ok (pr_db p)"
  shows "fleet_grows cfg (pr_db p) (pr_db p')"
  using assms(1)
proof cases
  case (dispatch_tick ti r)
  then show ?thesis using fast_tick_step [of p ti cfg r p'] assms(3) by (intro grows_safe) auto
next
  case (reconcile_tick ti r)
  then have "object_store (ti_store ti) contents" "db_wf (pr_db p)" using assms(2,3) by (auto simp: tasks_ok_def)
  with slow_tick_step [OF this(1) _ this(2)] show ?thesis using reconcile_tick grows_slow by blast
next
  case (task_request env staging content_length nocache form resp s d)
  from task_request(2) consider "d = pr_db p"
    | r where "ingest_task (Some st) cfg env staging ''tasks'' nocache form (pr_store p) (pr_db p) = (r, s, d)"
    by (rule submit_ingests)
  then have "other_tables (pr_db p) d" using ingest_task_effect [OF assms(2)] by cases auto
  then show ?thesis using task_request grows_other by simp
next
  case (ocr_request file_bytes file_name body q env nocache resp s d)
  note E = ingest_payload_effect [OF assms(2) build_payload_names [OF ocr_request(2)] ocr_request(3)]
  show ?thesis using grows_other [OF conjunct1 [OF E]] ocr_request(1) by simp
next
  case (invalidate_request ck resp s d)
  then show ?thesis using invalidate_workers [of st ck "pr_store p" "pr_db p" _ s d]
    by (intro grows_same) (auto simp: invalidate_cache_def require_store_def dest: apfst_snd)
next
  case (sweep_request now resp s d)
  then obtain n where "sweep_rows st (\<lambda>_ d. d) 0 (take 100 (filter (expired_clause now) (db_cache (pr_db p)))) 0 (pr_store p) (pr_db p) = (n, s, d)"
    by (auto simp: sweep_cache_def require_store_def sweep_expired_def dest: apfst_snd)
  from sweep_tables [OF this] show ?thesis using sweep_request by (intro grows_same) auto
qed (use grows_admin grows_same in \<open>auto\<close>)

subsection \<open>Reachable states\<close>

lemma empty_ok: "0 \<le> target_per_worker (scaling cfg) \<Longrightarrow> system_ok cfg empty_db"
  by (simp add: system_ok_def tasks_ok_def empty_db_def db_wf_def task_count_def db_count_def)

lemma valid_target: "validate_settings cfg = Inr c \<Longrightarrow> 0 \<le> target_per_worker (scaling cfg)"
  by (auto simp: validate_settings_def validate_scaling_def split: sum.splits if_splits)

lemma reachable_ok:
  assumes "validate_settings cfg = Inr c" and "object_store st contents" and "reachable cfg st p"
  shows "system_ok cfg (pr_db p)"
  using assms(3)
proof (induction rule: reachable.induct)
  case (start p)
  then show ?case using empty_ok [OF valid_target [OF assms(1)]] by simp
next
  case (step p p')
  then show ?case using system_step_good [OF step.hyps(2) assms(2) step.IH] by (simp add: good_step_def)
qed

lemma reachable_fleet:
  assumes "validate_settings cfg = Inr c" and "object_store st contents" and "reachable cfg st p"
  shows "count_workers cfg (pr_db p) \<le> max_workers (scaling cfg) + 1 \<and> count_active_replacements cfg (pr_db p) \<le> 1"
  using assms(3)
proof (induction rule: reachable.induct)
  case (start p)
  moreover have "0 \<le> max_workers (scaling cfg)"
    using assms(1) by (auto simp: validate_settings_def validate_scaling_def split: sum.splits if_splits)
  ultimately show ?case
    by (simp add: empty_db_def count_workers_def count_active_replacements_def count_where_def db_count_def)
next
  case (step p p')
  have "tasks_ok (pr_db p)" using reachable_ok [OF assms(1,2) step.hyps(1)] by (simp add: system_ok_def)
  from system_step_fleet [OF step.hyps(2) assms(2) this] step.IH show ?case by (auto simp: fleet_grows_def)
qed

subsection \<open>From the worker to the client\<close>

text \<open>What the synchronisation of a tick collects is what the result route answers.\<close>

lemma collected_result_served:
  assumes "object_store st contents" and "result_stored contents tid content s d"
    and "os_get st (result_key tid ''zip'') s = (Inr data, s')"
  shows "get_task_result (Some st) tid s d
    = (Inr (zip_response content [(''content-disposition'', ''attachment; filename=\"'' @ tid @ ''.zip\"'')]), s')"
proof -
  obtain r where r: "get_task tid d = Some r" "t_status r = TASK_COMPLETED" "t_result_key r = Some (result_key tid ''zip'')"
    using assms(2) by (auto simp: result_stored_def split: option.splits)
  have "data = content" using object_store.get_ok [OF assms(1,3)] assms(2) by (simp add: result_stored_def)
  moreover have "result_key tid ''zip'' \<noteq> []" by (simp add: key_shapes)
  ultimately show ?thesis using r assms(3) by (simp add: get_task_result_def fetch_result_or_none_def read_result_def)
qed

subsection \<open>Example: one accepted request\<close>

definition example_start :: "(unit, buckets, unit) process" where
  "example_start = \<lparr>pr_sched = new_sched (PgLock \<lparr>pl_conn = True, pl_held = True\<rparr>),
     pr_world = \<lparr>wd_db = empty_db, wd_cloud = (), wd_calls = []\<rparr>, pr_store = Map.empty, pr_conn = ()\<rparr>"

lemma example_request:
  obtains s d where "system_step default_settings (S3ObjectStore memory_client ''b'') example_start (at_state example_start s d)"
    "task_view d ''t1'' = Some TASK_QUEUED"
proof -
  obtain s d row resp where ing: "ingest_task (Some (S3ObjectStore memory_client ''b'')) default_settings example_ingest_env plain_staging
      ''tasks'' True example_form Map.empty empty_db = (resp, s, d)"
    and row: "db_tasks d = [row]" "t_task_id row = ''t1''" "t_status row = TASK_QUEUED"
    using example_ingest by blast
  have "submit_task (Some (S3ObjectStore memory_client ''b'')) default_settings example_ingest_env plain_staging None True example_form
      (pr_store example_start) (pr_db example_start) = (map_sum id (\<lambda>result. JSONResponse 202 (ir_response result)) resp, s, d)"
    by (simp add: submit_task_def check_admission_def require_store_def example_start_def ing)
  from system_step.task_request [OF this] show thesis
    by (rule that) (use row in \<open>simp add: task_view_def get_task_def db_get_def\<close>)
qed

subsection \<open>Example: the first worker\<close>

definition fleet_settings :: gateway_settings where
  "fleet_settings = default_settings\<lparr>scaling := default_scaling\<lparr>min_workers := 1, max_workers := 1\<rparr>\<rparr>"

definition fleet_inputs :: "(unit, buckets, unit, multipart_payload) tick_inputs" where
  "fleet_inputs = \<lparr>ti_provider = Some example_provider, ti_store = S3ObjectStore memory_client ''b'',
     ti_lock = ti_lock example_inputs, ti_clock = \<lambda>_. 20, ti_new_id = ti_new_id example_inputs,
     ti_health = ti_health example_inputs, ti_poll_clock = \<lambda>_. 20, ti_poll = \<lambda>_ _. None,
     ti_persist = ti_persist example_inputs,
     ti_dispatch = \<lparr>te_clock = \<lambda>_. 20, te_locked_tasks = \<lambda>_ _. False, te_locked_workers = \<lambda>_ _. False,
       te_dispatch = \<lambda>_. \<lparr>de_clock = \<lambda>_. 20, de_locked = \<lambda>_ _. False, de_rebuild = \<lambda>_ s. (Inr None, s),
         de_submit = \<lambda>_ _ _. Inr (Some ''u1'', Some ''queued'')\<rparr>\<rparr>,
     ti_interfere = \<lambda>_ d. d\<rparr>"

lemma fleet_example:
  "validate_settings fleet_settings = Inr fleet_settings"
  "map w_id (db_workers (pr_db (snd (slow_tick fleet_settings fleet_inputs example_start)))) = [''cloud-2'']"
  by code_simp+

lemma example_valid: "validate_settings default_settings = Inr default_settings"
  by code_simp

end
