(* ===== verification/Settings.thy ===== *)
theory Settings
  imports Config Status
begin

text \<open>
  How \<^verbatim>\<open>config.py\<close> builds the settings: the sources (constructor arguments, environment, YAML file),
  their order, the field-by-field reading of the merged dictionary with the defaults of the source,
  and the module-level cache behind \<open>load_settings\<close>, \<open>get_settings\<close> and \<open>reset_settings_cache\<close>.
  Raw configuration values are a type variable \<open>'v\<close>. What pydantic and PyYAML do with them (coercion
  of a value to a field's type, deep merging of dictionaries, parsing of the environment and of a
  YAML file) are arguments; the law of the merge is the named hypothesis \<open>deep_update_law\<close>.
\<close>

section \<open>Definitions\<close>

datatype 'v cfg = Leaf 'v | Dict "(string \<times> 'v cfg) list"

type_synonym 'v dict = "(string \<times> 'v cfg) list"

datatype settings_error =
    ValueError string
  | InvalidField string
  | ExtraField string
  | YamlError string

text \<open>Pydantic: the value of a field of a given type, \<open>None\<close> when the value cannot be converted, and
  \<open>deep_update base updating\<close>. The last three are plain Python: \<open>str(v)\<close>, \<open>not v\<close>, \<open>type(v).__name__\<close>.\<close>

record 'v pydantic =
  as_str :: "'v \<Rightarrow> string option"
  as_int :: "'v \<Rightarrow> int option"
  as_bool :: "'v \<Rightarrow> bool option"
  as_seconds :: "'v \<Rightarrow> time option"
  is_none :: "'v \<Rightarrow> bool"
  of_str :: "string \<Rightarrow> 'v"
  of_int_value :: "int \<Rightarrow> 'v"
  deep_update :: "'v dict \<Rightarrow> 'v dict \<Rightarrow> 'v dict"
  str_of :: "'v \<Rightarrow> string"
  falsy :: "'v \<Rightarrow> bool"
  type_name :: "'v \<Rightarrow> string"

text \<open>The file system and the environment of the process: what the environment source delivers, and
  the parsed content of a file, \<open>None\<close> when there is no such file.\<close>

record 'v process_env =
  env_settings :: "'v dict"
  read_yaml :: "string \<Rightarrow> (settings_error + 'v cfg) option"

subsection \<open>Fields\<close>

definition field :: "('v \<Rightarrow> 'a option) \<Rightarrow> string \<Rightarrow> 'a \<Rightarrow> 'v dict \<Rightarrow> settings_error + 'a" where
  "field conv name dflt d =
    (case map_of d name of
       None \<Rightarrow> Inr dflt
     | Some (Leaf v) \<Rightarrow> (case conv v of Some x \<Rightarrow> Inr x | None \<Rightarrow> Inl (InvalidField name))
     | Some (Dict _) \<Rightarrow> Inl (InvalidField name))"

text \<open>A field whose type is another model: an absent one is built by its \<open>default_factory\<close>, that is
  from no values at all.\<close>

definition section_of :: "string \<Rightarrow> 'v dict \<Rightarrow> settings_error + 'v dict" where
  "section_of name d =
    (case map_of d name of
       None \<Rightarrow> Inr []
     | Some (Dict d') \<Rightarrow> Inr d'
     | Some (Leaf _) \<Rightarrow> Inl (InvalidField name))"

text \<open>\<open>extra="forbid"\<close>.\<close>

definition forbid_extra :: "string list \<Rightarrow> 'v dict \<Rightarrow> settings_error + unit" where
  "forbid_extra names d =
    (case filter (\<lambda>k. k \<notin> set names) (map fst d) of [] \<Rightarrow> Inr () | k # _ \<Rightarrow> Inl (ExtraField k))"

text \<open>\<open>str | None\<close>.\<close>

definition as_opt_str :: "'v pydantic \<Rightarrow> 'v \<Rightarrow> string option option" where
  "as_opt_str co v = (if is_none co v then Some None else map_option Some (as_str co v))"

subsection \<open>Models\<close>

definition AwsCloudConfig :: "'v pydantic \<Rightarrow> 'v dict \<Rightarrow> settings_error + aws_cloud_config" where
  "AwsCloudConfig co d =
    chain (forbid_extra [''region'', ''launch_template_id'', ''launch_template_version'', ''bucket'',
      ''endpoint_url'', ''ec2_endpoint_url''] d) (\<lambda>_.
    chain (field (as_str co) ''region'' ''us-east-1'' d) (\<lambda>r.
    chain (field (as_opt_str co) ''launch_template_id'' None d) (\<lambda>t.
    chain (field (as_str co) ''launch_template_version'' ''$Latest'' d) (\<lambda>v.
    chain (field (as_str co) ''bucket'' ''mineru-results'' d) (\<lambda>b.
    chain (field (as_opt_str co) ''endpoint_url'' None d) (\<lambda>e.
    chain (field (as_opt_str co) ''ec2_endpoint_url'' None d) (\<lambda>e2.
    Inr \<lparr>aws_region = r, aws_launch_template_id = t, aws_launch_template_version = v, aws_bucket = b,
      aws_endpoint_url = e, aws_ec2_endpoint_url = e2\<rparr>)))))))"

definition ScalingConfig :: "'v pydantic \<Rightarrow> 'v dict \<Rightarrow> settings_error + scaling_config" where
  "ScalingConfig co d =
    chain (forbid_extra [''target_per_worker'', ''min_workers'', ''max_workers'', ''idle_cooldown_seconds'',
      ''scale_up_cooldown_seconds''] d) (\<lambda>_.
    chain (field (as_int co) ''target_per_worker'' 4 d) (\<lambda>t.
    chain (field (as_int co) ''min_workers'' 0 d) (\<lambda>mn.
    chain (field (as_int co) ''max_workers'' 12 d) (\<lambda>mx.
    chain (field (as_int co) ''idle_cooldown_seconds'' 300 d) (\<lambda>i.
    chain (field (as_int co) ''scale_up_cooldown_seconds'' 60 d) (\<lambda>u.
    Inr \<lparr>target_per_worker = t, min_workers = mn, max_workers = mx, idle_cooldown_seconds = i,
      scale_up_cooldown_seconds = u\<rparr>))))))"

definition ReconciliationConfig :: "'v pydantic \<Rightarrow> 'v dict \<Rightarrow> settings_error + reconciliation_config" where
  "ReconciliationConfig co d =
    chain (forbid_extra [''launch_readiness_timeout_seconds'', ''max_failure_count'',
      ''stalled_worker_grace_seconds''] d) (\<lambda>_.
    chain (field (as_int co) ''launch_readiness_timeout_seconds'' 1800 d) (\<lambda>l.
    chain (field (as_int co) ''max_failure_count'' 8 d) (\<lambda>m.
    chain (field (as_int co) ''stalled_worker_grace_seconds'' 900 d) (\<lambda>g.
    Inr \<lparr>launch_readiness_timeout_seconds = l, max_failure_count = m, stalled_worker_grace_seconds = g\<rparr>))))"

definition RetentionConfig :: "'v pydantic \<Rightarrow> 'v dict \<Rightarrow> settings_error + retention_config" where
  "RetentionConfig co d =
    chain (forbid_extra [''retention_days'', ''cleanup_interval_seconds''] d) (\<lambda>_.
    chain (field (as_int co) ''retention_days'' 30 d) (\<lambda>r.
    chain (field (as_seconds co) ''cleanup_interval_seconds'' (seconds 3600) d) (\<lambda>c.
    Inr \<lparr>retention_days = r, cleanup_interval = c\<rparr>)))"

definition CacheConfig :: "'v pydantic \<Rightarrow> 'v dict \<Rightarrow> settings_error + cache_config" where
  "CacheConfig co d =
    chain (forbid_extra [''enabled'', ''ttl_seconds'', ''sweeper_interval_seconds''] d) (\<lambda>_.
    chain (field (as_bool co) ''enabled'' True d) (\<lambda>e.
    chain (field (as_int co) ''ttl_seconds'' 604800 d) (\<lambda>t.
    chain (field (as_int co) ''sweeper_interval_seconds'' 600 d) (\<lambda>i.
    Inr \<lparr>cache_enabled = e, cache_ttl_seconds = t, sweeper_interval_seconds = i\<rparr>))))"

definition RotationConfig :: "'v pydantic \<Rightarrow> 'v dict \<Rightarrow> settings_error + rotation_config" where
  "RotationConfig co d =
    chain (forbid_extra [''interval_seconds'', ''readiness_timeout_seconds''] d) (\<lambda>_.
    chain (field (as_int co) ''interval_seconds'' 604800 d) (\<lambda>i.
    chain (field (as_int co) ''readiness_timeout_seconds'' 1800 d) (\<lambda>r.
    Inr \<lparr>rotation_interval_seconds = i, readiness_timeout_seconds = r\<rparr>)))"

definition SchedulerConfig :: "'v pydantic \<Rightarrow> 'v dict \<Rightarrow> settings_error + scheduler_config" where
  "SchedulerConfig co d =
    chain (forbid_extra [''dispatch_poll_interval_seconds'', ''reconcile_poll_interval_seconds''] d) (\<lambda>_.
    chain (field (as_seconds co) ''dispatch_poll_interval_seconds'' 500000 d) (\<lambda>p.
    chain (field (as_seconds co) ''reconcile_poll_interval_seconds'' (seconds 15) d) (\<lambda>r.
    Inr \<lparr>dispatch_poll_interval = p, reconcile_poll_interval = r\<rparr>)))"

text \<open>The \<open>mode="before"\<close> validator of \<open>provider\<close> sees the raw value: \<open>None\<close> becomes the default,
  anything else \<open>str(v)\<close>; \<open>normalize_provider\<close> then folds the case and checks the name.\<close>

definition CloudConfig :: "'v pydantic \<Rightarrow> 'v dict \<Rightarrow> settings_error + cloud_config" where
  "CloudConfig co d =
    chain (forbid_extra [''provider'', ''aws''] d) (\<lambda>_.
    chain (field (\<lambda>v. Some (if is_none co v then ''aws'' else str_of co v)) ''provider'' ''aws'' d) (\<lambda>p.
    chain (section_of ''aws'' d) (\<lambda>a.
    chain (AwsCloudConfig co a) (\<lambda>aws.
    Inr \<lparr>cloud_provider = p, cloud_aws = aws\<rparr>))))"

definition AttributionConfig :: "'v pydantic \<Rightarrow> 'v dict \<Rightarrow> settings_error + attribution_config" where
  "AttributionConfig co d =
    chain (forbid_extra [''enabled'', ''powered_by_header'', ''version_header''] d) (\<lambda>_.
    chain (field (as_bool co) ''enabled'' True d) (\<lambda>e.
    chain (field (as_str co) ''powered_by_header'' ''MinerU'' d) (\<lambda>p.
    chain (field (as_str co) ''version_header'' ''MinerU-Version'' d) (\<lambda>v.
    Inr \<lparr>attribution_enabled = e, powered_by_header = p, version_header = v\<rparr>))))"

definition AuthConfig :: "'v pydantic \<Rightarrow> 'v dict \<Rightarrow> settings_error + auth_config" where
  "AuthConfig co d =
    chain (forbid_extra [''enabled'', ''api_key''] d) (\<lambda>_.
    chain (field (as_bool co) ''enabled'' False d) (\<lambda>e.
    chain (field (as_opt_str co) ''api_key'' None d) (\<lambda>k.
    Inr \<lparr>auth_enabled = e, auth_api_key = k\<rparr>)))"

definition OtelConfig :: "'v pydantic \<Rightarrow> 'v dict \<Rightarrow> settings_error + otel_config" where
  "OtelConfig co d =
    chain (forbid_extra [''enabled'', ''endpoint'', ''service_name'', ''scheduler_service_name'',
      ''metrics_export_interval_seconds''] d) (\<lambda>_.
    chain (field (as_bool co) ''enabled'' False d) (\<lambda>e.
    chain (field (as_opt_str co) ''endpoint'' None d) (\<lambda>p.
    chain (field (as_str co) ''service_name'' ''mineru-gateway'' d) (\<lambda>n.
    chain (field (as_str co) ''scheduler_service_name'' ''mineru-scheduler'' d) (\<lambda>sn.
    chain (field (as_int co) ''metrics_export_interval_seconds'' 60 d) (\<lambda>i.
    Inr \<lparr>otel_enabled = e, otel_endpoint = p, service_name = n, scheduler_service_name = sn,
      metrics_export_interval_seconds = i\<rparr>))))))"

text \<open>The fields of \<open>GatewaySettings\<close> and, once all of them have a value, the validators. Pydantic
  collects every error; here the first one in field order is reported, which changes the message but
  never whether the settings are accepted.\<close>

definition read_fields :: "'v pydantic \<Rightarrow> 'v dict \<Rightarrow> settings_error + gateway_settings" where
  "read_fields co d =
    chain (forbid_extra [''deployment_id'', ''database_url'', ''host'', ''port'', ''log_level'',
      ''max_file_size_bytes'', ''task_sla_seconds'', ''cloud_workers_enabled'', ''scaling'',
      ''reconciliation'', ''retention'', ''cache'', ''cloud'', ''rotation'', ''scheduler'',
      ''attribution'', ''auth'', ''otel''] d) (\<lambda>_.
    chain (field (as_str co) ''deployment_id'' ''dev-local'' d) (\<lambda>dep.
    chain (field (as_str co) ''database_url'' ''sqlite+aiosqlite:///./gateway.db'' d) (\<lambda>url.
    chain (field (as_str co) ''host'' ''127.0.0.1'' d) (\<lambda>hst.
    chain (field (as_int co) ''port'' 8000 d) (\<lambda>prt.
    chain (field (as_str co) ''log_level'' ''INFO'' d) (\<lambda>lvl.
    chain (field (as_int co) ''max_file_size_bytes'' 0 d) (\<lambda>mfs.
    chain (field (as_int co) ''task_sla_seconds'' 3600 d) (\<lambda>sla.
    chain (field (as_bool co) ''cloud_workers_enabled'' False d) (\<lambda>cwe.
    chain (chain (section_of ''scaling'' d) (ScalingConfig co)) (\<lambda>sc.
    chain (chain (section_of ''reconciliation'' d) (ReconciliationConfig co)) (\<lambda>rc.
    chain (chain (section_of ''retention'' d) (RetentionConfig co)) (\<lambda>rt.
    chain (chain (section_of ''cache'' d) (CacheConfig co)) (\<lambda>ca.
    chain (chain (section_of ''cloud'' d) (CloudConfig co)) (\<lambda>cl.
    chain (chain (section_of ''rotation'' d) (RotationConfig co)) (\<lambda>ro.
    chain (chain (section_of ''scheduler'' d) (SchedulerConfig co)) (\<lambda>sd.
    chain (chain (section_of ''attribution'' d) (AttributionConfig co)) (\<lambda>att.
    chain (chain (section_of ''auth'' d) (AuthConfig co)) (\<lambda>au.
    chain (chain (section_of ''otel'' d) (OtelConfig co)) (\<lambda>ot.
    Inr \<lparr>deployment_id = dep, database_url = url, host = hst, port = prt, log_level = lvl,
      max_file_size_bytes = mfs, task_sla_seconds = sla, cloud_workers_enabled = cwe, scaling = sc,
      reconciliation = rc, retention = rt, cache = ca, cloud = cl, rotation = ro, scheduler = sd,
      attribution = att, auth = au, otel = ot\<rparr>)))))))))))))))))))"

subsection \<open>Sources\<close>

text \<open>\<open>YamlSettingsSource\<close>: its \<open>_data\<close> is loaded when the source is built; calling the source returns it.\<close>

definition yaml_load :: "'v pydantic \<Rightarrow> 'v process_env \<Rightarrow> string \<Rightarrow> settings_error + 'v dict" where
  "yaml_load co env path =
    (case read_yaml env path of
       None \<Rightarrow> Inr []
     | Some (Inl e) \<Rightarrow> Inl e
     | Some (Inr (Dict data)) \<Rightarrow> Inr data
     | Some (Inr (Leaf v)) \<Rightarrow>
         if falsy co v then Inr []
         else Inl (ValueError (path @ '': top-level YAML must be a mapping, got '' @ type_name co v)))"

definition yaml_get_field_value :: "'v dict \<Rightarrow> string \<Rightarrow> 'v cfg option \<times> string \<times> bool" where
  "yaml_get_field_value data field_name =
    (case map_of data field_name of
       Some v \<Rightarrow> (Some v, field_name, False)
     | None \<Rightarrow> (None, field_name, False))"

definition settings_customise_sources ::
    "'v pydantic \<Rightarrow> 'v process_env \<Rightarrow> string option \<Rightarrow> 'v dict \<Rightarrow> settings_error + 'v dict list" where
  "settings_customise_sources co env yaml_config_path init_settings =
    (let sources = [init_settings, env_settings env] in
     case yaml_config_path of
       None \<Rightarrow> Inr sources
     | Some path \<Rightarrow> map_sum id (\<lambda>data. sources @ [data]) (yaml_load co env path))"

text \<open>What the comment in \<open>settings_customise_sources\<close> says of pydantic: each source is merged under the
  state accumulated so far.\<close>

definition merge_sources :: "'v pydantic \<Rightarrow> 'v dict list \<Rightarrow> 'v dict" where
  "merge_sources co sources = foldl (\<lambda>state source. deep_update co source state) [] sources"

definition GatewaySettings ::
    "'v pydantic \<Rightarrow> 'v process_env \<Rightarrow> string option \<Rightarrow> 'v dict \<Rightarrow> settings_error + gateway_settings" where
  "GatewaySettings co env yaml_config_path cli =
    chain (settings_customise_sources co env yaml_config_path cli) (\<lambda>sources.
    chain (read_fields co (merge_sources co sources)) (\<lambda>s.
    map_sum ValueError id (validate_settings s)))"

subsection \<open>The cached settings\<close>

record config_globals =
  cached_settings :: "gateway_settings option"
  yaml_config_path :: "string option"

definition DEFAULT_CONFIG_PATH :: string where "DEFAULT_CONFIG_PATH = ''config.yaml''"

definition initial_config :: config_globals where
  "initial_config = \<lparr>cached_settings = None, yaml_config_path = None\<rparr>"

definition load_settings ::
    "'v pydantic \<Rightarrow> 'v process_env \<Rightarrow> string option \<Rightarrow> 'v dict \<Rightarrow> config_globals
      \<Rightarrow> (settings_error + gateway_settings) \<times> config_globals" where
  "load_settings co env config_path cli_overrides g =
    (let g1 = g\<lparr>yaml_config_path := Some (text_or config_path DEFAULT_CONFIG_PATH)\<rparr> in
     case GatewaySettings co env (yaml_config_path g1) cli_overrides of
       Inl e \<Rightarrow> (Inl e, g1)
     | Inr s \<Rightarrow> (Inr s, g1\<lparr>cached_settings := Some s\<rparr>))"

definition get_settings ::
    "'v pydantic \<Rightarrow> 'v process_env \<Rightarrow> config_globals \<Rightarrow> (settings_error + gateway_settings) \<times> config_globals" where
  "get_settings co env g =
    (case cached_settings g of
       None \<Rightarrow> load_settings co env None [] g
     | Some s \<Rightarrow> (Inr s, g))"

definition reset_settings_cache :: "config_globals \<Rightarrow> config_globals" where
  "reset_settings_cache g = g\<lparr>cached_settings := None\<rparr>"

subsection \<open>Specification of the precedence\<close>

text \<open>The value a dictionary gives to a path of keys, such as \<open>scaling.max_workers\<close>, and whether the
  dictionary has the shape of a model along the path: dictionaries on the way, no dictionary at its end.\<close>

fun at_path :: "'v dict \<Rightarrow> string list \<Rightarrow> 'v cfg option" where
  "at_path d [] = Some (Dict d)"
| "at_path d [k] = map_of d k"
| "at_path d (k # ks) = (case map_of d k of Some (Dict d') \<Rightarrow> at_path d' ks | _ \<Rightarrow> None)"

fun shaped :: "string list \<Rightarrow> 'v dict \<Rightarrow> bool" where
  "shaped [] d = False"
| "shaped [k] d = (case map_of d k of Some (Dict _) \<Rightarrow> False | _ \<Rightarrow> True)"
| "shaped (k # ks) d =
    (case map_of d k of None \<Rightarrow> True | Some (Dict d') \<Rightarrow> shaped ks d' | Some (Leaf _) \<Rightarrow> False)"

fun first_given :: "string list \<Rightarrow> 'v dict list \<Rightarrow> 'v cfg option" where
  "first_given p [] = None"
| "first_given p (d # ds) = (case at_path d p of Some v \<Rightarrow> Some v | None \<Rightarrow> first_given p ds)"

definition takes_value :: "('v \<Rightarrow> 'a option) \<Rightarrow> 'a \<Rightarrow> 'v cfg option \<Rightarrow> 'a \<Rightarrow> bool" where
  "takes_value conv dflt given x =
    (case given of None \<Rightarrow> x = dflt | Some (Leaf v) \<Rightarrow> conv v = Some x | Some (Dict _) \<Rightarrow> False)"

text \<open>\<open>pydantic.deep_update\<close>: a key of the second dictionary wins over the first, except that two
  dictionaries under the same key are merged.\<close>

definition deep_update_law :: "'v pydantic \<Rightarrow> bool" where
  "deep_update_law co \<longleftrightarrow> (\<forall>base upd k. map_of (deep_update co base upd) k =
     (case map_of upd k of
        None \<Rightarrow> map_of base k
      | Some (Leaf v) \<Rightarrow> Some (Leaf v)
      | Some (Dict u) \<Rightarrow>
          (case map_of base k of Some (Dict b) \<Rightarrow> Some (Dict (deep_update co b u)) | _ \<Rightarrow> Some (Dict u))))"

text \<open>What the sources must give for a model of \<open>config.py\<close> to have its values, field by field:
  \<open>given\<close> is the raw value of a field of the model, if any source gives one, and next to it stands
  the default of the source text. The provider is the one field that is rewritten: whatever is
  given has to be \<open>aws\<close> but for its case, and \<open>aws\<close> is what is stored.\<close>

definition aws_given :: "'v pydantic \<Rightarrow> (string \<Rightarrow> 'v cfg option) \<Rightarrow> aws_cloud_config \<Rightarrow> bool" where
  "aws_given co given c \<longleftrightarrow>
     takes_value (as_str co) ''us-east-1'' (given ''region'') (aws_region c)
   \<and> takes_value (as_opt_str co) None (given ''launch_template_id'') (aws_launch_template_id c)
   \<and> takes_value (as_str co) ''$Latest'' (given ''launch_template_version'') (aws_launch_template_version c)
   \<and> takes_value (as_str co) ''mineru-results'' (given ''bucket'') (aws_bucket c)
   \<and> takes_value (as_opt_str co) None (given ''endpoint_url'') (aws_endpoint_url c)
   \<and> takes_value (as_opt_str co) None (given ''ec2_endpoint_url'') (aws_ec2_endpoint_url c)"

definition scaling_given :: "'v pydantic \<Rightarrow> (string \<Rightarrow> 'v cfg option) \<Rightarrow> scaling_config \<Rightarrow> bool" where
  "scaling_given co given c \<longleftrightarrow>
     takes_value (as_int co) 4 (given ''target_per_worker'') (target_per_worker c)
   \<and> takes_value (as_int co) 0 (given ''min_workers'') (min_workers c)
   \<and> takes_value (as_int co) 12 (given ''max_workers'') (max_workers c)
   \<and> takes_value (as_int co) 300 (given ''idle_cooldown_seconds'') (idle_cooldown_seconds c)
   \<and> takes_value (as_int co) 60 (given ''scale_up_cooldown_seconds'') (scale_up_cooldown_seconds c)"

definition reconciliation_given :: "'v pydantic \<Rightarrow> (string \<Rightarrow> 'v cfg option) \<Rightarrow> reconciliation_config \<Rightarrow> bool" where
  "reconciliation_given co given c \<longleftrightarrow>
     takes_value (as_int co) 1800 (given ''launch_readiness_timeout_seconds'') (launch_readiness_timeout_seconds c)
   \<and> takes_value (as_int co) 8 (given ''max_failure_count'') (max_failure_count c)
   \<and> takes_value (as_int co) 900 (given ''stalled_worker_grace_seconds'') (stalled_worker_grace_seconds c)"

definition retention_given :: "'v pydantic \<Rightarrow> (string \<Rightarrow> 'v cfg option) \<Rightarrow> retention_config \<Rightarrow> bool" where
  "retention_given co given c \<longleftrightarrow>
     takes_value (as_int co) 30 (given ''retention_days'') (retention_days c)
   \<and> takes_value (as_seconds co) (seconds 3600) (given ''cleanup_interval_seconds'') (cleanup_interval c)"

definition cache_given :: "'v pydantic \<Rightarrow> (string \<Rightarrow> 'v cfg option) \<Rightarrow> cache_config \<Rightarrow> bool" where
  "cache_given co given c \<longleftrightarrow>
     takes_value (as_bool co) True (given ''enabled'') (cache_enabled c)
   \<and> takes_value (as_int co) 604800 (given ''ttl_seconds'') (cache_ttl_seconds c)
   \<and> takes_value (as_int co) 600 (given ''sweeper_interval_seconds'') (sweeper_interval_seconds c)"

definition rotation_given :: "'v pydantic \<Rightarrow> (string \<Rightarrow> 'v cfg option) \<Rightarrow> rotation_config \<Rightarrow> bool" where
  "rotation_given co given c \<longleftrightarrow>
     takes_value (as_int co) 604800 (given ''interval_seconds'') (rotation_interval_seconds c)
   \<and> takes_value (as_int co) 1800 (given ''readiness_timeout_seconds'') (readiness_timeout_seconds c)"

definition scheduler_given :: "'v pydantic \<Rightarrow> (string \<Rightarrow> 'v cfg option) \<Rightarrow> scheduler_config \<Rightarrow> bool" where
  "scheduler_given co given c \<longleftrightarrow>
     takes_value (as_seconds co) 500000 (given ''dispatch_poll_interval_seconds'') (dispatch_poll_interval c)
   \<and> takes_value (as_seconds co) (seconds 15) (given ''reconcile_poll_interval_seconds'') (reconcile_poll_interval c)"

definition attribution_given :: "'v pydantic \<Rightarrow> (string \<Rightarrow> 'v cfg option) \<Rightarrow> attribution_config \<Rightarrow> bool" where
  "attribution_given co given c \<longleftrightarrow>
     takes_value (as_bool co) True (given ''enabled'') (attribution_enabled c)
   \<and> takes_value (as_str co) ''MinerU'' (given ''powered_by_header'') (powered_by_header c)
   \<and> takes_value (as_str co) ''MinerU-Version'' (given ''version_header'') (version_header c)"

definition auth_given :: "'v pydantic \<Rightarrow> (string \<Rightarrow> 'v cfg option) \<Rightarrow> auth_config \<Rightarrow> bool" where
  "auth_given co given c \<longleftrightarrow>
     takes_value (as_bool co) False (given ''enabled'') (auth_enabled c)
   \<and> takes_value (as_opt_str co) None (given ''api_key'') (auth_api_key c)"

definition otel_given :: "'v pydantic \<Rightarrow> (string \<Rightarrow> 'v cfg option) \<Rightarrow> otel_config \<Rightarrow> bool" where
  "otel_given co given c \<longleftrightarrow>
     takes_value (as_bool co) False (given ''enabled'') (otel_enabled c)
   \<and> takes_value (as_opt_str co) None (given ''endpoint'') (otel_endpoint c)
   \<and> takes_value (as_str co) ''mineru-gateway'' (given ''service_name'') (service_name c)
   \<and> takes_value (as_str co) ''mineru-scheduler'' (given ''scheduler_service_name'') (scheduler_service_name c)
   \<and> takes_value (as_int co) 60 (given ''metrics_export_interval_seconds'') (metrics_export_interval_seconds c)"

definition top_given :: "'v pydantic \<Rightarrow> (string \<Rightarrow> 'v cfg option) \<Rightarrow> gateway_settings \<Rightarrow> bool" where
  "top_given co given c \<longleftrightarrow>
     takes_value (as_str co) ''dev-local'' (given ''deployment_id'') (deployment_id c)
   \<and> takes_value (as_str co) ''sqlite+aiosqlite:///./gateway.db'' (given ''database_url'') (database_url c)
   \<and> takes_value (as_str co) ''127.0.0.1'' (given ''host'') (host c)
   \<and> takes_value (as_int co) 8000 (given ''port'') (port c)
   \<and> takes_value (as_str co) ''INFO'' (given ''log_level'') (log_level c)
   \<and> takes_value (as_int co) 0 (given ''max_file_size_bytes'') (max_file_size_bytes c)
   \<and> takes_value (as_int co) 3600 (given ''task_sla_seconds'') (task_sla_seconds c)
   \<and> takes_value (as_bool co) False (given ''cloud_workers_enabled'') (cloud_workers_enabled c)"

definition provider_given :: "'v pydantic \<Rightarrow> 'v cfg option \<Rightarrow> string \<Rightarrow> bool" where
  "provider_given co given p \<longleftrightarrow> p = ''aws'' \<and> (case given of None \<Rightarrow> True
     | Some (Leaf v) \<Rightarrow> is_none co v \<or> py_lower (str_of co v) = ''aws'' | Some (Dict _) \<Rightarrow> False)"

definition settings_given :: "'v pydantic \<Rightarrow> (string list \<Rightarrow> 'v cfg option) \<Rightarrow> gateway_settings \<Rightarrow> bool" where
  "settings_given co given s \<longleftrightarrow>
     top_given co (\<lambda>k. given [k]) s
   \<and> scaling_given co (\<lambda>k. given [''scaling'', k]) (scaling s)
   \<and> reconciliation_given co (\<lambda>k. given [''reconciliation'', k]) (reconciliation s)
   \<and> retention_given co (\<lambda>k. given [''retention'', k]) (retention s)
   \<and> cache_given co (\<lambda>k. given [''cache'', k]) (cache s)
   \<and> provider_given co (given [''cloud'', ''provider'']) (cloud_provider (cloud s))
   \<and> aws_given co (\<lambda>k. given [''cloud'', ''aws'', k]) (cloud_aws (cloud s))
   \<and> rotation_given co (\<lambda>k. given [''rotation'', k]) (rotation s)
   \<and> scheduler_given co (\<lambda>k. given [''scheduler'', k]) (scheduler s)
   \<and> attribution_given co (\<lambda>k. given [''attribution'', k]) (attribution s)
   \<and> auth_given co (\<lambda>k. given [''auth'', k]) (auth s)
   \<and> otel_given co (\<lambda>k. given [''otel'', k]) (otel s)"

lemmas section_given_defs = aws_given_def scaling_given_def reconciliation_given_def retention_given_def cache_given_def rotation_given_def scheduler_given_def attribution_given_def auth_given_def otel_given_def top_given_def

section \<open>Lemmas\<close>

lemma deep_update_at:
  assumes law: "deep_update_law co" and "shaped p (deep_update co base upd)"
  shows "shaped p upd \<and> at_path (deep_update co base upd) p =
    (case at_path upd p of Some v \<Rightarrow> Some v | None \<Rightarrow> at_path base p)"
  using assms(2)
proof (induction p arbitrary: base upd rule: induct_list012)
  case 1
  then show ?case by simp
next
  case (2 k)
  then show ?case using law [unfolded deep_update_law_def, rule_format, of base upd k]
    by (auto split: option.splits cfg.splits)
next
  case (3 k k' ks)
  have merged: "map_of (deep_update co base upd) k = (case map_of upd k of
        None \<Rightarrow> map_of base k
      | Some (Leaf v) \<Rightarrow> Some (Leaf v)
      | Some (Dict u) \<Rightarrow>
          (case map_of base k of Some (Dict b) \<Rightarrow> Some (Dict (deep_update co b u)) | _ \<Rightarrow> Some (Dict u)))"
    using law unfolding deep_update_law_def by blast
  show ?case
  proof (cases "\<exists>u b. map_of upd k = Some (Dict u) \<and> map_of base k = Some (Dict b)")
    case True
    then obtain u b where ub: "map_of upd k = Some (Dict u)" "map_of base k = Some (Dict b)" by blast
    with 3(3) merged have "shaped (k' # ks) (deep_update co b u)" by simp
    from 3(2) [OF this] ub merged show ?thesis by (simp split: option.splits)
  next
    case False
    with 3(3) merged show ?thesis by (auto split: option.splits cfg.splits)
  qed
qed

lemma shaped_nonempty: "shaped p d \<Longrightarrow> p \<noteq> []"
  by (cases p) auto

lemma at_path_empty: "p \<noteq> [] \<Longrightarrow> at_path [] p = None"
  by (cases p rule: at_path.cases [where x = "([], p)" for p]) auto

lemma merge_sources_at:
  assumes law: "deep_update_law co" and "shaped p (merge_sources co ds)"
  shows "at_path (merge_sources co ds) p = first_given p ds"
proof -
  have gen: "shaped p state \<and> at_path (foldl (\<lambda>state source. deep_update co source state) state ds) p =
      (case at_path state p of Some v \<Rightarrow> Some v | None \<Rightarrow> first_given p ds)"
    if "shaped p (foldl (\<lambda>state source. deep_update co source state) state ds)" for state
    using that
  proof (induction ds arbitrary: state)
    case Nil
    then show ?case by (simp split: option.splits)
  next
    case (Cons d ds)
    from Cons have next_state: "shaped p (deep_update co d state)" by simp
    from Cons.IH [of "deep_update co d state"] Cons.prems deep_update_at [OF law next_state]
    show ?case by (auto split: option.splits)
  qed
  from gen [of "[]"] assms(2) shaped_nonempty [OF assms(2)] show ?thesis
    by (simp add: merge_sources_def at_path_empty)
qed

subsection \<open>Reading a field\<close>

text \<open>A field that was read is shaped along its path, and its value is the given one or the default.\<close>

definition reads :: "('v \<Rightarrow> 'a option) \<Rightarrow> string list \<Rightarrow> 'a \<Rightarrow> 'v dict \<Rightarrow> 'a \<Rightarrow> bool" where
  "reads conv p dflt d x \<longleftrightarrow> shaped p d \<and> takes_value conv dflt (at_path d p) x"

lemma field_reads: "field conv name dflt d = Inr x \<Longrightarrow> reads conv [name] dflt d x"
  by (auto simp: field_def reads_def takes_value_def split: option.splits cfg.splits)

lemma section_reads:
  assumes "section_of name d = Inr d'" and "reads conv p dflt d' x"
  shows "reads conv (name # p) dflt d x"
proof -
  obtain k ks where p: "p = k # ks" using assms(2) by (cases p) (auto simp: reads_def)
  show ?thesis
    using assms p
    by (auto simp: section_of_def reads_def at_path_empty split: option.splits cfg.splits)
qed

lemma reads_merged:
  assumes "deep_update_law co" and "reads conv p dflt (merge_sources co ds) x"
  shows "takes_value conv dflt (first_given p ds) x"
  using assms merge_sources_at [of co p ds] by (simp add: reads_def)

lemma read_fields_top:
  assumes "read_fields co d = Inr s"
  shows "reads (as_str co) [''deployment_id''] (deployment_id default_settings) d (deployment_id s)"
    and "reads (as_str co) [''database_url''] (database_url default_settings) d (database_url s)"
    and "reads (as_str co) [''host''] (host default_settings) d (host s)"
    and "reads (as_int co) [''port''] (port default_settings) d (port s)"
    and "reads (as_str co) [''log_level''] (log_level default_settings) d (log_level s)"
    and "reads (as_int co) [''max_file_size_bytes''] (max_file_size_bytes default_settings) d
           (max_file_size_bytes s)"
  using assms by (auto simp: read_fields_def default_settings_def intro: field_reads)

lemma field_takes: "field conv name dflt d = Inr x \<Longrightarrow> takes_value conv dflt (map_of d name) x"
  by (auto simp: field_def takes_value_def split: option.splits cfg.splits)

text \<open>A value taken from a section of the merged dictionary is the value of the first source that
  gives one under the section's path.\<close>

lemma takes_reads: "takes_value conv dflt (map_of d k) x \<Longrightarrow> reads conv [k] dflt d x"
  by (auto simp: reads_def takes_value_def split: option.splits cfg.splits)

lemma top_taken:
  assumes "deep_update_law co" and "takes_value conv dflt (map_of (merge_sources co ds) k) x"
  shows "takes_value conv dflt (first_given [k] ds) x"
  using reads_merged [OF assms(1) takes_reads [OF assms(2)]] .

lemma section_taken:
  assumes "deep_update_law co" and "section_of n (merge_sources co ds) = Inr d"
    and "takes_value conv dflt (map_of d k) x"
  shows "takes_value conv dflt (first_given [n, k] ds) x"
  using reads_merged [OF assms(1) section_reads [OF assms(2) takes_reads [OF assms(3)]]] .

lemma subsection_taken:
  assumes "deep_update_law co" and "section_of n (merge_sources co ds) = Inr d" and "section_of m d = Inr d'"
    and "takes_value conv dflt (map_of d' k) x"
  shows "takes_value conv dflt (first_given [n, m, k] ds) x"
  using reads_merged [OF assms(1) section_reads [OF assms(2) section_reads [OF assms(3) takes_reads [OF assms(4)]]]] .

lemma models_given:
  "ScalingConfig co d = Inr c0 \<Longrightarrow> scaling_given co (map_of d) c0"
  "ReconciliationConfig co d = Inr c1 \<Longrightarrow> reconciliation_given co (map_of d) c1"
  "RetentionConfig co d = Inr c2 \<Longrightarrow> retention_given co (map_of d) c2"
  "CacheConfig co d = Inr c3 \<Longrightarrow> cache_given co (map_of d) c3"
  "RotationConfig co d = Inr c4 \<Longrightarrow> rotation_given co (map_of d) c4"
  "SchedulerConfig co d = Inr c5 \<Longrightarrow> scheduler_given co (map_of d) c5"
  "AttributionConfig co d = Inr c6 \<Longrightarrow> attribution_given co (map_of d) c6"
  "AuthConfig co d = Inr c7 \<Longrightarrow> auth_given co (map_of d) c7"
  "OtelConfig co d = Inr c8 \<Longrightarrow> otel_given co (map_of d) c8"
  "AwsCloudConfig co d = Inr c9 \<Longrightarrow> aws_given co (map_of d) c9"
  by (auto simp: section_given_defs ScalingConfig_def ReconciliationConfig_def RetentionConfig_def CacheConfig_def RotationConfig_def SchedulerConfig_def AttributionConfig_def AuthConfig_def OtelConfig_def AwsCloudConfig_def intro: field_takes)

lemma read_fields_given:
  assumes "read_fields co d = Inr s"
  shows "top_given co (map_of d) s"
    and "\<exists>e. section_of ''scaling'' d = Inr e \<and> ScalingConfig co e = Inr (scaling s)"
    and "\<exists>e. section_of ''reconciliation'' d = Inr e \<and> ReconciliationConfig co e = Inr (reconciliation s)"
    and "\<exists>e. section_of ''retention'' d = Inr e \<and> RetentionConfig co e = Inr (retention s)"
    and "\<exists>e. section_of ''cache'' d = Inr e \<and> CacheConfig co e = Inr (cache s)"
    and "\<exists>e. section_of ''cloud'' d = Inr e \<and> CloudConfig co e = Inr (cloud s)"
    and "\<exists>e. section_of ''rotation'' d = Inr e \<and> RotationConfig co e = Inr (rotation s)"
    and "\<exists>e. section_of ''scheduler'' d = Inr e \<and> SchedulerConfig co e = Inr (scheduler s)"
    and "\<exists>e. section_of ''attribution'' d = Inr e \<and> AttributionConfig co e = Inr (attribution s)"
    and "\<exists>e. section_of ''auth'' d = Inr e \<and> AuthConfig co e = Inr (auth s)"
    and "\<exists>e. section_of ''otel'' d = Inr e \<and> OtelConfig co e = Inr (otel s)"
  using assms by (auto simp: read_fields_def top_given_def chain_Inr intro: field_takes)

lemma CloudConfig_given:
  assumes "CloudConfig co d = Inr c"
  shows "takes_value (\<lambda>v. Some (if is_none co v then ''aws'' else str_of co v)) ''aws'' (map_of d ''provider'') (cloud_provider c)"
    and "\<exists>e. section_of ''aws'' d = Inr e \<and> AwsCloudConfig co e = Inr (cloud_aws c)"
  using assms by (auto simp: CloudConfig_def intro: field_takes)

text \<open>The whole object, before the validators see it.\<close>

lemma read_fields_settings:
  fixes ds :: "'v dict list"
  assumes law: "deep_update_law co" and s: "read_fields co (merge_sources co ds) = Inr s"
    and provider: "py_lower (cloud_provider (cloud s)) = ''aws''"
  shows "settings_given co (\<lambda>p. first_given p ds) (s\<lparr>cloud := (cloud s)\<lparr>cloud_provider := ''aws''\<rparr>\<rparr>)"
proof -
  note parts = read_fields_given [OF s]
  note taken = section_taken [OF law]
  obtain dc where dc: "section_of ''cloud'' (merge_sources co ds) = Inr dc" "CloudConfig co dc = Inr (cloud s)"
    using parts(6) by blast
  obtain da where da: "section_of ''aws'' dc = Inr da" "AwsCloudConfig co da = Inr (cloud_aws (cloud s))"
    using CloudConfig_given(2) [OF dc(2)] by blast
  have "aws_given co (\<lambda>k. first_given [''cloud'', ''aws'', k] ds) (cloud_aws (cloud s))"
    using models_given(10) [OF da(2)] by (auto simp: aws_given_def intro: subsection_taken [OF law dc(1) da(1)])
  moreover have "provider_given co (first_given [''cloud'', ''provider''] ds) ''aws''"
    using taken [OF dc(1) CloudConfig_given(1) [OF dc(2)]] provider
    by (auto simp: provider_given_def takes_value_def split: option.splits cfg.splits if_splits)
  moreover have "top_given co (\<lambda>k. first_given [k] ds) s"
    using parts(1) by (auto simp: top_given_def intro: top_taken [OF law])
  moreover have "scaling_given co (\<lambda>k. first_given [''scaling'', k] ds) (scaling s)"
    using parts(2) by (auto simp: scaling_given_def dest!: models_given(1) intro: taken)
  moreover have "reconciliation_given co (\<lambda>k. first_given [''reconciliation'', k] ds) (reconciliation s)"
    using parts(3) by (auto simp: reconciliation_given_def dest!: models_given(2) intro: taken)
  moreover have "retention_given co (\<lambda>k. first_given [''retention'', k] ds) (retention s)"
    using parts(4) by (auto simp: retention_given_def dest!: models_given(3) intro: taken)
  moreover have "cache_given co (\<lambda>k. first_given [''cache'', k] ds) (cache s)"
    using parts(5) by (auto simp: cache_given_def dest!: models_given(4) intro: taken)
  moreover have "rotation_given co (\<lambda>k. first_given [''rotation'', k] ds) (rotation s)"
    using parts(7) by (auto simp: rotation_given_def dest!: models_given(5) intro: taken)
  moreover have "scheduler_given co (\<lambda>k. first_given [''scheduler'', k] ds) (scheduler s)"
    using parts(8) by (auto simp: scheduler_given_def dest!: models_given(6) intro: taken)
  moreover have "attribution_given co (\<lambda>k. first_given [''attribution'', k] ds) (attribution s)"
    using parts(9) by (auto simp: attribution_given_def dest!: models_given(7) intro: taken)
  moreover have "auth_given co (\<lambda>k. first_given [''auth'', k] ds) (auth s)"
    using parts(10) by (auto simp: auth_given_def dest!: models_given(8) intro: taken)
  moreover have "otel_given co (\<lambda>k. first_given [''otel'', k] ds) (otel s)"
    using parts(11) by (auto simp: otel_given_def dest!: models_given(9) intro: taken)
  moreover have "top_given co G (s\<lparr>cloud := c\<rparr>) = top_given co G s" for G c by (simp add: top_given_def)
  ultimately show ?thesis by (simp add: settings_given_def)
qed

lemma validate_settings_result:
  assumes "validate_settings s = Inr s'"
  shows "s' = s\<lparr>cloud := (cloud s)\<lparr>cloud_provider := ''aws''\<rparr>\<rparr>"
  using assms
  by (auto simp: validate_settings_def validators Let_def split: sum.splits if_splits)

lemma validate_settings_provider:
  "validate_settings s = Inr s' \<Longrightarrow> py_lower (cloud_provider (cloud s)) = ''aws''"
  by (auto simp: validate_settings_def normalize_provider_def Let_def split: sum.splits if_splits)

lemma GatewaySettings_Inr:
  assumes "GatewaySettings co env (Some path) cli = Inr s"
  obtains data s0 where "yaml_load co env path = Inr data"
    and "read_fields co (merge_sources co [cli, env_settings env, data]) = Inr s0"
    and "validate_settings s0 = Inr s"
  using assms
  by (auto simp: GatewaySettings_def settings_customise_sources_def map_sum_def chain_def
      split: sum.splits)

lemma merge_sources_dom:
  assumes "deep_update_law co" and "d \<in> set ds" and "map_of d k \<noteq> None"
  shows "map_of (merge_sources co ds) k \<noteq> None"
proof -
  have step: "map_of (deep_update co base upd) k = None \<longleftrightarrow> map_of base k = None \<and> map_of upd k = None" for base upd
    using assms(1) [unfolded deep_update_law_def, rule_format, of base upd k]
    by (auto split: option.splits cfg.splits)
  have "map_of (foldl (\<lambda>state source. deep_update co source state) state ds) k = None
      \<longleftrightarrow> map_of state k = None \<and> (\<forall>d \<in> set ds. map_of d k = None)" for state
    by (induction ds arbitrary: state) (simp_all add: step conj_ac)
  with assms(2,3) show ?thesis by (metis merge_sources_def)
qed

text \<open>A key that is no field, in whichever source, makes loading fail.\<close>

lemma unknown_key_rejected:
  assumes "deep_update_law co" and "yaml_load co env path = Inr data"
    and "d \<in> {cli, env_settings env, data}" and "map_of d k \<noteq> None"
    and "k \<notin> {''deployment_id'', ''database_url'', ''host'', ''port'', ''log_level'',
      ''max_file_size_bytes'', ''task_sla_seconds'', ''cloud_workers_enabled'', ''scaling'',
      ''reconciliation'', ''retention'', ''cache'', ''cloud'', ''rotation'', ''scheduler'',
      ''attribution'', ''auth'', ''otel''}"
  shows "\<exists>e. GatewaySettings co env (Some path) cli = Inl e"
proof -
  have "map_of (merge_sources co [cli, env_settings env, data]) k \<noteq> None"
    using merge_sources_dom [OF assms(1) _ assms(4)] assms(3) by auto
  then have known: "k \<in> set (map fst (merge_sources co [cli, env_settings env, data]))"
    by (force dest: map_of_SomeD)
  have "forbid_extra names (merge_sources co [cli, env_settings env, data]) \<noteq> Inr ()"
    if "k \<notin> set names" for names
    using known that by (auto simp: forbid_extra_def filter_empty_conv split: list.splits)
  then have "read_fields co (merge_sources co [cli, env_settings env, data]) \<noteq> Inr s" for s
    using assms(5) by (auto simp: read_fields_def)
  then show ?thesis using assms(2)
    by (cases "GatewaySettings co env (Some path) cli") (auto elim: GatewaySettings_Inr)
qed

lemma load_settings_built:
  assumes "load_settings co env config_path cli g = (Inr s, g')"
  obtains data s0 where "yaml_load co env (text_or config_path ''config.yaml'') = Inr data"
    and "read_fields co (merge_sources co [cli, env_settings env, data]) = Inr s0"
    and "validate_settings s0 = Inr s" and "cached_settings g' = Some s"
proof -
  from assms have "GatewaySettings co env (Some (text_or config_path ''config.yaml'')) cli = Inr s"
    and "cached_settings g' = Some s"
    by (auto simp: load_settings_def DEFAULT_CONFIG_PATH_def Let_def split: sum.splits)
  then show ?thesis using that by (auto elim: GatewaySettings_Inr)
qed

text \<open>A failed load leaves the settings loaded before in place.\<close>

lemma load_settings_failure:
  "load_settings co env config_path cli g = (Inl e, g') \<Longrightarrow> cached_settings g' = cached_settings g"
  by (auto simp: load_settings_def Let_def split: sum.splits)

section \<open>Properties\<close>

text \<open>C18: The settings a process runs with take every value from the most specific source that gives one.
  When loading succeeded, every field of every model (\<open>settings_given\<close> lists the eight of the top
  level and those of the ten nested sections) has the value of the command line if it sets the field,
  else of the environment, else of the YAML file, else the default written in the source, converted
  to the field's type; a source that sets one key of a section does not hide the other keys set by
  another source. The provider alone is folded to the name \<open>aws\<close>. Afterwards every call of
  \<open>get_settings\<close> returns the loaded settings, whatever the environment and the file contain by then.\<close>

theorem settings_precedence:
  assumes law: "deep_update_law co"
    and loaded: "load_settings co env config_path cli g = (Inr s, g')"
  shows "\<exists>data. yaml_load co env (text_or config_path ''config.yaml'') = Inr data
    \<and> settings_given co (\<lambda>p. first_given p [cli, env_settings env, data]) s
    \<and> get_settings co env' g' = (Inr s, g')"
proof -
  from loaded obtain data s0 where data: "yaml_load co env (text_or config_path ''config.yaml'') = Inr data"
    and s0: "read_fields co (merge_sources co [cli, env_settings env, data]) = Inr s0"
    and s: "validate_settings s0 = Inr s" and g': "cached_settings g' = Some s"
    by (rule load_settings_built)
  from s0 s have "settings_given co (\<lambda>p. first_given p [cli, env_settings env, data]) s"
    unfolding validate_settings_result [OF s]
    by (intro read_fields_settings [OF law]) (auto intro: validate_settings_provider)
  with data g' show ?thesis by (simp add: get_settings_def)
qed

text \<open>A concrete merge and concrete conversions: raw values are strings and integers.\<close>

function merge_dicts :: "'v dict \<Rightarrow> 'v dict \<Rightarrow> 'v dict" where
  "merge_dicts base [] = base"
| "merge_dicts base ((k, v) # upd) =
    dict_set k (case (map_of base k, v) of (Some (Dict b), Dict u) \<Rightarrow> Dict (merge_dicts b u) | _ \<Rightarrow> v)
      (merge_dicts base upd)"
  by pat_completeness auto
termination by (relation "measure (\<lambda>(b, u). size_list (size_prod (\<lambda>_. 0) size) u)") auto

declare merge_dicts.simps [simp del]

definition example_pydantic :: "(string + int) pydantic" where
  "example_pydantic = \<lparr>as_str = (\<lambda>v. case v of Inl s \<Rightarrow> Some s | Inr _ \<Rightarrow> None),
     as_int = (\<lambda>v. case v of Inl _ \<Rightarrow> None | Inr n \<Rightarrow> Some n),
     as_bool = (\<lambda>v. if v = Inl ''true'' then Some True else None), as_seconds = (\<lambda>_. None),
     is_none = (\<lambda>_. False), of_str = Inl, of_int_value = Inr, deep_update = merge_dicts,
     str_of = (\<lambda>v. case v of Inl s \<Rightarrow> s | Inr _ \<Rightarrow> ''int''), falsy = (\<lambda>v. v = Inl []), type_name = (\<lambda>_. ''str'')\<rparr>"

definition example_sources :: "(string + int) process_env" where
  "example_sources = \<lparr>env_settings = [(''scaling'', Dict [(''max_workers'', Leaf (Inr 8))])],
     read_yaml = (\<lambda>_. Some (Inr (Dict [(''scaling'', Dict [(''target_per_worker'', Leaf (Inr 2))]),
       (''database_url'', Leaf (Inl ''file''))])))\<rparr>"

lemma merge_dicts_law:
  "map_of (merge_dicts base upd) k =
     (case map_of upd k of
        None \<Rightarrow> map_of base k
      | Some (Leaf v) \<Rightarrow> Some (Leaf v)
      | Some (Dict u) \<Rightarrow>
          (case map_of base k of Some (Dict b) \<Rightarrow> Some (Dict (merge_dicts b u)) | _ \<Rightarrow> Some (Dict u)))"
  by (induction upd)
    (auto simp: merge_dicts.simps dict_set_lookup split: option.splits cfg.splits)

lemma example_pydantic_law: "deep_update_law example_pydantic"
proof -
  have "deep_update example_pydantic = merge_dicts" by (simp add: example_pydantic_def)
  then show ?thesis unfolding deep_update_law_def by (simp only: merge_dicts_law) simp
qed

theorem settings_precedence_witness:
  "\<exists>s g'. load_settings example_pydantic example_sources None [(''database_url'', Leaf (Inl ''cli''))] initial_config = (Inr s, g')
    \<and> database_url s = ''cli'' \<and> max_workers (scaling s) = 8 \<and> target_per_worker (scaling s) = 2
    \<and> min_workers (scaling s) = 0 \<and> host s = ''127.0.0.1''"
proof -
  obtain s g' where run: "load_settings example_pydantic example_sources None
      [(''database_url'', Leaf (Inl ''cli''))] initial_config = (Inr s, g')"
    by (simp add: load_settings_def GatewaySettings_def example_pydantic_def example_sources_def
        settings_customise_sources_def yaml_load_def merge_sources_def merge_dicts.simps chain_def
        read_fields_def field_def section_of_def forbid_extra_def ScalingConfig_def ReconciliationConfig_def
        RetentionConfig_def CacheConfig_def CloudConfig_def AwsCloudConfig_def RotationConfig_def
        SchedulerConfig_def AttributionConfig_def AuthConfig_def OtelConfig_def validate_settings_def
        validators MAX_FILE_SIZE_HARD_BYTES_def object_store_bucket_def py_strip_def py_isspace_def
        py_lower_def py_lower_char_def seconds_def Let_def)
  from settings_precedence [OF example_pydantic_law run, of example_sources] run show ?thesis
    by (simp add: example_sources_def example_pydantic_def yaml_load_def takes_value_def settings_given_def
        section_given_defs)
qed

end
