(* ===== verification/Schema.thy ===== *)
theory Schema
  imports Models
begin

text \<open>
  The database schema twice: as the Alembic migration \<^verbatim>\<open>alembic/versions/0001_initial.py\<close> creates it
  and as \<open>Base.metadata.create_all\<close> creates it from the ORM models of \<^verbatim>\<open>db/models.py\<close>, and the
  sqlite bootstrap of \<^verbatim>\<open>db/bootstrap.py\<close>. A schema is a list of tables and a list of indexes;
  \<open>create_table\<close>, \<open>create_index\<close>, \<open>drop_table\<close> and \<open>drop_index\<close> are the DDL statements with the errors
  a database answers. How SQLAlchemy names the index of a column declared with \<open>index=True\<close> is an argument.
\<close>

section \<open>Definitions\<close>

subsection \<open>Tables, indexes and DDL\<close>

datatype sql_type =
    String nat | Integer | BigInteger | Boolean | DateTime bool | Text | JSON

datatype server_default = LiteralDefault string | SqlFalse | CurrentTimestamp

record column =
  col_name :: string
  col_type :: sql_type
  col_primary_key :: bool
  col_nullable :: bool
  col_unique :: bool
  col_autoincrement :: bool
  col_server_default :: "server_default option"

datatype foreign_key = ForeignKey string string string "string option"

record sql_table =
  tab_name :: string
  tab_columns :: "column list"
  tab_foreign_keys :: "foreign_key list"

record sql_index =
  ix_name :: string
  ix_table :: string
  ix_columns :: "string list"

record schema =
  sc_tables :: "sql_table list"
  sc_indexes :: "sql_index list"

datatype ddl_error =
    DuplicateTable string | UndefinedTable string | DuplicateIndex string | UndefinedIndex string
  | UndefinedColumn string | DependentObjects string

definition empty_schema :: schema where
  "empty_schema = \<lparr>sc_tables = [], sc_indexes = []\<rparr>"

definition Column :: "string \<Rightarrow> sql_type \<Rightarrow> bool \<Rightarrow> bool \<Rightarrow> server_default option \<Rightarrow> column" where
  "Column name ty nullable unique dflt =
     \<lparr>col_name = name, col_type = ty, col_primary_key = False, col_nullable = nullable,
      col_unique = unique, col_autoincrement = False, col_server_default = dflt\<rparr>"

definition primary_key_column :: "string \<Rightarrow> sql_type \<Rightarrow> bool \<Rightarrow> column" where
  "primary_key_column name ty autoincrement =
     \<lparr>col_name = name, col_type = ty, col_primary_key = True, col_nullable = False,
      col_unique = False, col_autoincrement = autoincrement, col_server_default = None\<rparr>"

fun refers_to :: "foreign_key \<Rightarrow> string" where
  "refers_to (ForeignKey _ t _ _) = t"

definition has_table :: "string \<Rightarrow> schema \<Rightarrow> bool" where
  "has_table name s \<longleftrightarrow> name \<in> set (map tab_name (sc_tables s))"

definition get_table :: "string \<Rightarrow> schema \<Rightarrow> sql_table option" where
  "get_table name s = find (\<lambda>t. tab_name t = name) (sc_tables s)"

definition create_table :: "sql_table \<Rightarrow> schema \<Rightarrow> ddl_error + schema" where
  "create_table t s =
    (if has_table (tab_name t) s then Inl (DuplicateTable (tab_name t))
     else
       (case filter (\<lambda>r. r \<noteq> tab_name t \<and> \<not> has_table r s) (map refers_to (tab_foreign_keys t)) of
          r # _ \<Rightarrow> Inl (UndefinedTable r)
        | [] \<Rightarrow> Inr (s\<lparr>sc_tables := sc_tables s @ [t]\<rparr>)))"

definition create_index :: "string \<Rightarrow> string \<Rightarrow> string list \<Rightarrow> schema \<Rightarrow> ddl_error + schema" where
  "create_index name tbl cols s =
    (if name \<in> set (map ix_name (sc_indexes s)) then Inl (DuplicateIndex name)
     else
       (case get_table tbl s of
          None \<Rightarrow> Inl (UndefinedTable tbl)
        | Some t \<Rightarrow>
            (case filter (\<lambda>c. c \<notin> set (map col_name (tab_columns t))) cols of
               c # _ \<Rightarrow> Inl (UndefinedColumn c)
             | [] \<Rightarrow> Inr (s\<lparr>sc_indexes := sc_indexes s @ [\<lparr>ix_name = name, ix_table = tbl, ix_columns = cols\<rparr>]\<rparr>))))"

text \<open>A table that a foreign key of another table refers to cannot be dropped; its own indexes go with it.\<close>

definition drop_table :: "string \<Rightarrow> schema \<Rightarrow> ddl_error + schema" where
  "drop_table name s =
    (if \<not> has_table name s then Inl (UndefinedTable name)
     else if list_ex (\<lambda>t. tab_name t \<noteq> name \<and> name \<in> set (map refers_to (tab_foreign_keys t))) (sc_tables s)
     then Inl (DependentObjects name)
     else Inr \<lparr>sc_tables = filter (\<lambda>t. tab_name t \<noteq> name) (sc_tables s),
               sc_indexes = filter (\<lambda>i. ix_table i \<noteq> name) (sc_indexes s)\<rparr>)"

definition drop_index :: "string \<Rightarrow> schema \<Rightarrow> ddl_error + schema" where
  "drop_index name s =
    (if name \<in> set (map ix_name (sc_indexes s))
     then Inr (s\<lparr>sc_indexes := filter (\<lambda>i. ix_name i \<noteq> name) (sc_indexes s)\<rparr>)
     else Inl (UndefinedIndex name))"

subsection \<open>The migration\<close>

definition migration_workers :: sql_table where
  "migration_workers = \<lparr>tab_name = ''workers'', tab_columns = [
     primary_key_column ''id'' (String 128) False,
     Column ''provider'' (String 32) False False None,
     Column ''deployment_id'' (String 128) False False None,
     Column ''instance_id'' (String 256) True True None,
     Column ''base_url'' (String 512) True False None,
     Column ''generation'' Integer False False (Some (LiteralDefault ''0'')),
     Column ''desired_state'' (String 32) False False (Some (LiteralDefault ''stopped'')),
     Column ''cloud_state'' (String 32) False False (Some (LiteralDefault ''unknown'')),
     Column ''healthy'' Boolean False False (Some SqlFalse),
     Column ''draining'' Boolean False False (Some SqlFalse),
     Column ''drain_target'' (String 16) True False None,
     Column ''replacement_for'' (String 128) True False None,
     Column ''rotation_requested'' Boolean False False (Some SqlFalse),
     Column ''failure_count'' Integer False False (Some (LiteralDefault ''0'')),
     Column ''retry_after'' (DateTime True) True False None,
     Column ''stalled_at'' (DateTime True) True False None,
     Column ''last_error'' Text True False None,
     Column ''provisioning_detail'' Text True False None,
     Column ''ready_at'' (DateTime True) True False None,
     Column ''start_requested_at'' (DateTime True) True False None,
     Column ''last_active_at'' (DateTime True) True False None,
     Column ''last_health_checked_at'' (DateTime True) True False None,
     Column ''terminated_at'' (DateTime True) True False None,
     Column ''created_at'' (DateTime True) False False (Some CurrentTimestamp),
     Column ''updated_at'' (DateTime True) False False (Some CurrentTimestamp)],
     tab_foreign_keys = [ForeignKey ''replacement_for'' ''workers'' ''id'' (Some ''fk_workers_replacement_for'')]\<rparr>"

definition migration_cache_entries :: sql_table where
  "migration_cache_entries = \<lparr>tab_name = ''cache_entries'', tab_columns = [
     primary_key_column ''cache_key'' (String 64) False,
     Column ''content_sha256'' (String 64) False False None,
     Column ''options_hash'' (String 64) False False None,
     Column ''backend'' (String 64) False False None,
     Column ''parse_method'' (String 16) False False None,
     Column ''effort'' (String 16) False False None,
     Column ''object_key'' (String 512) True False None,
     Column ''object_generation'' Integer False False (Some (LiteralDefault ''0'')),
     Column ''result_format'' (String 16) True False None,
     Column ''size_bytes'' BigInteger True False None,
     Column ''hit_count'' Integer False False (Some (LiteralDefault ''0'')),
     Column ''expires_at'' (DateTime True) True False None,
     Column ''created_at'' (DateTime True) False False (Some CurrentTimestamp)],
     tab_foreign_keys = []\<rparr>"

definition migration_tasks :: sql_table where
  "migration_tasks = \<lparr>tab_name = ''tasks'', tab_columns = [
     primary_key_column ''task_id'' (String 64) False,
     Column ''worker_id'' (String 128) True False None,
     Column ''upstream_task_id'' (String 64) True False None,
     Column ''upstream_base_url'' (String 512) True False None,
     Column ''backend'' (String 64) False False (Some (LiteralDefault ''hybrid-engine'')),
     Column ''parse_method'' (String 16) False False (Some (LiteralDefault ''auto'')),
     Column ''file_names'' JSON False False None,
     Column ''source'' (String 16) False False (Some (LiteralDefault ''tasks'')),
     Column ''status'' (String 16) False False (Some (LiteralDefault ''queued'')),
     Column ''payload_key'' (String 512) True False None,
     Column ''result_key'' (String 512) True False None,
     Column ''result_format'' (String 16) True False None,
     Column ''cache_key'' (String 64) True False None,
     Column ''error'' Text True False None,
     Column ''options_blob'' JSON True False None,
     Column ''dispatch_started_at'' (DateTime True) True False None,
     Column ''next_poll_at'' (DateTime True) True False None,
     Column ''client_expired_at'' (DateTime True) True False None,
     Column ''created_at'' (DateTime True) False False (Some CurrentTimestamp),
     Column ''started_at'' (DateTime True) True False None,
     Column ''completed_at'' (DateTime True) True False None,
     Column ''updated_at'' (DateTime True) False False (Some CurrentTimestamp)],
     tab_foreign_keys = [ForeignKey ''worker_id'' ''workers'' ''id'' (Some ''fk_tasks_worker'')]\<rparr>"

definition migration_scaling_events :: sql_table where
  "migration_scaling_events = \<lparr>tab_name = ''scaling_events'', tab_columns = [
     primary_key_column ''id'' Integer True,
     Column ''worker_id'' (String 128) True False None,
     Column ''action'' (String 16) False False None,
     Column ''reason'' (String 256) False False None,
     Column ''triggered_by'' (String 16) False False (Some (LiteralDefault ''autoscaler'')),
     Column ''requester'' (String 128) True False None,
     Column ''created_at'' (DateTime True) False False (Some CurrentTimestamp)],
     tab_foreign_keys = [ForeignKey ''worker_id'' ''workers'' ''id'' (Some ''fk_scaling_events_worker'')]\<rparr>"

definition upgrade :: "schema \<Rightarrow> ddl_error + schema" where
  "upgrade s0 =
    chain (create_table migration_workers s0) (\<lambda>s1.
    chain (create_index ''ix_workers_deployment_id'' ''workers'' [''deployment_id''] s1) (\<lambda>s2.
    chain (create_index ''ix_workers_desired_state'' ''workers'' [''desired_state''] s2) (\<lambda>s3.
    chain (create_table migration_cache_entries s3) (\<lambda>s4.
    chain (create_index ''ix_cache_entries_content_sha256'' ''cache_entries'' [''content_sha256''] s4) (\<lambda>s5.
    chain (create_index ''ix_cache_entries_expires_at'' ''cache_entries'' [''expires_at''] s5) (\<lambda>s6.
    chain (create_table migration_tasks s6) (\<lambda>s7.
    chain (create_index ''ix_tasks_status'' ''tasks'' [''status''] s7) (\<lambda>s8.
    chain (create_index ''ix_tasks_worker_id'' ''tasks'' [''worker_id''] s8) (\<lambda>s9.
    chain (create_index ''ix_tasks_status_created'' ''tasks'' [''status'', ''created_at''] s9) (\<lambda>s10.
    chain (create_table migration_scaling_events s10) (\<lambda>s11.
    chain (create_index ''ix_scaling_events_worker_id'' ''scaling_events'' [''worker_id''] s11) (\<lambda>s12.
    create_index ''ix_scaling_events_created_at'' ''scaling_events'' [''created_at''] s12))))))))))))"

definition downgrade :: "schema \<Rightarrow> ddl_error + schema" where
  "downgrade s0 =
    chain (drop_table ''scaling_events'' s0) (\<lambda>s1.
    chain (drop_index ''ix_tasks_status_created'' s1) (\<lambda>s2.
    chain (drop_table ''tasks'' s2) (\<lambda>s3.
    chain (drop_table ''cache_entries'' s3) (\<lambda>s4.
    chain (drop_index ''ix_workers_desired_state'' s4) (\<lambda>s5.
    chain (drop_index ''ix_workers_deployment_id'' s5) (\<lambda>s6.
    drop_table ''workers'' s6))))))"

subsection \<open>The ORM models\<close>

datatype py_default = DefaultStr string | DefaultInt int | DefaultBool bool | DefaultList | DefaultNow

record orm_column =
  mc_name :: string
  mc_type :: sql_type
  mc_primary_key :: bool
  mc_nullable :: bool
  mc_unique :: bool
  mc_index :: bool
  mc_autoincrement :: bool
  mc_foreign_key :: "(string \<times> string) option"
  mc_default :: "py_default option"
  mc_onupdate :: "py_default option"

record orm_model =
  orm_tablename :: string
  orm_columns :: "orm_column list"
  orm_indexes :: "(string \<times> string list) list"

definition mapped_column :: "string \<Rightarrow> sql_type \<Rightarrow> orm_column" where
  "mapped_column name ty = \<lparr>mc_name = name, mc_type = ty, mc_primary_key = False, mc_nullable = True,
     mc_unique = False, mc_index = False, mc_autoincrement = False, mc_foreign_key = None,
     mc_default = None, mc_onupdate = None\<rparr>"

definition Worker_table :: orm_model where
  "Worker_table = \<lparr>orm_tablename = ''workers'', orm_columns = [
     (mapped_column ''id'' (String 128))\<lparr>mc_primary_key := True, mc_nullable := False\<rparr>,
     (mapped_column ''provider'' (String 32))\<lparr>mc_nullable := False\<rparr>,
     (mapped_column ''deployment_id'' (String 128))\<lparr>mc_nullable := False, mc_index := True\<rparr>,
     (mapped_column ''instance_id'' (String 256))\<lparr>mc_nullable := True, mc_unique := True\<rparr>,
     (mapped_column ''base_url'' (String 512))\<lparr>mc_nullable := True\<rparr>,
     (mapped_column ''generation'' Integer)\<lparr>mc_nullable := False, mc_default := Some (DefaultInt 0)\<rparr>,
     (mapped_column ''desired_state'' (String 32))\<lparr>mc_nullable := False, mc_default := Some (DefaultStr ''stopped'')\<rparr>,
     (mapped_column ''cloud_state'' (String 32))\<lparr>mc_nullable := False, mc_default := Some (DefaultStr ''unknown'')\<rparr>,
     (mapped_column ''healthy'' Boolean)\<lparr>mc_nullable := False, mc_default := Some (DefaultBool False)\<rparr>,
     (mapped_column ''draining'' Boolean)\<lparr>mc_nullable := False, mc_default := Some (DefaultBool False)\<rparr>,
     (mapped_column ''drain_target'' (String 16))\<lparr>mc_nullable := True\<rparr>,
     (mapped_column ''replacement_for'' (String 128))\<lparr>mc_nullable := True, mc_foreign_key := Some (''workers'', ''id'')\<rparr>,
     (mapped_column ''rotation_requested'' Boolean)\<lparr>mc_nullable := False, mc_default := Some (DefaultBool False)\<rparr>,
     (mapped_column ''failure_count'' Integer)\<lparr>mc_nullable := False, mc_default := Some (DefaultInt 0)\<rparr>,
     (mapped_column ''retry_after'' (DateTime True))\<lparr>mc_nullable := True\<rparr>,
     (mapped_column ''stalled_at'' (DateTime True))\<lparr>mc_nullable := True\<rparr>,
     (mapped_column ''last_error'' Text)\<lparr>mc_nullable := True\<rparr>,
     (mapped_column ''provisioning_detail'' Text)\<lparr>mc_nullable := True\<rparr>,
     (mapped_column ''ready_at'' (DateTime True))\<lparr>mc_nullable := True\<rparr>,
     (mapped_column ''start_requested_at'' (DateTime True))\<lparr>mc_nullable := True\<rparr>,
     (mapped_column ''last_active_at'' (DateTime True))\<lparr>mc_nullable := True\<rparr>,
     (mapped_column ''last_health_checked_at'' (DateTime True))\<lparr>mc_nullable := True\<rparr>,
     (mapped_column ''terminated_at'' (DateTime True))\<lparr>mc_nullable := True\<rparr>,
     (mapped_column ''created_at'' (DateTime True))\<lparr>mc_nullable := False, mc_default := Some DefaultNow\<rparr>,
     (mapped_column ''updated_at'' (DateTime True))\<lparr>mc_nullable := False, mc_default := Some DefaultNow, mc_onupdate := Some DefaultNow\<rparr>],
     orm_indexes = []\<rparr>"

definition Task_table :: orm_model where
  "Task_table = \<lparr>orm_tablename = ''tasks'', orm_columns = [
     (mapped_column ''task_id'' (String 64))\<lparr>mc_primary_key := True, mc_nullable := False\<rparr>,
     (mapped_column ''worker_id'' (String 128))\<lparr>mc_nullable := True, mc_index := True, mc_foreign_key := Some (''workers'', ''id'')\<rparr>,
     (mapped_column ''upstream_task_id'' (String 64))\<lparr>mc_nullable := True\<rparr>,
     (mapped_column ''upstream_base_url'' (String 512))\<lparr>mc_nullable := True\<rparr>,
     (mapped_column ''backend'' (String 64))\<lparr>mc_nullable := False, mc_default := Some (DefaultStr ''hybrid-engine'')\<rparr>,
     (mapped_column ''parse_method'' (String 16))\<lparr>mc_nullable := False, mc_default := Some (DefaultStr ''auto'')\<rparr>,
     (mapped_column ''file_names'' JSON)\<lparr>mc_nullable := False, mc_default := Some DefaultList\<rparr>,
     (mapped_column ''source'' (String 16))\<lparr>mc_nullable := False, mc_default := Some (DefaultStr ''tasks'')\<rparr>,
     (mapped_column ''status'' (String 16))\<lparr>mc_nullable := False, mc_index := True, mc_default := Some (DefaultStr (status_text TASK_QUEUED))\<rparr>,
     (mapped_column ''payload_key'' (String 512))\<lparr>mc_nullable := True\<rparr>,
     (mapped_column ''result_key'' (String 512))\<lparr>mc_nullable := True\<rparr>,
     (mapped_column ''result_format'' (String 16))\<lparr>mc_nullable := True\<rparr>,
     (mapped_column ''cache_key'' (String 64))\<lparr>mc_nullable := True\<rparr>,
     (mapped_column ''error'' Text)\<lparr>mc_nullable := True\<rparr>,
     (mapped_column ''options_blob'' JSON)\<lparr>mc_nullable := True\<rparr>,
     (mapped_column ''dispatch_started_at'' (DateTime True))\<lparr>mc_nullable := True\<rparr>,
     (mapped_column ''next_poll_at'' (DateTime True))\<lparr>mc_nullable := True\<rparr>,
     (mapped_column ''client_expired_at'' (DateTime True))\<lparr>mc_nullable := True\<rparr>,
     (mapped_column ''created_at'' (DateTime True))\<lparr>mc_nullable := False, mc_default := Some DefaultNow\<rparr>,
     (mapped_column ''started_at'' (DateTime True))\<lparr>mc_nullable := True\<rparr>,
     (mapped_column ''completed_at'' (DateTime True))\<lparr>mc_nullable := True\<rparr>,
     (mapped_column ''updated_at'' (DateTime True))\<lparr>mc_nullable := False, mc_default := Some DefaultNow, mc_onupdate := Some DefaultNow\<rparr>],
     orm_indexes = [(''ix_tasks_status_created'', [''status'', ''created_at''])]\<rparr>"

definition CacheEntry_table :: orm_model where
  "CacheEntry_table = \<lparr>orm_tablename = ''cache_entries'', orm_columns = [
     (mapped_column ''cache_key'' (String 64))\<lparr>mc_primary_key := True, mc_nullable := False\<rparr>,
     (mapped_column ''content_sha256'' (String 64))\<lparr>mc_nullable := False, mc_index := True\<rparr>,
     (mapped_column ''options_hash'' (String 64))\<lparr>mc_nullable := False\<rparr>,
     (mapped_column ''backend'' (String 64))\<lparr>mc_nullable := False\<rparr>,
     (mapped_column ''parse_method'' (String 16))\<lparr>mc_nullable := False\<rparr>,
     (mapped_column ''effort'' (String 16))\<lparr>mc_nullable := False\<rparr>,
     (mapped_column ''object_key'' (String 512))\<lparr>mc_nullable := True\<rparr>,
     (mapped_column ''object_generation'' Integer)\<lparr>mc_nullable := False, mc_default := Some (DefaultInt 0)\<rparr>,
     (mapped_column ''result_format'' (String 16))\<lparr>mc_nullable := True\<rparr>,
     (mapped_column ''size_bytes'' BigInteger)\<lparr>mc_nullable := True\<rparr>,
     (mapped_column ''hit_count'' Integer)\<lparr>mc_nullable := False, mc_default := Some (DefaultInt 0)\<rparr>,
     (mapped_column ''expires_at'' (DateTime True))\<lparr>mc_nullable := True, mc_index := True\<rparr>,
     (mapped_column ''created_at'' (DateTime True))\<lparr>mc_nullable := False, mc_default := Some DefaultNow\<rparr>],
     orm_indexes = []\<rparr>"

definition ScalingEvent_table :: orm_model where
  "ScalingEvent_table = \<lparr>orm_tablename = ''scaling_events'', orm_columns = [
     (mapped_column ''id'' Integer)\<lparr>mc_primary_key := True, mc_nullable := False, mc_autoincrement := True\<rparr>,
     (mapped_column ''worker_id'' (String 128))\<lparr>mc_nullable := True, mc_foreign_key := Some (''workers'', ''id'')\<rparr>,
     (mapped_column ''action'' (String 16))\<lparr>mc_nullable := False\<rparr>,
     (mapped_column ''reason'' (String 256))\<lparr>mc_nullable := False\<rparr>,
     (mapped_column ''triggered_by'' (String 16))\<lparr>mc_nullable := False, mc_default := Some (DefaultStr ''autoscaler'')\<rparr>,
     (mapped_column ''requester'' (String 128))\<lparr>mc_nullable := True\<rparr>,
     (mapped_column ''created_at'' (DateTime True))\<lparr>mc_nullable := False, mc_default := Some DefaultNow\<rparr>],
     orm_indexes = []\<rparr>"

definition Base_metadata :: "orm_model list" where
  "Base_metadata = [Worker_table, Task_table, CacheEntry_table, ScalingEvent_table]"

text \<open>The table of a model: a Python-side \<open>default\<close> is no server default, a foreign key declared on a
  column has no name.\<close>

definition orm_column_ddl :: "orm_column \<Rightarrow> column" where
  "orm_column_ddl c = \<lparr>col_name = mc_name c, col_type = mc_type c, col_primary_key = mc_primary_key c,
     col_nullable = mc_nullable c, col_unique = mc_unique c, col_autoincrement = mc_autoincrement c,
     col_server_default = None\<rparr>"

definition orm_foreign_keys :: "orm_column list \<Rightarrow> foreign_key list" where
  "orm_foreign_keys cols =
     concat (map (\<lambda>c. case mc_foreign_key c of None \<Rightarrow> [] | Some (t, r) \<Rightarrow> [ForeignKey (mc_name c) t r None]) cols)"

definition orm_table_ddl :: "orm_model \<Rightarrow> sql_table" where
  "orm_table_ddl m = \<lparr>tab_name = orm_tablename m, tab_columns = map orm_column_ddl (orm_columns m),
     tab_foreign_keys = orm_foreign_keys (orm_columns m)\<rparr>"

definition orm_table_indexes :: "(string \<Rightarrow> string \<Rightarrow> string) \<Rightarrow> orm_model \<Rightarrow> (string \<times> string list) list" where
  "orm_table_indexes naming m =
     map (\<lambda>c. (naming (orm_tablename m) (mc_name c), [mc_name c])) (filter mc_index (orm_columns m)) @ orm_indexes m"

fun create_indexes :: "string \<Rightarrow> (string \<times> string list) list \<Rightarrow> schema \<Rightarrow> ddl_error + schema" where
  "create_indexes tbl [] s = Inr s"
| "create_indexes tbl ((name, cols) # ixs) s = chain (create_index name tbl cols s) (create_indexes tbl ixs)"

text \<open>\<open>create_all\<close> with its default \<open>checkfirst\<close>: a table that is there already is left alone.\<close>

fun create_all :: "(string \<Rightarrow> string \<Rightarrow> string) \<Rightarrow> orm_model list \<Rightarrow> schema \<Rightarrow> ddl_error + schema" where
  "create_all naming [] s = Inr s"
| "create_all naming (m # ms) s =
    (if has_table (orm_tablename m) s then create_all naming ms s
     else chain (create_table (orm_table_ddl m) s) (\<lambda>s1.
          chain (create_indexes (orm_tablename m) (orm_table_indexes naming m) s1) (create_all naming ms)))"

definition ensure_sqlite_schema :: "(string \<Rightarrow> string \<Rightarrow> string) \<Rightarrow> string \<Rightarrow> schema \<Rightarrow> ddl_error + schema" where
  "ensure_sqlite_schema naming engine_url s =
    (if take 6 engine_url \<noteq> ''sqlite'' then Inr s
     else if has_table ''workers'' s then Inr s
     else create_all naming Base_metadata s)"

subsection \<open>What the migration creates\<close>

definition migration_tables :: "sql_table list" where
  "migration_tables = [migration_workers, migration_cache_entries, migration_tasks, migration_scaling_events]"

definition migration_indexes :: "sql_index list" where
  "migration_indexes =
    [\<lparr>ix_name = ''ix_workers_deployment_id'', ix_table = ''workers'', ix_columns = [''deployment_id'']\<rparr>,
     \<lparr>ix_name = ''ix_workers_desired_state'', ix_table = ''workers'', ix_columns = [''desired_state'']\<rparr>,
     \<lparr>ix_name = ''ix_cache_entries_content_sha256'', ix_table = ''cache_entries'', ix_columns = [''content_sha256'']\<rparr>,
     \<lparr>ix_name = ''ix_cache_entries_expires_at'', ix_table = ''cache_entries'', ix_columns = [''expires_at'']\<rparr>,
     \<lparr>ix_name = ''ix_tasks_status'', ix_table = ''tasks'', ix_columns = [''status'']\<rparr>,
     \<lparr>ix_name = ''ix_tasks_worker_id'', ix_table = ''tasks'', ix_columns = [''worker_id'']\<rparr>,
     \<lparr>ix_name = ''ix_tasks_status_created'', ix_table = ''tasks'', ix_columns = [''status'', ''created_at'']\<rparr>,
     \<lparr>ix_name = ''ix_scaling_events_worker_id'', ix_table = ''scaling_events'', ix_columns = [''worker_id'']\<rparr>,
     \<lparr>ix_name = ''ix_scaling_events_created_at'', ix_table = ''scaling_events'', ix_columns = [''created_at'']\<rparr>]"

text \<open>A database the migration can run on: it has none of the tables and index names, no index on such a
  table and no foreign key into one.\<close>

definition unrelated :: "schema \<Rightarrow> bool" where
  "unrelated s \<longleftrightarrow>
     (\<forall>t \<in> set (sc_tables s). tab_name t \<notin> set (map tab_name migration_tables)
        \<and> set (map refers_to (tab_foreign_keys t)) \<inter> set (map tab_name migration_tables) = {})
   \<and> (\<forall>i \<in> set (sc_indexes s). ix_name i \<notin> set (map ix_name migration_indexes)
        \<and> ix_table i \<notin> set (map tab_name migration_tables))"

text \<open>What a client of a table sees of it: columns with type, nullability and keys, and the references,
  but neither defaults nor constraint names.\<close>

definition column_shape :: "column \<Rightarrow> string \<times> sql_type \<times> bool \<times> bool \<times> bool \<times> bool" where
  "column_shape c = (col_name c, col_type c, col_primary_key c, col_nullable c, col_unique c, col_autoincrement c)"

fun reference_shape :: "foreign_key \<Rightarrow> string \<times> string \<times> string" where
  "reference_shape (ForeignKey c t r _) = (c, t, r)"

definition table_shape where
  "table_shape t = (map column_shape (tab_columns t), map reference_shape (tab_foreign_keys t))"

text \<open>The server default that says the same as a Python-side default.\<close>

fun server_default_of :: "py_default \<Rightarrow> server_default option" where
  "server_default_of (DefaultStr s) = Some (LiteralDefault s)"
| "server_default_of (DefaultInt i) = (if i = 0 then Some (LiteralDefault ''0'') else None)"
| "server_default_of (DefaultBool b) = (if b then None else Some SqlFalse)"
| "server_default_of DefaultList = None"
| "server_default_of DefaultNow = Some CurrentTimestamp"

definition orm_server_default :: "orm_column \<Rightarrow> server_default option" where
  "orm_server_default c = (case mc_default c of None \<Rightarrow> None | Some v \<Rightarrow> server_default_of v)"

section \<open>Lemmas\<close>

lemma find_append: "find P (xs @ ys) = (case find P xs of None \<Rightarrow> find P ys | Some x \<Rightarrow> Some x)"
  by (induction xs) auto

lemma migration_names [simp]:
  "tab_name migration_workers = ''workers''" "tab_name migration_cache_entries = ''cache_entries''"
  "tab_name migration_tasks = ''tasks''" "tab_name migration_scaling_events = ''scaling_events''"
  by (simp_all add: migration_workers_def migration_cache_entries_def migration_tasks_def migration_scaling_events_def)

lemma migration_references [simp]:
  "map refers_to (tab_foreign_keys migration_workers) = [''workers'']"
  "map refers_to (tab_foreign_keys migration_cache_entries) = []"
  "map refers_to (tab_foreign_keys migration_tasks) = [''workers'']"
  "map refers_to (tab_foreign_keys migration_scaling_events) = [''workers'']"
  by (simp_all add: migration_workers_def migration_cache_entries_def migration_tasks_def migration_scaling_events_def)

lemma migration_columns [simp]:
  "''deployment_id'' \<in> col_name ` set (tab_columns migration_workers)"
  "''desired_state'' \<in> col_name ` set (tab_columns migration_workers)"
  "''content_sha256'' \<in> col_name ` set (tab_columns migration_cache_entries)"
  "''expires_at'' \<in> col_name ` set (tab_columns migration_cache_entries)"
  "''status'' \<in> col_name ` set (tab_columns migration_tasks)"
  "''worker_id'' \<in> col_name ` set (tab_columns migration_tasks)"
  "''created_at'' \<in> col_name ` set (tab_columns migration_tasks)"
  "''worker_id'' \<in> col_name ` set (tab_columns migration_scaling_events)"
  "''created_at'' \<in> col_name ` set (tab_columns migration_scaling_events)"
  by (simp_all add: migration_workers_def migration_cache_entries_def migration_tasks_def
      migration_scaling_events_def Column_def primary_key_column_def)

lemma upgrade_result:
  assumes "unrelated s"
  shows "upgrade s = Inr \<lparr>sc_tables = sc_tables s @ migration_tables, sc_indexes = sc_indexes s @ migration_indexes\<rparr>"
proof -
  have tabs: "''workers'' \<notin> tab_name ` set (sc_tables s)" "''cache_entries'' \<notin> tab_name ` set (sc_tables s)"
      "''tasks'' \<notin> tab_name ` set (sc_tables s)" "''scaling_events'' \<notin> tab_name ` set (sc_tables s)"
    using assms by (auto simp: unrelated_def migration_tables_def)
  then have found: "find (\<lambda>t. tab_name t = ''workers'') (sc_tables s) = None"
      "find (\<lambda>t. tab_name t = ''cache_entries'') (sc_tables s) = None"
      "find (\<lambda>t. tab_name t = ''tasks'') (sc_tables s) = None"
      "find (\<lambda>t. tab_name t = ''scaling_events'') (sc_tables s) = None"
    by (auto simp: find_None_iff image_iff)
  have "n \<notin> ix_name ` set (sc_indexes s)" if "n \<in> set (map ix_name migration_indexes)" for n
    using assms that unfolding unrelated_def set_map by blast
  note ixs = this [unfolded migration_indexes_def, simplified]
  obtain ts xs where s: "s = \<lparr>sc_tables = ts, sc_indexes = xs\<rparr>" by (cases s) auto
  show ?thesis
    using tabs found ixs unfolding s
    by (simp add: upgrade_def create_table_def create_index_def chain_def has_table_def get_table_def
        find_append migration_tables_def migration_indexes_def)
qed

lemma downgrade_result:
  assumes "unrelated s"
  shows "downgrade \<lparr>sc_tables = sc_tables s @ migration_tables, sc_indexes = sc_indexes s @ migration_indexes\<rparr> = Inr s"
proof -
  have keep: "filter (\<lambda>t. tab_name t \<noteq> n) (sc_tables s) = sc_tables s"
      "filter (\<lambda>i. ix_table i \<noteq> n) (sc_indexes s) = sc_indexes s"
      "\<not> list_ex (\<lambda>t. tab_name t \<noteq> n \<and> n \<in> refers_to ` set (tab_foreign_keys t)) (sc_tables s)"
    if "n \<in> set (map tab_name migration_tables)" for n
    using assms that by (auto simp: unrelated_def filter_id_conv list_ex_iff)
  have keep_ix: "filter (\<lambda>i. ix_name i \<noteq> n) (sc_indexes s) = sc_indexes s"
    if "n \<in> set (map ix_name migration_indexes)" for n
    using assms that by (auto simp: unrelated_def filter_id_conv)
  have refs: "refers_to ` set (tab_foreign_keys migration_workers) = {''workers''}"
      "refers_to ` set (tab_foreign_keys migration_cache_entries) = {}"
      "refers_to ` set (tab_foreign_keys migration_tasks) = {''workers''}"
      "refers_to ` set (tab_foreign_keys migration_scaling_events) = {''workers''}"
    by (simp_all add: migration_workers_def migration_cache_entries_def migration_tasks_def migration_scaling_events_def)
  note keeps = keep [unfolded migration_tables_def, simplified] keep_ix [unfolded migration_indexes_def, simplified]
  obtain ts xs where s: "s = \<lparr>sc_tables = ts, sc_indexes = xs\<rparr>" by (cases s) auto
  show ?thesis
    using keeps unfolding s
    by (simp add: downgrade_def drop_table_def drop_index_def chain_def has_table_def
        migration_tables_def migration_indexes_def refs)
qed

lemmas orm_tables = Worker_table_def Task_table_def CacheEntry_table_def ScalingEvent_table_def
lemmas migration_table_defs =
  migration_workers_def migration_cache_entries_def migration_tasks_def migration_scaling_events_def
lemmas ddl_columns = mapped_column_def Column_def primary_key_column_def orm_column_ddl_def column_shape_def

lemma orm_names [simp]:
  "orm_tablename Worker_table = ''workers''" "orm_tablename Task_table = ''tasks''"
  "orm_tablename CacheEntry_table = ''cache_entries''" "orm_tablename ScalingEvent_table = ''scaling_events''"
  by (simp_all add: orm_tables)

lemma orm_table_name [simp]: "tab_name (orm_table_ddl m) = orm_tablename m"
  by (simp add: orm_table_ddl_def)

lemma orm_shapes:
  "table_shape (orm_table_ddl Worker_table) = table_shape migration_workers"
  "table_shape (orm_table_ddl Task_table) = table_shape migration_tasks"
  "table_shape (orm_table_ddl CacheEntry_table) = table_shape migration_cache_entries"
  "table_shape (orm_table_ddl ScalingEvent_table) = table_shape migration_scaling_events"
  by (simp_all add: table_shape_def orm_table_ddl_def orm_foreign_keys_def orm_tables migration_table_defs ddl_columns)

lemma orm_defaults:
  "map orm_server_default (orm_columns Worker_table) = map col_server_default (tab_columns migration_workers)"
  "map orm_server_default (orm_columns Task_table) = map col_server_default (tab_columns migration_tasks)"
  "map orm_server_default (orm_columns CacheEntry_table) = map col_server_default (tab_columns migration_cache_entries)"
  "map orm_server_default (orm_columns ScalingEvent_table) = map col_server_default (tab_columns migration_scaling_events)"
  by (simp_all add: orm_server_default_def orm_tables migration_table_defs ddl_columns)

lemma orm_references [simp]:
  "map refers_to (tab_foreign_keys (orm_table_ddl Worker_table)) = [''workers'']"
  "map refers_to (tab_foreign_keys (orm_table_ddl Task_table)) = [''workers'']"
  "map refers_to (tab_foreign_keys (orm_table_ddl CacheEntry_table)) = []"
  "map refers_to (tab_foreign_keys (orm_table_ddl ScalingEvent_table)) = [''workers'']"
  by (simp_all add: orm_table_ddl_def orm_foreign_keys_def orm_tables mapped_column_def)

definition conventional :: "(string \<Rightarrow> string \<Rightarrow> string) \<Rightarrow> bool" where
  "conventional naming \<longleftrightarrow> (\<forall>t c. naming t c = ''ix_'' @ t @ ''_'' @ c)"

lemma orm_table_index_list:
  assumes "conventional naming"
  shows "orm_table_indexes naming Worker_table = [(''ix_workers_deployment_id'', [''deployment_id''])]"
    and "orm_table_indexes naming Task_table = [(''ix_tasks_worker_id'', [''worker_id'']), (''ix_tasks_status'', [''status'']),
      (''ix_tasks_status_created'', [''status'', ''created_at''])]"
    and "orm_table_indexes naming CacheEntry_table = [(''ix_cache_entries_content_sha256'', [''content_sha256'']),
      (''ix_cache_entries_expires_at'', [''expires_at''])]"
    and "orm_table_indexes naming ScalingEvent_table = []"
  using assms by (simp_all add: orm_table_indexes_def orm_tables mapped_column_def conventional_def)

lemma orm_indexed_columns [simp]:
  "''deployment_id'' \<in> col_name ` set (tab_columns (orm_table_ddl Worker_table))"
  "''worker_id'' \<in> col_name ` set (tab_columns (orm_table_ddl Task_table))"
  "''status'' \<in> col_name ` set (tab_columns (orm_table_ddl Task_table))"
  "''created_at'' \<in> col_name ` set (tab_columns (orm_table_ddl Task_table))"
  "''content_sha256'' \<in> col_name ` set (tab_columns (orm_table_ddl CacheEntry_table))"
  "''expires_at'' \<in> col_name ` set (tab_columns (orm_table_ddl CacheEntry_table))"
  by (simp_all add: orm_table_ddl_def orm_tables mapped_column_def orm_column_ddl_def)

definition orm_index_list :: "sql_index list" where
  "orm_index_list =
    [\<lparr>ix_name = ''ix_workers_deployment_id'', ix_table = ''workers'', ix_columns = [''deployment_id'']\<rparr>,
     \<lparr>ix_name = ''ix_tasks_worker_id'', ix_table = ''tasks'', ix_columns = [''worker_id'']\<rparr>,
     \<lparr>ix_name = ''ix_tasks_status'', ix_table = ''tasks'', ix_columns = [''status'']\<rparr>,
     \<lparr>ix_name = ''ix_tasks_status_created'', ix_table = ''tasks'', ix_columns = [''status'', ''created_at'']\<rparr>,
     \<lparr>ix_name = ''ix_cache_entries_content_sha256'', ix_table = ''cache_entries'', ix_columns = [''content_sha256'']\<rparr>,
     \<lparr>ix_name = ''ix_cache_entries_expires_at'', ix_table = ''cache_entries'', ix_columns = [''expires_at'']\<rparr>]"

lemma create_all_result:
  assumes "conventional naming"
  shows "create_all naming Base_metadata empty_schema =
    Inr \<lparr>sc_tables = map orm_table_ddl Base_metadata, sc_indexes = orm_index_list\<rparr>"
  by (simp add: Base_metadata_def empty_schema_def create_table_def create_index_def chain_def has_table_def
      get_table_def orm_table_index_list [OF assms] orm_index_list_def)

text \<open>The bootstrap only acts once, and only on sqlite.\<close>

lemma create_indexes_tables: "create_indexes tbl ixs s = Inr s' \<Longrightarrow> sc_tables s' = sc_tables s"
  by (induction tbl ixs s rule: create_indexes.induct)
    (auto simp: create_index_def split: if_splits option.splits list.splits)

lemma create_table_tables: "create_table t s = Inr s' \<Longrightarrow> sc_tables s' = sc_tables s @ [t]"
  by (auto simp: create_table_def split: if_splits list.splits)

lemma create_all_tables:
  assumes "create_all naming ms s = Inr s'" and "distinct (map orm_tablename ms)"
  shows "sc_tables s' = sc_tables s @ map orm_table_ddl (filter (\<lambda>m. \<not> has_table (orm_tablename m) s) ms)"
  using assms
proof (induction naming ms s rule: create_all.induct)
  case (2 naming m ms s)
  show ?case
  proof (cases "has_table (orm_tablename m) s")
    case True
    with 2 show ?thesis by simp
  next
    case False
    with 2(3) obtain s1 s2 where s1: "create_table (orm_table_ddl m) s = Inr s1"
      and s2: "create_indexes (orm_tablename m) (orm_table_indexes naming m) s1 = Inr s2"
      and rest: "create_all naming ms s2 = Inr s'" by auto
    have s2_tables: "sc_tables s2 = sc_tables s @ [orm_table_ddl m]"
      using create_indexes_tables [OF s2] create_table_tables [OF s1] by simp
    then have "has_table (orm_tablename m') s2 \<longleftrightarrow> has_table (orm_tablename m') s" if "m' \<in> set ms" for m'
      using 2(4) that by (auto simp: has_table_def image_iff)
    then have "filter (\<lambda>m. \<not> has_table (orm_tablename m) s2) ms = filter (\<lambda>m. \<not> has_table (orm_tablename m) s) ms"
      by (intro filter_cong) auto
    with 2(2) [OF False rest] 2(4) s2_tables False show ?thesis by simp
  qed
qed simp

lemma ensure_sqlite_schema_tables:
  assumes "ensure_sqlite_schema naming url s = Inr s'" and "take 6 url = ''sqlite''" and "\<not> has_table ''workers'' s"
  shows "sc_tables s' = sc_tables s @ map orm_table_ddl (filter (\<lambda>m. \<not> has_table (orm_tablename m) s) Base_metadata)"
  using assms by (intro create_all_tables) (auto simp: ensure_sqlite_schema_def Base_metadata_def)

lemma ensure_sqlite_schema_idempotent:
  assumes "ensure_sqlite_schema naming url s = Inr s'"
  shows "ensure_sqlite_schema naming url s' = Inr s'"
  using assms ensure_sqlite_schema_tables [OF assms]
  by (auto simp: ensure_sqlite_schema_def Base_metadata_def has_table_def split: if_splits)

lemma nine_indexes: "{a, b, c, d, e, f, g, h, i} = {a, f, e, g, c, d} \<union> {b, h, i}"
  by auto

section \<open>Properties\<close>

text \<open>C20: The migration and the models describe the same tables. Running the migration on an empty
  database and creating all tables from the ORM metadata both succeed; the results have the same tables
  with the same columns in the same order (type and width, primary key, nullability, uniqueness,
  autoincrement) and the same foreign keys but for the constraint names, which only the migration
  gives. They differ in the server defaults: no column of the metadata's tables has one, so there the
  defaults are those the ORM fills in on the Python side, and the migration's server defaults are, column
  by column, exactly these Python-side defaults (the empty list of \<open>file_names\<close> apart, which has none).
  They differ in the indexes as well: the migration has every index of the models and three more.\<close>

theorem migration_matches_models:
  assumes "conventional naming"
  shows "\<exists>m d. upgrade empty_schema = Inr m \<and> create_all naming Base_metadata empty_schema = Inr d
    \<and> (\<forall>name. map_option table_shape (get_table name m) = map_option table_shape (get_table name d))
    \<and> (\<forall>t \<in> set (sc_tables d). \<forall>c \<in> set (tab_columns t). col_server_default c = None)
    \<and> map (\<lambda>k. map_option (\<lambda>t. map col_server_default (tab_columns t)) (get_table (orm_tablename k) m)) Base_metadata
        = map (\<lambda>k. Some (map orm_server_default (orm_columns k))) Base_metadata
    \<and> set (sc_indexes m) = set (sc_indexes d) \<union>
       {\<lparr>ix_name = ''ix_workers_desired_state'', ix_table = ''workers'', ix_columns = [''desired_state'']\<rparr>,
        \<lparr>ix_name = ''ix_scaling_events_worker_id'', ix_table = ''scaling_events'', ix_columns = [''worker_id'']\<rparr>,
        \<lparr>ix_name = ''ix_scaling_events_created_at'', ix_table = ''scaling_events'', ix_columns = [''created_at'']\<rparr>}
    \<and> set (sc_indexes d) \<inter>
       {\<lparr>ix_name = ''ix_workers_desired_state'', ix_table = ''workers'', ix_columns = [''desired_state'']\<rparr>,
        \<lparr>ix_name = ''ix_scaling_events_worker_id'', ix_table = ''scaling_events'', ix_columns = [''worker_id'']\<rparr>,
        \<lparr>ix_name = ''ix_scaling_events_created_at'', ix_table = ''scaling_events'', ix_columns = [''created_at'']\<rparr>} = {}"
proof -
  have "unrelated empty_schema" by (simp add: unrelated_def empty_schema_def)
  then have up: "upgrade empty_schema = Inr \<lparr>sc_tables = migration_tables, sc_indexes = migration_indexes\<rparr>"
    using upgrade_result by (simp add: empty_schema_def)
  have plain: "col_server_default c = None" if "c \<in> set (tab_columns (orm_table_ddl k))" for c k
    using that by (auto simp: orm_table_ddl_def orm_column_ddl_def)
  let ?m = "\<lparr>sc_tables = migration_tables, sc_indexes = migration_indexes\<rparr>"
  let ?d = "\<lparr>sc_tables = map orm_table_ddl Base_metadata, sc_indexes = orm_index_list\<rparr>"
  let ?more = "{\<lparr>ix_name = ''ix_workers_desired_state'', ix_table = ''workers'', ix_columns = [''desired_state'']\<rparr>,
        \<lparr>ix_name = ''ix_scaling_events_worker_id'', ix_table = ''scaling_events'', ix_columns = [''worker_id'']\<rparr>,
        \<lparr>ix_name = ''ix_scaling_events_created_at'', ix_table = ''scaling_events'', ix_columns = [''created_at'']\<rparr>}"
  have shapes: "\<forall>name. map_option table_shape (get_table name ?m) = map_option table_shape (get_table name ?d)"
    by (simp add: get_table_def migration_tables_def Base_metadata_def orm_shapes)
  have defaults: "\<forall>t \<in> set (sc_tables ?d). \<forall>c \<in> set (tab_columns t). col_server_default c = None"
    using plain by auto
  have python: "map (\<lambda>k. map_option (\<lambda>t. map col_server_default (tab_columns t)) (get_table (orm_tablename k) ?m)) Base_metadata
      = map (\<lambda>k. Some (map orm_server_default (orm_columns k))) Base_metadata"
    by (simp add: get_table_def migration_tables_def Base_metadata_def orm_defaults)
  have more: "set (sc_indexes ?m) = set (sc_indexes ?d) \<union> ?more"
    by (simp only: schema.simps migration_indexes_def orm_index_list_def list.set) (rule nine_indexes)
  have new: "set (sc_indexes ?d) \<inter> ?more = {}"
    by (simp add: orm_index_list_def)
  show ?thesis
    by (rule exI [of _ ?m], rule exI [of _ ?d])
      (intro conjI up create_all_result [OF assms] shapes defaults python more new)
qed

theorem migration_matches_models_witness:
  "\<exists>d. create_all (\<lambda>t c. ''ix_'' @ t @ ''_'' @ c) Base_metadata empty_schema = Inr d
    \<and> (\<forall>t \<in> set (sc_tables d). \<forall>c \<in> set (tab_columns t). col_server_default c = None)"
proof -
  have conv: "conventional (\<lambda>t c. ''ix_'' @ t @ ''_'' @ c)" by (simp add: conventional_def)
  from migration_matches_models [OF conv] show ?thesis
    by (elim exE conjE) (rule exI, rule conjI, assumption, assumption)
qed

text \<open>C24: The migration can be undone. On any database that has nothing to do with the gateway (none of
  its tables, none of its index names, no references into its tables) upgrading succeeds, and
  downgrading afterwards succeeds as well and gives back the database exactly as it was.\<close>

theorem migration_roundtrip:
  assumes "unrelated s"
  shows "\<exists>s'. upgrade s = Inr s' \<and> downgrade s' = Inr s"
  using upgrade_result [OF assms] downgrade_result [OF assms] by simp

theorem migration_roundtrip_witness:
  "\<exists>s'. upgrade \<lparr>sc_tables = [\<lparr>tab_name = ''alembic_version'', tab_columns = [], tab_foreign_keys = []\<rparr>], sc_indexes = []\<rparr> = Inr s'
     \<and> downgrade s' = Inr \<lparr>sc_tables = [\<lparr>tab_name = ''alembic_version'', tab_columns = [], tab_foreign_keys = []\<rparr>], sc_indexes = []\<rparr>"
  by (rule migration_roundtrip) (simp add: unrelated_def migration_tables_def)

end
