(* ===== verification/Database.thy ===== *)
theory Database
  imports Schema Settings Ingest
begin

text \<open>
  Database access: the process-wide engine and session factory of \<^verbatim>\<open>db/base.py\<close>, the sqlite bootstrap of
  \<^verbatim>\<open>db/bootstrap.py\<close> on that engine, the database URL the migrations of \<^verbatim>\<open>alembic/env.py\<close> run on, and the
  column widths the rows of the gateway have to respect. An engine is a connection pool with an identity;
  a ghost list records which pools were disposed. How SQLAlchemy renders a URL as a string
  (\<open>str(engine.url)\<close>) is the argument \<open>url_str\<close>.
\<close>

section \<open>Definitions\<close>

subsection \<open>Engine and session factory\<close>

record engine =
  eng_id :: nat
  eng_url :: string
  eng_connect_args :: "(string \<times> bool) list"
  eng_echo :: bool

record db_globals =
  g_engine :: "engine option"
  g_session_factory :: "engine option"
  g_created :: nat
  g_disposed :: "nat list"

datatype db_base_error = RuntimeError string | SettingsFailed settings_error

definition initial_db_globals :: db_globals where
  "initial_db_globals = \<lparr>g_engine = None, g_session_factory = None, g_created = 0, g_disposed = []\<rparr>"

definition build_engine :: "string \<Rightarrow> bool \<Rightarrow> nat \<Rightarrow> engine" where
  "build_engine url echo n =
    (let connect_args = (if take 6 url = ''sqlite'' then [(''check_same_thread'', False)] else []) in
     \<lparr>eng_id = n, eng_url = url, eng_connect_args = connect_args, eng_echo = echo\<rparr>)"

definition resolve_url ::
    "'v pydantic \<Rightarrow> 'v process_env \<Rightarrow> string option \<Rightarrow> config_globals \<Rightarrow> (db_base_error + string) \<times> config_globals" where
  "resolve_url co env requested c =
    (if truthy requested then (Inr (the requested), c)
     else (case get_settings co env c of
             (Inl e, c') \<Rightarrow> (Inl (SettingsFailed e), c')
           | (Inr s, c') \<Rightarrow> (Inr (database_url s), c')))"

definition init_engine ::
    "(string \<Rightarrow> string) \<Rightarrow> 'v pydantic \<Rightarrow> 'v process_env \<Rightarrow> string option \<Rightarrow> bool \<Rightarrow> config_globals \<Rightarrow> db_globals
      \<Rightarrow> (db_base_error + engine) \<times> config_globals \<times> db_globals" where
  "init_engine url_str co env requested echo c g =
    (case resolve_url co env requested c of
       (Inl e, c') \<Rightarrow> (Inl e, c', g)
     | (Inr url, c') \<Rightarrow>
         (case g_engine g of
            Some e \<Rightarrow>
              if url_str (eng_url e) = url then (Inr e, c', g)
              else (let e' = build_engine url echo (g_created g) in
                (Inr e', c', g\<lparr>g_engine := Some e', g_session_factory := Some e', g_created := Suc (g_created g)\<rparr>))
          | None \<Rightarrow>
              (let e' = build_engine url echo (g_created g) in
                (Inr e', c', g\<lparr>g_engine := Some e', g_session_factory := Some e', g_created := Suc (g_created g)\<rparr>))))"

definition get_engine :: "db_globals \<Rightarrow> db_base_error + engine" where
  "get_engine g =
    (case g_engine g of
       None \<Rightarrow> Inl (RuntimeError ''DB engine not initialized. Call init_engine() first.'')
     | Some e \<Rightarrow> Inr e)"

definition get_session_factory :: "db_globals \<Rightarrow> db_base_error + engine" where
  "get_session_factory g =
    (case g_session_factory g of
       None \<Rightarrow> Inl (RuntimeError ''DB session factory not initialized. Call init_engine() first.'')
     | Some f \<Rightarrow> Inr f)"

text \<open>A session is bound to the engine of its factory.\<close>

datatype session = AsyncSession engine

definition get_db_session :: "db_globals \<Rightarrow> db_base_error + session" where
  "get_db_session g =
    (case g_session_factory g of
       None \<Rightarrow> Inl (RuntimeError ''DB session factory not initialized. Call init_engine() first.'')
     | Some f \<Rightarrow> Inr (AsyncSession f))"

definition shutdown_engine :: "db_globals \<Rightarrow> db_globals" where
  "shutdown_engine g =
    (let g1 = (case g_engine g of None \<Rightarrow> g | Some e \<Rightarrow> g\<lparr>g_disposed := eng_id e # g_disposed g\<rparr>)
     in g1\<lparr>g_engine := None, g_session_factory := None\<rparr>)"

definition live_engines :: "db_globals \<Rightarrow> nat set" where
  "live_engines g = {n. n < g_created g \<and> n \<notin> set (g_disposed g)}"

text \<open>The sqlite bootstrap acts on the database of the current engine; \<open>databases\<close> maps a URL to the schema
  found there.\<close>

definition bootstrap ::
    "(string \<Rightarrow> string) \<Rightarrow> (string \<Rightarrow> string \<Rightarrow> string) \<Rightarrow> db_globals \<Rightarrow> (string \<Rightarrow> schema)
      \<Rightarrow> db_base_error + (ddl_error + (string \<Rightarrow> schema))" where
  "bootstrap url_str naming g databases =
    map_sum id (\<lambda>e. map_sum id (\<lambda>s. databases(eng_url e := s))
      (ensure_sqlite_schema naming (url_str (eng_url e)) (databases (eng_url e)))) (get_engine g)"

subsection \<open>The database of the migrations\<close>

text \<open>\<open>x_arguments\<close> are the \<open>-x key=value\<close> options of Alembic, \<open>environ\<close> the process environment.\<close>

definition resolve_database_url ::
    "'v pydantic \<Rightarrow> 'v process_env \<Rightarrow> (string \<rightharpoonup> string) \<Rightarrow> (string \<rightharpoonup> string) \<Rightarrow> config_globals
      \<Rightarrow> (db_base_error + string) \<times> config_globals" where
  "resolve_database_url co env x_arguments environ c =
    (if truthy (x_arguments ''dburl'') then (Inr (the (x_arguments ''dburl'')), c)
     else
       (let env_dburl = py_or (environ ''DATABASE_URL'') (environ ''MINERU_GATEWAY_DATABASE_URL'') in
        if truthy env_dburl then (Inr (the env_dburl), c)
        else resolve_url co env None c))"

text \<open>\<open>migrate\<close> is what Alembic runs: the functions \<open>upgrade\<close> or \<open>downgrade\<close> of the revisions asked for.\<close>

definition run_migrations_online ::
    "'v pydantic \<Rightarrow> 'v process_env \<Rightarrow> (string \<rightharpoonup> string) \<Rightarrow> (string \<rightharpoonup> string) \<Rightarrow> (schema \<Rightarrow> ddl_error + schema)
      \<Rightarrow> config_globals \<Rightarrow> (string \<Rightarrow> schema) \<Rightarrow> (db_base_error + (ddl_error + (string \<Rightarrow> schema))) \<times> config_globals" where
  "run_migrations_online co env x_arguments environ migrate c databases =
    (case resolve_database_url co env x_arguments environ c of
       (Inl e, c') \<Rightarrow> (Inl e, c')
     | (Inr dburl, c') \<Rightarrow> (Inr (map_sum id (\<lambda>s. databases(dburl := s)) (migrate (databases dburl))), c'))"

subsection \<open>Values in rows\<close>

text \<open>Identifiers are slices of the 32 hexadecimal digits of a random UUID.\<close>

definition SHORT_ID_LENGTH :: nat where "SHORT_ID_LENGTH = 12"

definition short_id :: "string \<Rightarrow> string" where
  "short_id uuid_hex = take SHORT_ID_LENGTH uuid_hex"

definition make_worker_id :: "string \<Rightarrow> string" where
  "make_worker_id uuid_hex = ''cloud-'' @ short_id uuid_hex"

text \<open>A \<open>datetime\<close> is a local time with the offset of its zone; a naive one has none. sqlite stores the local
  time only.\<close>

record py_datetime =
  dt_local :: time
  dt_offset :: "time option"

definition ensure_aware_utc :: "py_datetime \<Rightarrow> py_datetime" where
  "ensure_aware_utc dt = (if dt_offset dt = None then dt\<lparr>dt_offset := Some 0\<rparr> else dt)"

text \<open>\<open>None\<close>: comparing an aware with a naive \<open>datetime\<close> raises \<open>TypeError\<close>.\<close>

definition dt_less :: "py_datetime \<Rightarrow> py_datetime \<Rightarrow> bool option" where
  "dt_less a b =
    (case (dt_offset a, dt_offset b) of
       (Some x, Some y) \<Rightarrow> Some (dt_local a - x < dt_local b - y)
     | (None, None) \<Rightarrow> Some (dt_local a < dt_local b)
     | _ \<Rightarrow> None)"

definition now_utc :: "time \<Rightarrow> py_datetime" where
  "now_utc t = \<lparr>dt_local = t, dt_offset = Some 0\<rparr>"

definition sqlite_read :: "py_datetime \<Rightarrow> py_datetime" where
  "sqlite_read dt = dt\<lparr>dt_offset := None\<rparr>"

subsection \<open>Column widths\<close>

fun fits :: "sql_type \<Rightarrow> string \<Rightarrow> bool" where
  "fits (String n) v = (length v \<le> n)"
| "fits _ v = True"

definition column_fits :: "sql_table \<Rightarrow> string \<Rightarrow> string option \<Rightarrow> bool" where
  "column_fits t name v =
    (case v of
       None \<Rightarrow> True
     | Some x \<Rightarrow> list_all (\<lambda>c. col_name c = name \<longrightarrow> fits (col_type c) x) (tab_columns t))"

definition task_fits :: "task \<Rightarrow> bool" where
  "task_fits t \<longleftrightarrow> list_all (\<lambda>(name, v). column_fits migration_tasks name v)
    [(''task_id'', Some (t_task_id t)), (''worker_id'', t_worker_id t), (''upstream_task_id'', t_upstream_task_id t),
     (''upstream_base_url'', t_upstream_base_url t), (''backend'', Some (t_backend t)),
     (''parse_method'', Some (t_parse_method t)), (''source'', Some (t_source t)),
     (''status'', Some (status_text (t_status t))), (''payload_key'', t_payload_key t),
     (''result_key'', t_result_key t), (''result_format'', t_result_format t), (''cache_key'', t_cache_key t)]"

section \<open>Lemmas\<close>

inductive engine_reachable :: "(string \<Rightarrow> string) \<Rightarrow> 'v pydantic \<Rightarrow> db_globals \<Rightarrow> bool" for url_str co where
  start: "engine_reachable url_str co initial_db_globals"
| init: "engine_reachable url_str co g \<Longrightarrow> init_engine url_str co env requested echo c g = (r, c', g')
    \<Longrightarrow> engine_reachable url_str co g'"
| shutdown: "engine_reachable url_str co g \<Longrightarrow> engine_reachable url_str co (shutdown_engine g)"

definition engine_inv :: "db_globals \<Rightarrow> bool" where
  "engine_inv g \<longleftrightarrow> g_session_factory g = g_engine g
     \<and> set (g_disposed g) \<subseteq> {..<g_created g}
     \<and> (case g_engine g of None \<Rightarrow> True | Some e \<Rightarrow> eng_id e \<in> live_engines g)"

text \<open>One call of \<open>init_engine\<close>: nothing happens, the current engine is reused, or a new one replaces it.\<close>

lemma init_engine_cases:
  assumes "init_engine url_str co env requested echo c g = (r, c', g')"
  obtains (failed) err where "r = Inl err" and "g' = g"
  | (reused) e where "r = Inr e" and "g' = g" and "g_engine g = Some e"
      and "resolve_url co env requested c = (Inr (url_str (eng_url e)), c')"
  | (created) url where "r = Inr (build_engine url echo (g_created g))"
      and "resolve_url co env requested c = (Inr url, c')"
      and "g' = g\<lparr>g_engine := Some (build_engine url echo (g_created g)),
                 g_session_factory := Some (build_engine url echo (g_created g)), g_created := Suc (g_created g)\<rparr>"
      and "\<And>e. g_engine g = Some e \<Longrightarrow> url_str (eng_url e) \<noteq> url"
  using assms
  by (auto simp: init_engine_def Let_def split: prod.splits sum.splits option.splits if_splits)

lemma build_engine_simps [simp]: "eng_id (build_engine url echo n) = n" "eng_url (build_engine url echo n) = url"
  by (simp_all add: build_engine_def Let_def)

lemma engine_inv_init:
  assumes "engine_inv g" and "init_engine url_str co env requested echo c g = (r, c', g')"
  shows "engine_inv g'"
  using assms(2)
proof (cases rule: init_engine_cases)
  case (created url)
  have "g_created g \<notin> set (g_disposed g)" using assms(1) by (auto simp: engine_inv_def)
  with assms(1) created(3) show ?thesis by (auto simp: engine_inv_def live_engines_def)
qed (use assms(1) in auto)

lemma engine_inv_shutdown: "engine_inv g \<Longrightarrow> engine_inv (shutdown_engine g)"
  by (auto simp: engine_inv_def shutdown_engine_def live_engines_def Let_def split: option.splits)

lemma engine_inv_reachable: "engine_reachable url_str co g \<Longrightarrow> engine_inv g"
  by (induction rule: engine_reachable.induct)
    (auto simp: engine_inv_init engine_inv_shutdown, simp add: engine_inv_def initial_db_globals_def)

lemmas engine_getters = get_engine_def get_session_factory_def get_db_session_def

text \<open>The rendered form of a URL with a password is not the URL; then a second call with the same URL
  replaces the engine, and shutting down disposes only of the second pool.\<close>

lemma init_twice_leaks_pool:
  assumes "url_str url \<noteq> url" and "url \<noteq> []"
    and "init_engine url_str co env (Some url) echo c initial_db_globals = (r1, c1, g1)"
    and "init_engine url_str co env (Some url) echo c1 g1 = (r2, c2, g2)"
  shows "live_engines (shutdown_engine g2) = {0}"
  using assms
  by (auto simp: init_engine_def resolve_url_def initial_db_globals_def Let_def shutdown_engine_def live_engines_def)

lemma init_twice_same_engine:
  assumes "url_str url = url" and "url \<noteq> []"
    and "init_engine url_str co env (Some url) echo c initial_db_globals = (r1, c1, g1)"
    and "init_engine url_str co env (Some url) echo c1 g1 = (r2, c2, g2)"
  shows "r2 = r1 \<and> g2 = g1 \<and> live_engines (shutdown_engine g2) = {}"
  using assms
  by (auto simp: init_engine_def resolve_url_def initial_db_globals_def Let_def shutdown_engine_def live_engines_def)

text \<open>The migrations follow a variable the processes do not read.\<close>

lemma migrations_follow_DATABASE_URL:
  assumes "environ ''DATABASE_URL'' = Some u" and "u \<noteq> []" and "\<not> truthy (x_arguments ''dburl'')"
    and "cached_settings c = Some s"
  shows "fst (resolve_database_url co env x_arguments environ c) = Inr u"
    and "fst (resolve_url co env None c) = Inr (database_url s)"
  using assms by (simp_all add: resolve_database_url_def resolve_url_def get_settings_def py_or_def)

lemma worker_id_fits: "length uuid_hex = 32 \<Longrightarrow> column_fits migration_workers ''id'' (Some (make_worker_id uuid_hex))"
  by (simp add: make_worker_id_def short_id_def SHORT_ID_LENGTH_def column_fits_def migration_workers_def Column_def
      primary_key_column_def)

text \<open>A UTC time read back from sqlite compares with the clock as it was written, once it is made aware.\<close>

lemma sqlite_time_comparable:
  "dt_less (ensure_aware_utc (sqlite_read (now_utc t))) (now_utc t') = Some (t < t')"
  "dt_less (sqlite_read (now_utc t)) (now_utc t') = None"
  by (simp_all add: dt_less_def ensure_aware_utc_def sqlite_read_def now_utc_def)

text \<open>Every string column of a task row, spelt out.\<close>

lemma task_fits_iff:
  "task_fits t \<longleftrightarrow> length (t_task_id t) \<le> 64 \<and> length (t_backend t) \<le> 64 \<and> length (t_parse_method t) \<le> 16
     \<and> length (t_source t) \<le> 16
     \<and> (\<forall>x. t_worker_id t = Some x \<longrightarrow> length x \<le> 128) \<and> (\<forall>x. t_upstream_task_id t = Some x \<longrightarrow> length x \<le> 64)
     \<and> (\<forall>x. t_upstream_base_url t = Some x \<longrightarrow> length x \<le> 512) \<and> (\<forall>x. t_payload_key t = Some x \<longrightarrow> length x \<le> 512)
     \<and> (\<forall>x. t_result_key t = Some x \<longrightarrow> length x \<le> 512) \<and> (\<forall>x. t_result_format t = Some x \<longrightarrow> length x \<le> 16)
     \<and> (\<forall>x. t_cache_key t = Some x \<longrightarrow> length x \<le> 64)"
proof -
  have status: "length (status_text st) \<le> 16" for st by (cases st) simp_all
  show ?thesis
    by (auto simp: task_fits_def column_fits_def migration_tasks_def Column_def primary_key_column_def status
        split: option.splits)
qed

text \<open>The row of a new task fits the table exactly when the backend and the parse method, which come from
  the client's form unchecked, are short enough; a PostgreSQL database refuses any other row.\<close>

lemma queued_row_fits:
  assumes "create_queued_task now tid file_names backend parse_method options pkey source ck d = Inr (row, d')"
    and "length tid = 36" and "pkey \<in> {None, Some (payload_key tid)}" and "source \<in> {''tasks'', ''file_parse'', ''ocr''}"
    and "\<And>k. ck = Some k \<Longrightarrow> length k = 64"
  shows "task_fits row \<longleftrightarrow> length backend \<le> 64 \<and> length parse_method \<le> 16"
  using assms
  by (auto simp: create_queued_task_def new_task_def task_fits_iff payload_key_def PAYLOAD_PREFIX_def
      Let_def split: sum.splits)

section \<open>Properties\<close>

text \<open>C23: At every moment of a process, whatever sequence of initialisations and shutdowns led there, the
  engine and the session factory belong together: either both are missing and every accessor raises,
  or sessions are bound to the current engine and its pool has not been disposed of. A successful
  \<open>init_engine\<close> for a URL makes the engine it returns the current one; it reuses the current engine
  exactly when that engine's rendered URL is the requested one, and otherwise adds one pool, leaving the
  others as they are.\<close>

theorem engine_lifecycle:
  assumes "engine_reachable url_str co g"
    and "init_engine url_str co env (Some url) echo c g = (r, c', g')" and "url \<noteq> []"
  shows "(case g_engine g of
       None \<Rightarrow> (\<exists>m. get_engine g = Inl (RuntimeError m)) \<and> (\<exists>m. get_session_factory g = Inl (RuntimeError m))
          \<and> (\<exists>m. get_db_session g = Inl (RuntimeError m))
     | Some e \<Rightarrow> get_engine g = Inr e \<and> get_db_session g = Inr (AsyncSession e) \<and> eng_id e \<in> live_engines g)
    \<and> (\<exists>e. r = Inr e \<and> get_engine g' = Inr e \<and> get_db_session g' = Inr (AsyncSession e) \<and> eng_id e \<in> live_engines g'
        \<and> (if map_option (\<lambda>e. url_str (eng_url e)) (g_engine g) = Some url then g' = g
           else eng_url e = url \<and> eng_id e \<notin> live_engines g \<and> live_engines g' = insert (eng_id e) (live_engines g)))"
proof -
  have inv: "engine_inv g" and inv': "engine_inv g'"
    using assms engine_inv_reachable engine_inv_init by blast+
  have url: "resolve_url co env (Some url) c = (Inr url, c)" using assms(3) by (simp add: resolve_url_def)
  have now: "case g_engine g of
       None \<Rightarrow> (\<exists>m. get_engine g = Inl (RuntimeError m)) \<and> (\<exists>m. get_session_factory g = Inl (RuntimeError m))
          \<and> (\<exists>m. get_db_session g = Inl (RuntimeError m))
     | Some e \<Rightarrow> get_engine g = Inr e \<and> get_db_session g = Inr (AsyncSession e) \<and> eng_id e \<in> live_engines g"
    using inv by (auto simp: engine_inv_def engine_getters split: option.splits)
  from assms(2) have "\<exists>e. r = Inr e \<and> get_engine g' = Inr e \<and> get_db_session g' = Inr (AsyncSession e) \<and> eng_id e \<in> live_engines g'
        \<and> (if map_option (\<lambda>e. url_str (eng_url e)) (g_engine g) = Some url then g' = g
           else eng_url e = url \<and> eng_id e \<notin> live_engines g \<and> live_engines g' = insert (eng_id e) (live_engines g))"
  proof (cases rule: init_engine_cases)
    case (failed err)
    with assms(2) url show ?thesis
      by (auto simp: init_engine_def Let_def split: option.splits if_splits)
  next
    case (reused e)
    with inv url show ?thesis by (auto simp: engine_inv_def engine_getters)
  next
    case (created u)
    then have "g_created g \<notin> set (g_disposed g)" using inv by (auto simp: engine_inv_def)
    with created inv inv' url show ?thesis
      by (auto simp: engine_inv_def engine_getters live_engines_def less_Suc_eq)
  qed
  with now show ?thesis by blast
qed

definition example_no_sources :: "(string + int) process_env" where
  "example_no_sources = \<lparr>env_settings = [], read_yaml = (\<lambda>_. None)\<rparr>"

theorem engine_lifecycle_witness:
  "\<exists>r c' g'. init_engine id example_pydantic example_no_sources (Some ''sqlite://'') False initial_config initial_db_globals = (r, c', g')
     \<and> (\<exists>e. r = Inr e \<and> get_db_session g' = Inr (AsyncSession e) \<and> eng_url e = ''sqlite://'')"
proof -
  obtain r c' g' where run: "init_engine id example_pydantic example_no_sources (Some ''sqlite://'') False
      initial_config initial_db_globals = (r, c', g')" by (metis prod_cases3)
  from engine_lifecycle [OF engine_reachable.start run] run show ?thesis
    by (auto simp: initial_db_globals_def)
qed

end
