(* ===== verification/Telemetry.thy ===== *)
theory Telemetry
  imports Fleet
begin

text \<open>
  The metrics facade of \<^verbatim>\<open>observability/metrics.py\<close>, the OpenTelemetry start-up of
  \<^verbatim>\<open>observability/otel.py\<close> and \<^verbatim>\<open>observability/_setup.py\<close>, and the logging set-up of
  \<^verbatim>\<open>logging_config.py\<close>. The facade is a record of its attributes, the instruments it holds being a
  function from attribute names; what the instruments were told is the list \<open>m_recorded\<close>. Whether the
  OpenTelemetry packages can be imported is an argument, durations are a type variable \<open>'f\<close>.
\<close>

section \<open>Definitions\<close>

subsection \<open>Instruments\<close>

datatype instrument_slot =
    tasks_ingested | admission_rejected | tasks_dispatched | tasks_dispatch_failed | tasks_sla_expired
  | results_stored | results_store_failed | workers_health_checks | tasks_poll_duration
  | tasks_dispatch_duration | retention_deleted | workers_scaled | workers_cloud_errors
  | cache_sweep_removed | tasks_dispatch_requeued | tasks_stale_claims_recovered

datatype instrument = Counter string string | Histogram string string string

datatype 'f amount = Count int | Duration 'f

type_synonym attributes = "(string \<times> string) list"

record 'f metrics =
  m_enabled :: bool
  m_meter :: "string option"
  m_slots :: "instrument_slot \<Rightarrow> instrument option"
  m_recorded :: "(instrument \<times> 'f amount \<times> attributes) list"

definition Metrics_init :: "'f metrics" where
  "Metrics_init = \<lparr>m_enabled = False, m_meter = None, m_slots = (\<lambda>_. None), m_recorded = []\<rparr>"

fun created_instrument :: "instrument_slot \<Rightarrow> instrument" where
  "created_instrument tasks_ingested = Counter ''mineru.tasks.ingested'' ''Tasks accepted at ingest''"
| "created_instrument admission_rejected = Counter ''mineru.admission.rejected'' ''Requests rejected at admission gate''"
| "created_instrument tasks_dispatched = Counter ''mineru.tasks.dispatched'' ''Tasks dispatched to workers''"
| "created_instrument tasks_dispatch_failed = Counter ''mineru.tasks.dispatch.failed'' ''Task dispatch failures''"
| "created_instrument tasks_sla_expired = Counter ''mineru.tasks.sla_expired'' ''Tasks expired by SLA timer''"
| "created_instrument results_stored = Counter ''mineru.results.stored'' ''Task results stored to object store''"
| "created_instrument results_store_failed = Counter ''mineru.results.store_failed'' ''Failed result store attempts''"
| "created_instrument workers_health_checks = Counter ''mineru.workers.health_checks'' ''Worker health check outcomes''"
| "created_instrument tasks_poll_duration =
     Histogram ''mineru.tasks.poll.duration'' ''ms'' ''Sync route poll-until-terminal duration''"
| "created_instrument tasks_dispatch_duration =
     Histogram ''mineru.tasks.dispatch.duration'' ''ms'' ''Single task dispatch duration''"
| "created_instrument retention_deleted = Counter ''mineru.retention.deleted'' ''Objects/rows deleted by retention cleanup''"
| "created_instrument workers_scaled = Counter ''mineru.workers.scaled'' ''Worker autoscale and drain actions''"
| "created_instrument workers_cloud_errors =
     Counter ''mineru.workers.cloud_errors'' ''Cloud provider errors during worker reconcile''"
| "created_instrument cache_sweep_removed = Counter ''mineru.cache.sweep_removed'' ''Expired cache entries removed by sweeper''"
| "created_instrument tasks_dispatch_requeued =
     Counter ''mineru.tasks.dispatch.requeued'' ''Tasks returned to queue after dispatch exhaustion''"
| "created_instrument tasks_stale_claims_recovered =
     Counter ''mineru.tasks.stale_claims_recovered'' ''Stale dispatch claims recovered to queued''"

definition create_instruments :: "'f metrics \<Rightarrow> 'f metrics" where
  "create_instruments m = m\<lparr>m_slots := (\<lambda>slot. Some (created_instrument slot))\<rparr>"

text \<open>The instruments exist and \<open>_enabled\<close> is set only when every import succeeded.\<close>

definition init_metrics :: "bool \<Rightarrow> 'f metrics \<Rightarrow> 'f metrics" where
  "init_metrics sdk_installed m =
    (if sdk_installed
     then (create_instruments (m\<lparr>m_meter := Some ''mineru_gateway''\<rparr>))\<lparr>m_enabled := True\<rparr>
     else m)"

text \<open>\<open>self._x.add(...)\<close> and \<open>self._x.record(...)\<close>: on an attribute that is \<open>None\<close>, an \<open>AttributeError\<close>.\<close>

definition measure_slot :: "instrument_slot \<Rightarrow> 'f amount \<Rightarrow> attributes \<Rightarrow> 'f metrics \<Rightarrow> exc + 'f metrics" where
  "measure_slot slot a attrs m =
    (case m_slots m slot of
       None \<Rightarrow> Inl (OtherException None ''AttributeError'')
     | Some i \<Rightarrow> Inr (m\<lparr>m_recorded := m_recorded m @ [(i, a, attrs)]\<rparr>))"

definition when_enabled :: "('f metrics \<Rightarrow> exc + 'f metrics) \<Rightarrow> 'f metrics \<Rightarrow> exc + 'f metrics" where
  "when_enabled method m = (if \<not> m_enabled m then Inr m else method m)"

text \<open>How a call passes \<open>count\<close>; the wrapper only sees the keyword.\<close>

datatype count_arg = NoCount | PositionalCount int | KeywordCount int

fun keyword_count :: "count_arg \<Rightarrow> int" where
  "keyword_count (KeywordCount n) = n"
| "keyword_count _ = 1"

fun effective_count :: "count_arg \<Rightarrow> int" where
  "effective_count NoCount = 1"
| "effective_count (PositionalCount n) = n"
| "effective_count (KeywordCount n) = n"

definition when_enabled_with_count ::
    "(int \<Rightarrow> 'f metrics \<Rightarrow> exc + 'f metrics) \<Rightarrow> count_arg \<Rightarrow> 'f metrics \<Rightarrow> exc + 'f metrics" where
  "when_enabled_with_count method c m =
    (if \<not> m_enabled m \<or> keyword_count c \<le> 0 then Inr m else method (effective_count c) m)"

definition bool_text :: "bool \<Rightarrow> string" where
  "bool_text b = (if b then ''true'' else ''false'')"

subsection \<open>The record methods\<close>

definition record_task_ingested :: "string \<Rightarrow> bool \<Rightarrow> string \<Rightarrow> 'f metrics \<Rightarrow> exc + 'f metrics" where
  "record_task_ingested source cache_hit backend = when_enabled (measure_slot tasks_ingested (Count 1)
     [(''source'', source), (''cache_hit'', bool_text cache_hit), (''backend'', backend)])"

definition record_admission_rejected :: "string \<Rightarrow> 'f metrics \<Rightarrow> exc + 'f metrics" where
  "record_admission_rejected reason =
     when_enabled (measure_slot admission_rejected (Count 1) [(''reason'', reason)])"

definition record_task_dispatched :: "string \<Rightarrow> string \<Rightarrow> 'f metrics \<Rightarrow> exc + 'f metrics" where
  "record_task_dispatched worker backend =
     when_enabled (measure_slot tasks_dispatched (Count 1) [(''worker_id'', worker), (''backend'', backend)])"

definition record_dispatch_failed :: "string \<Rightarrow> 'f metrics \<Rightarrow> exc + 'f metrics" where
  "record_dispatch_failed error_class =
     when_enabled (measure_slot tasks_dispatch_failed (Count 1) [(''error_class'', error_class)])"

definition record_dispatch_duration :: "'f \<Rightarrow> string \<Rightarrow> 'f metrics \<Rightarrow> exc + 'f metrics" where
  "record_dispatch_duration duration_ms outcome =
     when_enabled (measure_slot tasks_dispatch_duration (Duration duration_ms) [(''outcome'', outcome)])"

definition record_sla_expired :: "count_arg \<Rightarrow> 'f metrics \<Rightarrow> exc + 'f metrics" where
  "record_sla_expired = when_enabled_with_count (\<lambda>n. measure_slot tasks_sla_expired (Count n) [])"

definition record_result_stored :: "count_arg \<Rightarrow> 'f metrics \<Rightarrow> exc + 'f metrics" where
  "record_result_stored = when_enabled_with_count (\<lambda>n. measure_slot results_stored (Count n) [])"

definition record_result_store_failed :: "count_arg \<Rightarrow> 'f metrics \<Rightarrow> exc + 'f metrics" where
  "record_result_store_failed = when_enabled_with_count (\<lambda>n. measure_slot results_store_failed (Count n) [])"

definition record_health_check :: "string \<Rightarrow> 'f metrics \<Rightarrow> exc + 'f metrics" where
  "record_health_check outcome =
     when_enabled (measure_slot workers_health_checks (Count 1) [(''outcome'', outcome)])"

definition record_poll_duration :: "string \<Rightarrow> string \<Rightarrow> 'f \<Rightarrow> 'f metrics \<Rightarrow> exc + 'f metrics" where
  "record_poll_duration route outcome duration_ms = when_enabled
     (measure_slot tasks_poll_duration (Duration duration_ms) [(''route'', route), (''outcome'', outcome)])"

definition record_retention_deleted :: "string \<Rightarrow> count_arg \<Rightarrow> 'f metrics \<Rightarrow> exc + 'f metrics" where
  "record_retention_deleted kind =
     when_enabled_with_count (\<lambda>n. measure_slot retention_deleted (Count n) [(''kind'', kind)])"

definition record_worker_scaled :: "string \<Rightarrow> 'f metrics \<Rightarrow> exc + 'f metrics" where
  "record_worker_scaled action = when_enabled (measure_slot workers_scaled (Count 1) [(''action'', action)])"

definition record_cloud_error :: "string \<Rightarrow> bool \<Rightarrow> 'f metrics \<Rightarrow> exc + 'f metrics" where
  "record_cloud_error category retryable = when_enabled (measure_slot workers_cloud_errors (Count 1)
     [(''category'', category), (''retryable'', bool_text retryable)])"

definition record_cache_sweep_removed :: "count_arg \<Rightarrow> 'f metrics \<Rightarrow> exc + 'f metrics" where
  "record_cache_sweep_removed = when_enabled_with_count (\<lambda>n. measure_slot cache_sweep_removed (Count n) [])"

definition record_dispatch_requeued :: "count_arg \<Rightarrow> 'f metrics \<Rightarrow> exc + 'f metrics" where
  "record_dispatch_requeued = when_enabled_with_count (\<lambda>n. measure_slot tasks_dispatch_requeued (Count n) [])"

definition record_stale_claims_recovered :: "count_arg \<Rightarrow> 'f metrics \<Rightarrow> exc + 'f metrics" where
  "record_stale_claims_recovered =
     when_enabled_with_count (\<lambda>n. measure_slot tasks_stale_claims_recovered (Count n) [])"

subsection \<open>OpenTelemetry start-up\<close>

record 'f otel_state =
  ot_metrics :: "'f metrics"
  ot_exporter :: "(string \<times> string \<times> int) option"
  ot_tracer :: "(string \<times> string) option"
  ot_fastapi :: bool
  ot_httpx :: bool
  ot_warnings :: "string list"

definition OTEL_MISSING_WARNING :: string where
  "OTEL_MISSING_WARNING =
     ''OTel enabled but opentelemetry packages not installed. Install with: uv sync --extra otel''"

definition log_otel_unavailable :: "'f otel_state \<Rightarrow> 'f otel_state" where
  "log_otel_unavailable o1 = o1\<lparr>ot_warnings := ot_warnings o1 @ [OTEL_MISSING_WARNING]\<rparr>"

text \<open>\<open>sdk_metrics\<close> and \<open>sdk_traces\<close>: the imports of the metric and of the trace packages succeed.\<close>

definition init_otel ::
    "bool \<Rightarrow> bool \<Rightarrow> gateway_settings \<Rightarrow> bool \<Rightarrow> string option \<Rightarrow> 'f otel_state \<Rightarrow> 'f otel_state" where
  "init_otel sdk_metrics sdk_traces cfg has_app name o0 =
    (if \<not> otel_enabled (otel cfg) then o0
     else
       (case otel_endpoint (otel cfg) of
          None \<Rightarrow> o0\<lparr>ot_warnings := ot_warnings o0 @ [''OTel enabled but no endpoint configured'']\<rparr>
        | Some endpoint \<Rightarrow>
            if endpoint = []
            then o0\<lparr>ot_warnings := ot_warnings o0 @ [''OTel enabled but no endpoint configured'']\<rparr>
            else
              (let resolved_name = text_or name (service_name (otel cfg));
                   o1 = (if sdk_metrics
                         then o0\<lparr>ot_metrics := init_metrics True (ot_metrics o0),
                           ot_exporter := Some (resolved_name, endpoint, metrics_export_interval_seconds (otel cfg) * 1000)\<rparr>
                         else log_otel_unavailable o0)
               in if sdk_traces
                  then o1\<lparr>ot_tracer := Some (resolved_name, endpoint),
                         ot_fastapi := ot_fastapi o1 \<or> has_app, ot_httpx := True\<rparr>
                  else log_otel_unavailable o1)))"

subsection \<open>Logging\<close>

definition DEBUG :: int where "DEBUG = 10"
definition INFO :: int where "INFO = 20"
definition WARNING :: int where "WARNING = 30"
definition ERROR :: int where "ERROR = 40"

definition py_upper_char :: "char \<Rightarrow> char" where
  "py_upper_char c = (let n = (of_char c :: nat) in
     if (97 \<le> n \<and> n \<le> 122) \<or> (224 \<le> n \<and> n \<le> 254 \<and> n \<noteq> 247) then char_of (n - 32) else c)"

text \<open>\<open>logging.getLevelName\<close> of a string: a level for the registered names, otherwise a string.\<close>

definition getLevelName :: "string \<Rightarrow> int option" where
  "getLevelName = map_of [(''CRITICAL'', 50), (''FATAL'', 50), (''ERROR'', ERROR), (''WARN'', WARNING),
     (''WARNING'', WARNING), (''INFO'', INFO), (''DEBUG'', DEBUG), (''NOTSET'', 0)]"

datatype level_arg = LevelName string | LevelNumber int

definition resolve_log_level :: "level_arg \<Rightarrow> exc + int" where
  "resolve_log_level level =
    (case level of
       LevelNumber n \<Rightarrow> Inr n
     | LevelName s \<Rightarrow>
         (case getLevelName (map py_upper_char s) of
            Some n \<Rightarrow> Inr n
          | None \<Rightarrow> Inl (OtherException None (''Invalid log level: '' @ repr_string s))))"

record log_state =
  root_level :: int
  logger_levels :: "string \<rightharpoonup> int"

definition QUIET_LOGGERS :: "string list" where
  "QUIET_LOGGERS = [''httpx'', ''httpcore'', ''botocore'', ''aiobotocore'']"

definition apply_quiet_loggers :: "int \<Rightarrow> log_state \<Rightarrow> log_state" where
  "apply_quiet_loggers level l =
     fold (\<lambda>name l. l\<lparr>logger_levels := (logger_levels l)(name \<mapsto> max level WARNING)\<rparr>) QUIET_LOGGERS l"

definition configure_logging :: "level_arg \<Rightarrow> log_state \<Rightarrow> exc + int \<times> log_state" where
  "configure_logging level l =
    (case resolve_log_level level of
       Inl e \<Rightarrow> Inl e
     | Inr numeric \<Rightarrow> Inr (numeric, apply_quiet_loggers numeric (l\<lparr>root_level := numeric\<rparr>)))"

subsection \<open>Sequences of calls\<close>

text \<open>One constructor per public method of the facade.\<close>

datatype 'f metric_call =
    TaskIngested string bool string | AdmissionRejected string | TaskDispatched string string
  | DispatchFailed string | DispatchDuration 'f string | SlaExpired count_arg | ResultStored count_arg
  | ResultStoreFailed count_arg | HealthCheck string | PollDuration string string 'f
  | RetentionDeleted string count_arg | WorkerScaled string | CloudErrorSeen string bool
  | CacheSweepRemoved count_arg | DispatchRequeued count_arg | StaleClaimsRecovered count_arg

fun run_call :: "'f metric_call \<Rightarrow> 'f metrics \<Rightarrow> exc + 'f metrics" where
  "run_call (TaskIngested s h b) m = record_task_ingested s h b m"
| "run_call (AdmissionRejected r) m = record_admission_rejected r m"
| "run_call (TaskDispatched w b) m = record_task_dispatched w b m"
| "run_call (DispatchFailed e) m = record_dispatch_failed e m"
| "run_call (DispatchDuration f oc) m = record_dispatch_duration f oc m"
| "run_call (SlaExpired c) m = record_sla_expired c m"
| "run_call (ResultStored c) m = record_result_stored c m"
| "run_call (ResultStoreFailed c) m = record_result_store_failed c m"
| "run_call (HealthCheck oc) m = record_health_check oc m"
| "run_call (PollDuration r oc f) m = record_poll_duration r oc f m"
| "run_call (RetentionDeleted k c) m = record_retention_deleted k c m"
| "run_call (WorkerScaled a) m = record_worker_scaled a m"
| "run_call (CloudErrorSeen c r) m = record_cloud_error c r m"
| "run_call (CacheSweepRemoved c) m = record_cache_sweep_removed c m"
| "run_call (DispatchRequeued c) m = record_dispatch_requeued c m"
| "run_call (StaleClaimsRecovered c) m = record_stale_claims_recovered c m"

fun run_calls :: "'f metric_call list \<Rightarrow> 'f metrics \<Rightarrow> exc + 'f metrics" where
  "run_calls [] m = Inr m"
| "run_calls (c # cs) m = chain (run_call c m) (run_calls cs)"

text \<open>What one call means: the measurement it stands for, or none when the count it names is not positive.\<close>

fun meaning :: "'f metric_call \<Rightarrow> (instrument_slot \<times> 'f amount \<times> attributes) option" where
  "meaning (TaskIngested s h b) =
     Some (tasks_ingested, Count 1, [(''source'', s), (''cache_hit'', bool_text h), (''backend'', b)])"
| "meaning (AdmissionRejected r) = Some (admission_rejected, Count 1, [(''reason'', r)])"
| "meaning (TaskDispatched w b) = Some (tasks_dispatched, Count 1, [(''worker_id'', w), (''backend'', b)])"
| "meaning (DispatchFailed e) = Some (tasks_dispatch_failed, Count 1, [(''error_class'', e)])"
| "meaning (DispatchDuration f oc) = Some (tasks_dispatch_duration, Duration f, [(''outcome'', oc)])"
| "meaning (SlaExpired c) =
     (if keyword_count c \<le> 0 then None else Some (tasks_sla_expired, Count (effective_count c), []))"
| "meaning (ResultStored c) =
     (if keyword_count c \<le> 0 then None else Some (results_stored, Count (effective_count c), []))"
| "meaning (ResultStoreFailed c) =
     (if keyword_count c \<le> 0 then None else Some (results_store_failed, Count (effective_count c), []))"
| "meaning (HealthCheck oc) = Some (workers_health_checks, Count 1, [(''outcome'', oc)])"
| "meaning (PollDuration r oc f) = Some (tasks_poll_duration, Duration f, [(''route'', r), (''outcome'', oc)])"
| "meaning (RetentionDeleted k c) =
     (if keyword_count c \<le> 0 then None else Some (retention_deleted, Count (effective_count c), [(''kind'', k)]))"
| "meaning (WorkerScaled a) = Some (workers_scaled, Count 1, [(''action'', a)])"
| "meaning (CloudErrorSeen c r) =
     Some (workers_cloud_errors, Count 1, [(''category'', c), (''retryable'', bool_text r)])"
| "meaning (CacheSweepRemoved c) =
     (if keyword_count c \<le> 0 then None else Some (cache_sweep_removed, Count (effective_count c), []))"
| "meaning (DispatchRequeued c) =
     (if keyword_count c \<le> 0 then None else Some (tasks_dispatch_requeued, Count (effective_count c), []))"
| "meaning (StaleClaimsRecovered c) =
     (if keyword_count c \<le> 0 then None else Some (tasks_stale_claims_recovered, Count (effective_count c), []))"

definition exported :: "instrument_slot \<times> 'f amount \<times> attributes \<Rightarrow> instrument \<times> 'f amount \<times> attributes" where
  "exported e = (case e of (slot, a, attrs) \<Rightarrow> (created_instrument slot, a, attrs))"

section \<open>Lemmas\<close>

text \<open>The invariant of the facade: once enabled, every attribute holds its instrument.\<close>

definition metrics_wf :: "'f metrics \<Rightarrow> bool" where
  "metrics_wf m \<longleftrightarrow> (m_enabled m \<longrightarrow> m_slots m = (\<lambda>slot. Some (created_instrument slot)))"

lemma metrics_wf_init: "metrics_wf Metrics_init" "metrics_wf m \<Longrightarrow> metrics_wf (init_metrics sdk m)"
  by (auto simp: metrics_wf_def Metrics_init_def init_metrics_def create_instruments_def)

lemmas record_defs =
  record_task_ingested_def record_admission_rejected_def record_task_dispatched_def record_dispatch_failed_def
  record_dispatch_duration_def record_sla_expired_def record_result_stored_def record_result_store_failed_def
  record_health_check_def record_poll_duration_def record_retention_deleted_def record_worker_scaled_def
  record_cloud_error_def record_cache_sweep_removed_def record_dispatch_requeued_def
  record_stale_claims_recovered_def

lemma when_enabled_disabled:
  "\<not> m_enabled m \<Longrightarrow> when_enabled f m = Inr m" "\<not> m_enabled m \<Longrightarrow> when_enabled_with_count h c m = Inr m"
  by (simp_all add: when_enabled_def when_enabled_with_count_def)

lemma when_enabled_enabled:
  assumes "metrics_wf m" and "m_enabled m"
  shows "when_enabled (measure_slot slot a attrs) m =
      Inr (m\<lparr>m_recorded := m_recorded m @ [exported (slot, a, attrs)]\<rparr>)"
    and "when_enabled_with_count (\<lambda>n. measure_slot slot (Count n) attrs) c m =
      Inr (if keyword_count c \<le> 0 then m
           else m\<lparr>m_recorded := m_recorded m @ [exported (slot, Count (effective_count c), attrs)]\<rparr>)"
  using assms by (simp_all add: when_enabled_def when_enabled_with_count_def measure_slot_def metrics_wf_def exported_def)

lemma run_call_disabled: "\<not> m_enabled m \<Longrightarrow> run_call c m = Inr m"
  by (cases c) (simp_all add: record_defs when_enabled_disabled)

lemma run_call_enabled:
  assumes "metrics_wf m" and "m_enabled m"
  shows "run_call c m = Inr (case meaning c of None \<Rightarrow> m | Some e \<Rightarrow> m\<lparr>m_recorded := m_recorded m @ [exported e]\<rparr>)"
  by (cases c) (simp_all add: record_defs when_enabled_enabled [OF assms])

lemma run_calls_result:
  assumes "metrics_wf m"
  shows "run_calls cs m = Inr (if m_enabled m
    then m\<lparr>m_recorded := m_recorded m @ map exported (List.map_filter meaning cs)\<rparr> else m)"
  using assms
proof (induction cs arbitrary: m)
  case Nil
  then show ?case by (simp add: List.map_filter_simps)
next
  case (Cons c cs)
  show ?case
  proof (cases "m_enabled m")
    case True
    have wf: "metrics_wf (m\<lparr>m_recorded := r\<rparr>)" for r using Cons.prems by (simp add: metrics_wf_def)
    show ?thesis
      using run_call_enabled [OF Cons.prems True, of c] Cons.IH [OF wf] Cons.IH [OF Cons.prems] True
      by (cases "meaning c") (simp_all add: chain_def List.map_filter_simps)
  next
    case False
    then show ?thesis using Cons by (simp add: run_call_disabled chain_def)
  qed
qed

lemma init_otel_metrics:
  "m_enabled (ot_metrics (init_otel sdk_metrics sdk_traces cfg has_app name o0)) \<longleftrightarrow>
     m_enabled (ot_metrics o0) \<or> sdk_metrics \<and> otel_enabled (otel cfg) \<and> truthy (otel_endpoint (otel cfg))"
  by (auto simp: init_otel_def init_metrics_def log_otel_unavailable_def Let_def truthy_Some create_instruments_def
      split: option.splits)

lemma init_otel_wf:
  "metrics_wf (ot_metrics o0) \<Longrightarrow> metrics_wf (ot_metrics (init_otel sdk_metrics sdk_traces cfg has_app name o0))"
  by (auto simp: init_otel_def log_otel_unavailable_def Let_def metrics_wf_init split: option.splits)

text \<open>The loggers of the HTTP and AWS libraries never log below \<open>WARNING\<close>, at level \<open>DEBUG\<close> either.\<close>

lemma apply_quiet_loggers_levels:
  "name \<in> set QUIET_LOGGERS \<Longrightarrow> logger_levels (apply_quiet_loggers level l) name = Some (max level WARNING)"
  by (auto simp: apply_quiet_loggers_def QUIET_LOGGERS_def)

lemma debug_keeps_libraries_quiet:
  assumes "configure_logging (LevelName ''debug'') l = Inr (n, l')" and "name \<in> set QUIET_LOGGERS"
  shows "root_level l' = DEBUG \<and> logger_levels l' name = Some WARNING"
proof -
  have "resolve_log_level (LevelName ''debug'') = Inr DEBUG" by code_simp
  with assms(1) have l': "l' = apply_quiet_loggers DEBUG (l\<lparr>root_level := DEBUG\<rparr>)"
    by (simp add: configure_logging_def)
  have "root_level (apply_quiet_loggers level k) = root_level k" for level k
    by (simp add: apply_quiet_loggers_def QUIET_LOGGERS_def)
  with l' apply_quiet_loggers_levels [OF assms(2)] show ?thesis by (simp add: DEBUG_def WARNING_def)
qed

section \<open>Properties\<close>

text \<open>The metrics facade never disturbs its callers and counts exactly what it is told. Starting from
  a fresh facade, whether or not OpenTelemetry could be set up, any sequence of record calls returns
  without an exception. When the facade was not enabled nothing is recorded; when it was, the recorded
  measurements are those the calls mean, in order and on the instrument created for them, a call
  that names a count below one by keyword meaning nothing.\<close>

lemma metrics_facade:
  "\<exists>m. run_calls cs (ot_metrics (init_otel sdk_metrics sdk_traces cfg has_app name (o0\<lparr>ot_metrics := Metrics_init\<rparr>))) = Inr m
     \<and> m_recorded m = (if sdk_metrics \<and> otel_enabled (otel cfg) \<and> truthy (otel_endpoint (otel cfg))
                       then map exported (List.map_filter meaning cs) else [])"
proof -
  let ?o = "init_otel sdk_metrics sdk_traces cfg has_app name (o0\<lparr>ot_metrics := Metrics_init\<rparr>)"
  have "metrics_wf (ot_metrics ?o)" by (rule init_otel_wf) (simp add: metrics_wf_init)
  moreover have "m_recorded (ot_metrics ?o) = []"
    by (auto simp: init_otel_def init_metrics_def create_instruments_def log_otel_unavailable_def Metrics_init_def
        Let_def split: option.splits)
  ultimately show ?thesis
    using init_otel_metrics [of sdk_metrics sdk_traces cfg has_app name "o0\<lparr>ot_metrics := Metrics_init\<rparr>"]
    by (auto simp: run_calls_result Metrics_init_def)
qed

end
