(* ===== verification/App.thy ===== *)
theory App
  imports Ec2 Telemetry Database
begin

text \<open>
  The two processes put together: the command lines of \<^verbatim>\<open>cli.py\<close>, \<^verbatim>\<open>gateway/main.py\<close> and
  \<^verbatim>\<open>scheduler/main.py\<close>, the start-up and shutdown of \<^verbatim>\<open>gateway/app.py\<close> with its engine, schema and
  telemetry, and the HTTP application: routes, \<^verbatim>\<open>attribution.py\<close>, \<^verbatim>\<open>gateway/logging_middleware.py\<close> and
  \<^verbatim>\<open>gateway/auth.py\<close> as middleware around them. A handler maps a request to a response or an exception
  and the log lines it writes. In which order FastAPI nests the middleware it is given is the argument
  \<open>wrap\<close> with the law \<open>middleware_order\<close>.
\<close>

section \<open>Definitions\<close>

subsection \<open>Requests, responses and middleware\<close>

record http_request =
  rq_method :: string
  rq_path :: string
  rq_client :: "string option"
  rq_headers :: "(string \<times> string) list"

text \<open>Header names are case-insensitive: they are kept in lower case.\<close>

record http_response =
  rs_response :: response
  rs_headers :: "(string \<times> string) list"

definition get_header :: "string \<Rightarrow> (string \<times> string) list \<Rightarrow> string option" where
  "get_header name hs = map_of hs (py_lower name)"

definition set_header :: "string \<Rightarrow> string \<Rightarrow> http_response \<Rightarrow> http_response" where
  "set_header name v r = r\<lparr>rs_headers := dict_set (py_lower name) v (rs_headers r)\<rparr>"

fun status_code :: "response \<Rightarrow> int" where
  "status_code (JSONResponse n _) = n"
| "status_code (BytesResponse _ _) = 200"

datatype log_line =
    RequestLine int string string string
  | ResponseLine int string string int
  | FailureLine int string string

type_synonym handler = "http_request \<Rightarrow> (exc + http_response) \<times> log_line list"
type_synonym middleware = "handler \<Rightarrow> handler"

subsection \<open>Attribution\<close>

definition UPSTREAM_NAME :: string where "UPSTREAM_NAME = ''MinerU''"
definition UPSTREAM_HOMEPAGE :: string where "UPSTREAM_HOMEPAGE = ''https://github.com/opendatalab/MinerU''"
definition POWERED_BY_HEADER :: string where "POWERED_BY_HEADER = ''X-Powered-By''"
definition VERSION_HEADER_NAME :: string where "VERSION_HEADER_NAME = ''MinerU-Version''"

definition upstream_info :: "string \<Rightarrow> json" where
  "upstream_info mineru_version = JObj [(''name'', JStr UPSTREAM_NAME), (''version'', JStr mineru_version),
     (''homepage'', JStr UPSTREAM_HOMEPAGE)]"

definition attribution_middleware :: "string \<Rightarrow> middleware" where
  "attribution_middleware mineru_version call_next req =
    (case call_next req of
       (Inl e, ls) \<Rightarrow> (Inl e, ls)
     | (Inr r, ls) \<Rightarrow>
         (Inr (set_header VERSION_HEADER_NAME mineru_version (set_header POWERED_BY_HEADER UPSTREAM_NAME r)), ls))"

subsection \<open>Request log\<close>

definition response_level :: "string \<Rightarrow> int \<Rightarrow> int" where
  "response_level verb status =
    (if status \<ge> 500 then ERROR
     else if status \<ge> 400 then WARNING
     else if verb \<in> {''POST'', ''PUT'', ''PATCH'', ''DELETE''} then INFO
     else DEBUG)"

definition logging_dispatch :: middleware where
  "logging_dispatch call_next req =
    (let verb = rq_method req; path = rq_path req;
         client = (case rq_client req of Some h \<Rightarrow> h | None \<Rightarrow> ''-'');
         arrived = RequestLine DEBUG verb path client
     in case call_next req of
          (Inl e, ls) \<Rightarrow> (Inl e, arrived # ls @ [FailureLine ERROR verb path])
        | (Inr r, ls) \<Rightarrow>
            (let status = status_code (rs_response r) in
             (Inr r, arrived # ls @ [ResponseLine (response_level verb status) verb path status])))"

subsection \<open>Authentication as a middleware\<close>

definition key_middleware :: "gateway_settings \<Rightarrow> middleware" where
  "key_middleware cfg call_next req =
    (case auth_dispatch cfg (rq_path req) (get_header ''x-api-key'' (rq_headers req))
            (get_header ''authorization'' (rq_headers req)) of
       Inl e \<Rightarrow> (Inl e, [])
     | Inr None \<Rightarrow> call_next req
     | Inr (Some resp) \<Rightarrow> (Inr \<lparr>rs_response = resp, rs_headers = []\<rparr>, []))"

subsection \<open>Routes\<close>

definition answer :: "response \<Rightarrow> (exc + http_response) \<times> log_line list" where
  "answer r = (Inr \<lparr>rs_response = r, rs_headers = []\<rparr>, [])"

definition health :: "string \<Rightarrow> string \<Rightarrow> response" where
  "health version mineru_version =
     JSONResponse 200 (JObj [(''status'', JStr ''ok''), (''version'', JStr version), (''upstream'', upstream_info mineru_version)])"

definition root :: "string \<Rightarrow> string \<Rightarrow> response" where
  "root version mineru_version = JSONResponse 200 (JObj [(''service'', JStr ''mineru-gateway''), (''version'', JStr version),
     (''description'', JStr ''A gateway built on top of MinerU.''), (''upstream'', upstream_info mineru_version)])"

text \<open>Routes are tried in the order of their registration: the three routers, then the pages of
  \<open>_register_routes\<close>. A router answers \<open>None\<close> for a request it does not match.\<close>

type_synonym router = "http_request \<Rightarrow> ((exc + http_response) \<times> log_line list) option"

definition page :: "string \<Rightarrow> response \<Rightarrow> router" where
  "page path r req = (if rq_method req = ''GET'' \<and> rq_path req = path then Some (answer r) else None)"

fun route :: "router list \<Rightarrow> handler \<Rightarrow> handler" where
  "route [] not_found req = not_found req"
| "route (r # rs) not_found req = (case r req of Some res \<Rightarrow> res | None \<Rightarrow> route rs not_found req)"

definition register_routes ::
    "string \<Rightarrow> string \<Rightarrow> router \<Rightarrow> router \<Rightarrow> router \<Rightarrow> bool \<times> string \<Rightarrow> router list" where
  "register_routes version mineru_version tasks_router ocr_router admin_router readiness =
     [tasks_router, ocr_router, admin_router, page ''/health'' (health version mineru_version),
      page ''/ready'' (ready readiness), page ''/'' (root version mineru_version)]"

subsection \<open>The application\<close>

record fastapi_app =
  app_settings :: gateway_settings
  app_middleware :: "middleware list"

definition add_middleware :: "middleware \<Rightarrow> fastapi_app \<Rightarrow> fastapi_app" where
  "add_middleware m app = app\<lparr>app_middleware := app_middleware app @ [m]\<rparr>"

definition install_attribution :: "string \<Rightarrow> fastapi_app \<Rightarrow> fastapi_app" where
  "install_attribution mineru_version app = add_middleware (attribution_middleware mineru_version) app"

definition create_app :: "string \<Rightarrow> gateway_settings \<Rightarrow> fastapi_app" where
  "create_app mineru_version resolved =
    (let app = \<lparr>app_settings = resolved, app_middleware = []\<rparr>;
         app = (if attribution_enabled (attribution resolved) then install_attribution mineru_version app else app)
     in add_middleware (key_middleware resolved) (add_middleware logging_dispatch app))"

text \<open>FastAPI: every call of \<open>add_middleware\<close> wraps what was there before, so the last one added sees a
  request first.\<close>

definition middleware_order :: "(middleware list \<Rightarrow> middleware) \<Rightarrow> bool" where
  "middleware_order wrap \<longleftrightarrow>
     (\<forall>h. wrap [] h = h) \<and> (\<forall>ms m h. wrap (ms @ [m]) h = m (wrap ms h))"

definition serve :: "(middleware list \<Rightarrow> middleware) \<Rightarrow> fastapi_app \<Rightarrow> handler \<Rightarrow> handler" where
  "serve wrap app routes req = wrap (app_middleware app) routes req"


subsection \<open>Command line\<close>

datatype boot_error = BootSettings settings_error | BootExc exc | BootDb db_base_error | BootDdl ddl_error

definition cli_overrides ::
    "'v pydantic \<Rightarrow> string option \<Rightarrow> string option \<Rightarrow> 'v dict \<Rightarrow> 'v dict" where
  "cli_overrides co url lvl overrides =
    (let d0 = [];
         d1 = (if truthy url then dict_set ''database_url'' (Leaf (of_str co (the url))) d0 else d0);
         d2 = (if truthy lvl then dict_set ''log_level'' (Leaf (of_str co (the lvl))) d1 else d1)
     in fold (\<lambda>(k, v). dict_set k v) overrides d2)"

definition load_settings_from_cli ::
    "'v pydantic \<Rightarrow> 'v process_env \<Rightarrow> string \<Rightarrow> string option \<Rightarrow> string option \<Rightarrow> 'v dict \<Rightarrow> config_globals \<Rightarrow> log_state
      \<Rightarrow> (boot_error + gateway_settings \<times> string) \<times> config_globals \<times> log_state" where
  "load_settings_from_cli co env config_path url lvl overrides c l =
    (case load_settings co env (Some config_path) (cli_overrides co url lvl overrides) (reset_settings_cache c) of
       (Inl e, c') \<Rightarrow> (Inl (BootSettings e), c', l)
     | (Inr s, c') \<Rightarrow>
         (let resolved_level = text_or lvl (log_level s) in
          case configure_logging (LevelName resolved_level) l of
            Inl e \<Rightarrow> (Inl (BootExc e), c', l)
          | Inr (_, l') \<Rightarrow> (Inr (s, resolved_level), c', l')))"

record uvicorn_run =
  ur_app :: fastapi_app
  ur_host :: string
  ur_port :: int
  ur_log_level :: string

text \<open>\<open>main\<close> of the gateway: what it hands to \<open>uvicorn.run\<close>.\<close>

definition gateway_cli ::
    "(string \<Rightarrow> bool) \<Rightarrow> string \<Rightarrow> 'v pydantic \<Rightarrow> 'v process_env \<Rightarrow> string option \<Rightarrow> int option \<Rightarrow> string
      \<Rightarrow> string option \<Rightarrow> string option \<Rightarrow> config_globals \<Rightarrow> log_state
      \<Rightarrow> (boot_error + uvicorn_run) \<times> config_globals \<times> log_state" where
  "gateway_cli is_public_bind_host mineru_version co env hst prt config_path url lvl c l =
    (let overrides = (case hst of None \<Rightarrow> [] | Some h \<Rightarrow> [(''host'', Leaf (of_str co h))])
           @ (case prt of None \<Rightarrow> [] | Some p \<Rightarrow> [(''port'', Leaf (of_int_value co p))])
     in case load_settings_from_cli co env config_path url lvl overrides c l of
          (Inl e, c', l') \<Rightarrow> (Inl e, c', l')
        | (Inr (s, resolved_level), c', l') \<Rightarrow>
            (let bind_host = (case hst of Some h \<Rightarrow> h | None \<Rightarrow> host s);
                 bind_port = (case prt of Some p \<Rightarrow> p | None \<Rightarrow> port s)
             in case enforce_bind_guard is_public_bind_host s (Some bind_host) of
                  Inl e \<Rightarrow> (Inl (BootExc e), c', l')
                | Inr _ \<Rightarrow> (Inr \<lparr>ur_app = create_app mineru_version s, ur_host = bind_host, ur_port = bind_port,
                      ur_log_level = py_lower resolved_level\<rparr>, c', l')))"

definition scheduler_cli ::
    "'v pydantic \<Rightarrow> 'v process_env \<Rightarrow> string \<Rightarrow> string option \<Rightarrow> string option \<Rightarrow> config_globals \<Rightarrow> log_state
      \<Rightarrow> (boot_error + gateway_settings) \<times> config_globals \<times> log_state" where
  "scheduler_cli co env config_path url lvl c l =
    (case load_settings_from_cli co env config_path url lvl [] c l of
       (Inl e, c', l') \<Rightarrow> (Inl e, c', l')
     | (Inr (s, _), c', l') \<Rightarrow> (Inr s, c', l'))"

subsection \<open>Start-up and shutdown\<close>

record ('s, 'f) gateway_process =
  gp_config :: config_globals
  gp_db :: db_globals
  gp_databases :: "string \<Rightarrow> schema"
  gp_otel :: "'f otel_state"
  gp_objects :: 's

text \<open>Everything outside the process that start-up asks.\<close>

record ('v, 's) boot_env =
  be_is_public :: "string \<Rightarrow> bool"
  be_pydantic :: "'v pydantic"
  be_process :: "'v process_env"
  be_url_str :: "string \<Rightarrow> string"
  be_naming :: "string \<Rightarrow> string \<Rightarrow> string"
  be_sdk_metrics :: bool
  be_sdk_traces :: bool
  be_s3 :: "string option \<Rightarrow> string \<Rightarrow> 's s3_client"
  be_protocol_version :: int
  be_mineru_version :: string
  be_rows :: db

definition app_startup ::
    "('v, 's) boot_env \<Rightarrow> gateway_settings \<Rightarrow> ('s, 'f) gateway_process
      \<Rightarrow> (boot_error + bool \<times> 's store_ops option) \<times> ('s, 'f) gateway_process" where
  "app_startup be cfg p0 =
    (case enforce_bind_guard (be_is_public be) cfg None of
       Inl e \<Rightarrow> (Inl (BootExc e), p0)
     | Inr _ \<Rightarrow>
       (let p1 = p0\<lparr>gp_otel := init_otel (be_sdk_metrics be) (be_sdk_traces be) cfg True None (gp_otel p0)\<rparr> in
        case init_engine (be_url_str be) (be_pydantic be) (be_process be) (Some (database_url cfg)) False (gp_config p1) (gp_db p1) of
          (Inl e, c, g) \<Rightarrow> (Inl (BootDb e), p1\<lparr>gp_config := c, gp_db := g\<rparr>)
        | (Inr _, c, g) \<Rightarrow>
            (let p2 = p1\<lparr>gp_config := c, gp_db := g\<rparr> in
             case bootstrap (be_url_str be) (be_naming be) (gp_db p2) (gp_databases p2) of
               Inl e \<Rightarrow> (Inl (BootDb e), p2)
             | Inr (Inl e) \<Rightarrow> (Inl (BootDdl e), p2)
             | Inr (Inr dbs) \<Rightarrow>
                 (case init_store (be_s3 be) cfg True (gp_objects p2) of
                    (Inl e, s) \<Rightarrow> (Inl (BootExc e), p2\<lparr>gp_databases := dbs, gp_objects := s\<rparr>)
                  | (Inr store, s) \<Rightarrow>
                      (let p3 = p2\<lparr>gp_databases := dbs, gp_objects := s\<rparr> in
                       case validate_startup_dependencies (be_protocol_version be) (be_mineru_version be) cfg store (be_rows be) of
                         Inl e \<Rightarrow> (Inl (BootExc e), p3)
                       | Inr _ \<Rightarrow> (Inr (be_is_public be (host cfg), store), p3))))))"

definition app_shutdown :: "('s, 'f) gateway_process \<Rightarrow> ('s, 'f) gateway_process" where
  "app_shutdown p = p\<lparr>gp_db := shutdown_engine (gp_db p)\<rparr>"

section \<open>Lemmas\<close>



lemma serve_create_app:
  assumes "middleware_order wrap"
  shows "serve wrap (create_app ver cfg) routes =
    key_middleware cfg (logging_dispatch
      (if attribution_enabled (attribution cfg) then attribution_middleware ver routes else routes))"
proof -
  have "wrap [] h = h" "wrap [m] h = m h" "wrap [m, m'] h = m' (m h)" "wrap [m, m', m''] h = m'' (m' (m h))" for m m' m'' h
    using assms [unfolded middleware_order_def, THEN conjunct1]
      assms [unfolded middleware_order_def, THEN conjunct2, rule_format, of "[]"]
      assms [unfolded middleware_order_def, THEN conjunct2, rule_format, of "[m]"]
      assms [unfolded middleware_order_def, THEN conjunct2, rule_format, of "[m, m']"]
    by simp_all
  then show ?thesis
    by (simp add: serve_def create_app_def install_attribution_def add_middleware_def fun_eq_iff)
qed

lemma app_startup_lifespan:
  assumes "app_startup be cfg p = (Inr (exposed, store), p')"
  shows "lifespan (be_is_public be) (be_s3 be) (be_protocol_version be) (be_mineru_version be) cfg (be_rows be) (gp_objects p)
      = (Inr (exposed, store), gp_objects p')"
    and "\<exists>e. get_engine (gp_db p') = Inr e"
    and "\<exists>s. bootstrap (be_url_str be) (be_naming be) (gp_db p') (gp_databases p) = Inr (Inr (gp_databases p'))"
  using assms
  by (auto simp: app_startup_def lifespan_def bootstrap_def map_sum_def Let_def split: sum.splits prod.splits)

definition cli_values :: "'v pydantic \<Rightarrow> bool" where
  "cli_values co \<longleftrightarrow> (\<forall>x. as_str co (of_str co x) = Some x) \<and> (\<forall>n. as_int co (of_int_value co n) = Some n)"

lemma overrides_lookup:
  "map_of (cli_overrides co url lvl overrides) k =
     (case map_of (rev overrides) k of
        Some v \<Rightarrow> Some v
      | None \<Rightarrow> if k = ''log_level'' \<and> truthy lvl then Some (Leaf (of_str co (the lvl)))
               else if k = ''database_url'' \<and> truthy url then Some (Leaf (of_str co (the url)))
               else None)"
proof -
  have "map_of (fold (\<lambda>(k, v). dict_set k v) overrides d) k =
      (case map_of (rev overrides) k of Some v \<Rightarrow> Some v | None \<Rightarrow> map_of d k)" for d
    by (induction overrides arbitrary: d)
      (auto simp: dict_set_lookup map_add_def split: option.splits)
  then show ?thesis
    by (auto simp: cli_overrides_def dict_set_lookup Let_def split: option.splits)
qed

text \<open>A field the command line sets has that value in the loaded settings.\<close>

lemma cli_field_wins:
  assumes "deep_update_law co" and "reads conv [k] dflt (merge_sources co (cli # ds)) x"
    and "map_of cli k = Some (Leaf v)"
  shows "conv v = Some x"
  using reads_merged [OF assms(1,2)] assms(3) by (simp add: takes_value_def)

lemma load_settings_from_cli_fields:
  assumes law: "deep_update_law co" and vals: "cli_values co"
    and run: "load_settings_from_cli co env path url lvl overrides c l = (Inr (s, resolved), c', l')"
  shows "\<And>h. map_of (rev overrides) ''host'' = Some (Leaf (of_str co h)) \<Longrightarrow> host s = h"
    and "\<And>n. map_of (rev overrides) ''port'' = Some (Leaf (of_int_value co n)) \<Longrightarrow> port s = n"
    and "cached_settings c' = Some s" and "\<exists>s0. validate_settings s0 = Inr s"
proof -
  from run have loaded: "load_settings co env (Some path) (cli_overrides co url lvl overrides) (reset_settings_cache c) = (Inr s, c')"
    by (auto simp: load_settings_from_cli_def Let_def split: prod.splits sum.splits)
  obtain data s0 where s0: "read_fields co (merge_sources co [cli_overrides co url lvl overrides, env_settings env, data]) = Inr s0"
    and s: "validate_settings s0 = Inr s" and c': "cached_settings c' = Some s"
    using loaded by (rule load_settings_built)
  note top = read_fields_top [OF s0]
  show "host s = h" if "map_of (rev overrides) ''host'' = Some (Leaf (of_str co h))" for h
    using cli_field_wins [OF law top(3), of "of_str co h"] that vals
    by (simp add: overrides_lookup cli_values_def validate_settings_result [OF s])
  show "port s = n" if "map_of (rev overrides) ''port'' = Some (Leaf (of_int_value co n))" for n
    using cli_field_wins [OF law top(4), of "of_int_value co n"] that vals
    by (simp add: overrides_lookup cli_values_def validate_settings_result [OF s])
  show "cached_settings c' = Some s" and "\<exists>s0. validate_settings s0 = Inr s" using c' s by blast+
qed

section \<open>Properties\<close>

text \<open>C17: A gateway that started on a public host does nothing for a client without a configured key. When
  start-up succeeded and the configured host is public, a request to any path but the five probe and
  documentation paths that presents none of the configured keys is answered with 401 (or, for a key
  that cannot be compared, with a server error), and this answer is the same whatever the routes
  would do: no handler runs.\<close>

theorem public_gateway_protects_routes:
  assumes "middleware_order wrap"
    and started: "app_startup be cfg p = (Inr (True, store), p')"
    and "rq_path req \<notin> PUBLIC_PATHS"
    and "provided_key (get_header ''x-api-key'' (rq_headers req)) (get_header ''authorization'' (rq_headers req))
      \<notin> set (resolved_keys (auth cfg))"
  shows "serve wrap (create_app ver cfg) routes req = serve wrap (create_app ver cfg) routes' req
    \<and> (case fst (serve wrap (create_app ver cfg) routes req) of
         Inl e \<Rightarrow> \<not> is_ascii (provided_key (get_header ''x-api-key'' (rq_headers req)) (get_header ''authorization'' (rq_headers req)))
           \<or> \<not> list_all is_ascii (resolved_keys (auth cfg))
       | Inr r \<Rightarrow> status_code (rs_response r) = 401)"
proof -
  let ?a = "auth_dispatch cfg (rq_path req) (get_header ''x-api-key'' (rq_headers req)) (get_header ''authorization'' (rq_headers req))"
  have refused: "?a \<noteq> Inr None"
    using public_gateway_requires_key [OF app_startup_lifespan(1) [OF started] assms(3)] assms(4) by blast
  have stopped: "serve wrap (create_app ver cfg) h req =
      (case ?a of Inl e \<Rightarrow> (Inl e, []) | Inr None \<Rightarrow> undefined | Inr (Some resp) \<Rightarrow> (Inr \<lparr>rs_response = resp, rs_headers = []\<rparr>, []))" for h
    using refused by (auto simp: serve_create_app [OF assms(1)] key_middleware_def split: sum.splits option.splits)
  have unauthorized: "status_code resp = 401" if "?a = Inr (Some resp)" for resp
    using that by (auto simp: auth_dispatch_def Let_def split: if_splits sum.splits bool.splits)
  have odd_key: "\<not> is_ascii (provided_key (get_header ''x-api-key'' (rq_headers req)) (get_header ''authorization'' (rq_headers req)))
       \<or> \<not> list_all is_ascii (resolved_keys (auth cfg))" if "?a = Inl e" for e
    using that any_key_ascii [of "provided_key (get_header ''x-api-key'' (rq_headers req)) (get_header ''authorization'' (rq_headers req))" "resolved_keys (auth cfg)"]
    by (auto simp: auth_dispatch_def Let_def list_all_iff split: if_splits sum.splits bool.splits)
  show ?thesis
    using refused unauthorized odd_key unfolding stopped
    by (cases ?a) (auto split: option.splits)
qed

definition example_boot :: "(string + int, buckets) boot_env" where
  "example_boot = \<lparr>be_is_public = (\<lambda>_. True), be_pydantic = example_pydantic, be_process = example_no_sources,
     be_url_str = id, be_naming = (\<lambda>t c. ''ix_'' @ t @ ''_'' @ c), be_sdk_metrics = False, be_sdk_traces = False,
     be_s3 = (\<lambda>_ _. memory_client), be_protocol_version = 2, be_mineru_version = ''3.4.4'', be_rows = empty_db\<rparr>"

definition example_gateway :: "(buckets, unit) gateway_process" where
  "example_gateway = \<lparr>gp_config = initial_config, gp_db = initial_db_globals, gp_databases = (\<lambda>_. empty_schema),
     gp_otel = \<lparr>ot_metrics = Metrics_init, ot_exporter = None, ot_tracer = None, ot_fastapi = False, ot_httpx = False,
       ot_warnings = []\<rparr>, gp_objects = (\<lambda>_. None)\<rparr>"

theorem public_gateway_protects_routes_witness:
  "\<exists>store p'. app_startup example_boot (example_public\<lparr>database_url := ''postgresql://db''\<rparr>) example_gateway = (Inr (True, store), p')
     \<and> (\<exists>r. fst (serve (fold (\<lambda>m. m)) (create_app ''3.4.4'' (example_public\<lparr>database_url := ''postgresql://db''\<rparr>))
          (\<lambda>_. answer (health ''1'' ''3.4.4''))
          \<lparr>rq_method = ''GET'', rq_path = ''/tasks'', rq_client = None, rq_headers = [(''x-api-key'', ''k2'')]\<rparr>) = Inr r
        \<and> status_code (rs_response r) = 401)"
proof -
  let ?wrap = "fold (\<lambda>m. m) :: middleware list \<Rightarrow> middleware"
  let ?cfg = "example_public\<lparr>database_url := ''postgresql://db''\<rparr>"
  let ?req = "\<lparr>rq_method = ''GET'', rq_path = ''/tasks'', rq_client = None, rq_headers = [(''x-api-key'', ''k2'')]\<rparr>"
  have order: "middleware_order ?wrap" by (simp add: middleware_order_def)
  have keys: "resolved_keys (auth ?cfg) = [''k1'']" by (simp add: example_public_def resolved_keys_def)
  have key: "provided_key (get_header ''x-api-key'' (rq_headers ?req)) (get_header ''authorization'' (rq_headers ?req)) = ''k2''"
    by code_simp
  obtain store p' where run: "app_startup example_boot ?cfg example_gateway = (Inr (True, store), p')"
    by (simp add: app_startup_def enforce_bind_guard_def example_public_def default_settings_def default_aws_def default_otel_def
        init_store_def registry_get_store_def s3_prepare_def example_boot_def example_gateway_def memory_client_def
        is_object_store_configured_def object_store_bucket_def text_or_def init_otel_def init_engine_def resolve_url_def
        initial_db_globals_def bootstrap_def get_engine_def ensure_sqlite_schema_def empty_db_def
        validate_startup_dependencies_def validate_mineru_compat_def int_of_str_def py_strip_def py_isspace_def is_digit_def
        validate_worker_provider_ownership_def provider_conflicts_def resolved_keys_def Let_def)
  have no_key: "provided_key (get_header ''x-api-key'' (rq_headers ?req)) (get_header ''authorization'' (rq_headers ?req))
      \<notin> set (resolved_keys (auth ?cfg))" unfolding key keys by simp
  have path: "rq_path ?req \<notin> PUBLIC_PATHS" by (simp add: PUBLIC_PATHS_def)
  have ascii: "is_ascii ''k2''" "list_all is_ascii [''k1'']" by (code_simp, code_simp)
  let ?served = "fst (serve ?wrap (create_app ''3.4.4'' ?cfg) (\<lambda>_. answer (health ''1'' ''3.4.4'')) ?req)"
  have "case ?served of Inl e \<Rightarrow> \<not> is_ascii ''k2'' \<or> \<not> list_all is_ascii [''k1'']
      | Inr r \<Rightarrow> status_code (rs_response r) = 401"
    using conjunct2 [OF public_gateway_protects_routes [OF order run path no_key]] unfolding key keys by blast
  then have "\<exists>r. ?served = Inr r \<and> status_code (rs_response r) = 401"
    using ascii by (cases ?served) auto
  with run show ?thesis by blast
qed



text \<open>C19: The address the server listens on is the address every guard looked at. When the command line
  of the gateway gets as far as starting the server, the host and the port it binds are those of the
  loaded settings, whichever of command line, environment, file or default they come from; the settings
  passed validation, are the cached ones and those of the application; and without authentication
  the host is not public, so that the check of the start-up sequence passes as well.\<close>

theorem gateway_binds_guarded_host:
  assumes "deep_update_law co" and "cli_values co"
    and "gateway_cli is_public ver co env hst prt path url lvl c l = (Inr run, c', l')"
  shows "\<exists>s s0. validate_settings s0 = Inr s \<and> cached_settings c' = Some s \<and> ur_app run = create_app ver s
    \<and> ur_host run = host s \<and> ur_port run = port s
    \<and> (auth_enabled (auth s) \<or> \<not> is_public (ur_host run))
    \<and> enforce_bind_guard is_public s None = Inr ()"
proof -
  define overrides where "overrides = (case hst of None \<Rightarrow> [] | Some h \<Rightarrow> [(''host'', Leaf (of_str co h))])
           @ (case prt of None \<Rightarrow> [] | Some p \<Rightarrow> [(''port'', Leaf (of_int_value co p))])"
  obtain s lv where load: "load_settings_from_cli co env path url lvl overrides c l = (Inr (s, lv), c', l')"
    and guard: "enforce_bind_guard is_public s (Some (case hst of Some h \<Rightarrow> h | None \<Rightarrow> host s)) = Inr ()"
    and run: "run = \<lparr>ur_app = create_app ver s, ur_host = (case hst of Some h \<Rightarrow> h | None \<Rightarrow> host s),
      ur_port = (case prt of Some p \<Rightarrow> p | None \<Rightarrow> port s), ur_log_level = py_lower lv\<rparr>"
    using assms(3) unfolding gateway_cli_def overrides_def [symmetric]
    by (auto simp: Let_def split: prod.splits sum.splits)
  note flds = load_settings_from_cli_fields [OF assms(1,2) load]
  have hst: "(case hst of Some h \<Rightarrow> h | None \<Rightarrow> host s) = host s"
    by (cases hst; cases prt) (simp_all add: flds(1) overrides_def)
  have prt: "(case prt of Some p \<Rightarrow> p | None \<Rightarrow> port s) = port s"
    by (cases hst; cases prt) (simp_all add: flds(2) overrides_def)
  have "enforce_bind_guard is_public s None = Inr ()" "auth_enabled (auth s) \<or> \<not> is_public (host s)"
    using guard unfolding hst by (auto simp: enforce_bind_guard_def text_or_def Let_def split: if_splits)
  with flds(3,4) run hst prt show ?thesis by auto
qed

theorem gateway_binds_guarded_host_witness:
  "\<exists>run c' l'. gateway_cli (\<lambda>h. h = ''0.0.0.0'') ''3.4.4'' example_pydantic example_no_sources (Some ''10.0.0.5'') (Some 80)
       ''config.yaml'' None None initial_config \<lparr>root_level = 0, logger_levels = Map.empty\<rparr> = (Inr run, c', l')
     \<and> ur_host run = ''10.0.0.5'' \<and> ur_port run = 80 \<and> (\<exists>s. cached_settings c' = Some s \<and> host s = ''10.0.0.5'' \<and> port s = 80)"
proof -
  have vals: "cli_values example_pydantic" by (simp add: cli_values_def example_pydantic_def)
  have level: "resolve_log_level (LevelName ''INFO'') = Inr INFO" by code_simp
  obtain run c' l' where run: "gateway_cli (\<lambda>h. h = ''0.0.0.0'') ''3.4.4'' example_pydantic example_no_sources
      (Some ''10.0.0.5'') (Some 80) ''config.yaml'' None None initial_config
      \<lparr>root_level = 0, logger_levels = Map.empty\<rparr> = (Inr run, c', l')" and host: "ur_host run = ''10.0.0.5''" and port: "ur_port run = 80"
    by (simp add: gateway_cli_def load_settings_from_cli_def cli_overrides_def load_settings_def GatewaySettings_def
        example_pydantic_def example_no_sources_def settings_customise_sources_def yaml_load_def merge_sources_def
        merge_dicts.simps chain_def read_fields_def field_def section_of_def forbid_extra_def ScalingConfig_def
        ReconciliationConfig_def RetentionConfig_def CacheConfig_def CloudConfig_def AwsCloudConfig_def
        RotationConfig_def SchedulerConfig_def AttributionConfig_def AuthConfig_def OtelConfig_def
        validate_settings_def validators MAX_FILE_SIZE_HARD_BYTES_def object_store_bucket_def py_strip_def
        py_isspace_def py_lower_def py_lower_char_def seconds_def Let_def text_or_def configure_logging_def level
        enforce_bind_guard_def)
  from gateway_binds_guarded_host [OF example_pydantic_law vals run] run host port show ?thesis by auto
qed

end
