(* ===== verification/Spec2Isabelle.thy ===== *)
theory Spec2Isabelle
  imports Prelude Status Scaling Config Models Worker_Repo Storage Json Payload Cache Task_Repo Results Reconcile
    Fleet Lock Scheduler Progress Ingest Normalize Gateway Access Ec2 System
    Settings Schema Database Telemetry App Staging
begin

text \<open>
  A verification development for mineru-gateway (Python, \<^verbatim>\<open>src/src/mineru_gateway\<close>), a gateway in front of
  MinerU: clients upload documents, the gateway stores them and queues a task, a scheduler process
  dispatches tasks to GPU workers it launches in the cloud, stores the results, and the gateway serves
  them. The two processes share nothing but a database and an object store.

  \<^bold>\<open>Parts, and the theories that model them.\<close>

  \<^item> \<open>Prelude\<close>: times, tables as lists of rows with a unique key (locale \<open>keyed_table\<close>), relations that
    every step of a loop keeps (locale \<open>step_relation\<close>).
  \<^item> \<open>Status\<close>, \<open>Scaling\<close>, \<open>Config\<close>, \<open>Models\<close>: \<^verbatim>\<open>tasks/status.py\<close>, \<^verbatim>\<open>tasks/errors.py\<close>, \<^verbatim>\<open>cloud/errors.py\<close>,
    \<^verbatim>\<open>scheduler/scaling.py\<close>, \<^verbatim>\<open>config.py\<close>, \<^verbatim>\<open>db/models.py\<close>, \<^verbatim>\<open>cloud/types.py\<close>. The state of the program
    is the record \<open>db\<close> of the four tables.
  \<^item> \<open>Worker_Repo\<close>, \<open>Task_Repo\<close>, \<open>Cache\<close>, \<open>Results\<close>: the repositories under \<^verbatim>\<open>scheduler/\<close> and
    \<^verbatim>\<open>tasks/results.py\<close>, one definition per query or write, with the name of the method.
  \<^item> \<open>Storage\<close>: object keys, the storage interface (locale \<open>object_store\<close>) and the S3 adapter, whose laws
    follow from those of a boto3 client (locale \<open>s3_service\<close>).
  \<^item> \<open>Json\<close>, \<open>Payload\<close>: JSON text, size limits, upload names, and the blob by which a form travels from
    the gateway to the scheduler.
  \<^item> \<open>Reconcile\<close>, \<open>Fleet\<close>, \<open>Lock\<close>, \<open>Scheduler\<close>: \<^verbatim>\<open>scheduler/scheduler.py\<close> and \<^verbatim>\<open>scheduler/lock.py\<close>: workers against
    discovered instances; health, autoscaling, drains, rotations and stalled workers; the advisory lock;
    retention, the two ticks and their loops. The record \<open>world\<close> adds the cloud and a log of commands
    to the database, \<open>process\<close> the scheduler's own fields, the object store and the lock connection.
  \<^item> \<open>Ingest\<close>, \<open>Normalize\<close>, \<open>Gateway\<close>, \<open>Access\<close>: \<^verbatim>\<open>gateway/ingest.py\<close>, \<^verbatim>\<open>protocol/normalize.py\<close>,
    \<^verbatim>\<open>gateway/task_flow.py\<close>, the routers of \<^verbatim>\<open>gateway/api\<close>, \<^verbatim>\<open>gateway/auth.py\<close>, \<^verbatim>\<open>startup_guard.py\<close>, \<^verbatim>\<open>cloud/registry.py\<close>
    and \<^verbatim>\<open>cloud/aws/ssm.py\<close>. A handler maps a request and the state to a response and the state.
  \<^item> \<open>Ec2\<close>: \<^verbatim>\<open>cloud/aws/ec2.py\<close>, whose laws of a compute provider (locale \<open>compute_provider\<close>) follow from
    those of an EC2 client (locale \<open>ec2_service\<close>), whose listings are eventually consistent.
  \<^item> \<open>Settings\<close>: how \<^verbatim>\<open>config.py\<close> builds the settings from command line, environment, YAML file and
    defaults, and the cache behind \<open>get_settings\<close>.
  \<^item> \<open>Schema\<close>, \<open>Database\<close>: the migration \<^verbatim>\<open>alembic/versions/0001_initial.py\<close> and the ORM metadata as
    operations on a schema, \<^verbatim>\<open>db/bootstrap.py\<close>, the engine and session factory of \<^verbatim>\<open>db/base.py\<close>, the
    database URL of \<^verbatim>\<open>alembic/env.py\<close>, and the column widths a row has to fit.
  \<^item> \<open>Telemetry\<close>: \<^verbatim>\<open>observability/\<close> and \<^verbatim>\<open>logging_config.py\<close>.
  \<^item> \<open>App\<close>: the command lines of both processes, start-up and shutdown of the gateway, its routes and the
    middleware around them (\<^verbatim>\<open>cli.py\<close>, \<^verbatim>\<open>gateway/main.py\<close>, \<^verbatim>\<open>gateway/app.py\<close>, \<^verbatim>\<open>attribution.py\<close>,
    \<^verbatim>\<open>gateway/logging_middleware.py\<close>).
  \<^item> \<open>Staging\<close>: the temporary files of the uploads (\<^verbatim>\<open>util/upload_paths.py\<close>) on an explicit file system,
    to which \<open>Ingest\<close> stages them.
  \<^item> \<open>Progress\<close>: what a dispatch tick gets done, over the definitions of \<open>Task_Repo\<close>, \<open>Results\<close> and
    \<open>Scheduler\<close>.
  \<^item> \<open>System\<close>: scheduler and gateway together as a step relation, and the abstract task it refines.

  \<^bold>\<open>Conventions.\<close> Operations pass the state explicitly and return errors as \<open>Inl\<close> of the exception
  (\<open>exc\<close>), with the state at the point where it was raised. Python integers are \<open>int\<close>, bytes are words of
  eight bits, strings are sequences of code points below 256, instants are microseconds. What the
  repository does not contain is an argument: the clock, random identifiers, SHA-256, HTTP answers of
  workers, AWS clients, database sessions, MinerU's helpers, unzipping, the conversions and the merging
  of pydantic, the nesting of middleware in FastAPI and its answer to an escaped exception, the faults of
  the file system while an upload is staged. Where other transactions may
  commit in between, an \<open>interfere\<close> argument is applied at that point.

  \<^bold>\<open>What the lemmas show.\<close> For the tasks table a contract (\<open>safe_step\<close>) that every operation of the
  dispatch tick honours: rows stay well formed, move along the lifecycle, no worker gets more tasks
  than it may, and none changes beyond its activity stamp. For the workers table a contract (\<open>fleet_step\<close>, \<open>fleet_bounded\<close>) for the reconcile tick:
  rows evolve, the fleet stays within its bounds, every command sent to the cloud is justified. For the
  cache the compare-and-swap discipline on generations. For ingest, that staging gives every upload a
  file of its own, that an accepted request is durable and a rejected one leaves no row. For the synchronous routes, that answers are true of the task. For
  the configuration, which source the value of every field comes from; for the database, that migration and models agree
  and that engine and sessions belong together; for the application, which responses are attributed and
  which address is bound; for the temporary files, that they refine the contents \<open>Payload\<close> works on. For
  the dispatch tick also progress: in a good environment no slot stays free while tasks wait, and a
  finished task is collected. The
  properties of this theory compose them: every reachable state satisfies the invariant and keeps the
  fleet within its bounds, and the whole system refines the task that clients see.

  \<^bold>\<open>Fuel and bounds.\<close> The submission loop is total by a measure on the workers not yet excluded; polling
  is bounded by the code at 300; the search for a free file name takes fuel, and one step more than
  there are files suffices (\<open>build_upload_destination_free\<close>), so that staging never runs out of it
  (\<open>stage_items_correct\<close>); waiting for the lock and the endless loops of
  the scheduler take the number of rounds as an argument.

  \<^bold>\<open>Not modelled.\<close> The libraries: pydantic, PyYAML, SQLAlchemy and Alembic, FastAPI, uvicorn, click, boto3,
  httpx and OpenTelemetry, beyond what their arguments and laws say; offline SQL generation; where the
  operations of the other components record metrics or log lines; time-outs of HTTP clients; the
  removal of temporary directories; the interleaving of coroutines inside one tick other than at the
  marked points; and code points above 255.
\<close>

section \<open>Properties of the whole system\<close>

text \<open>C1: In every state the system can reach, every row of the tasks table is well formed and no worker
  holds more tasks than it may. From an empty database, whatever requests the gateway serves, whatever
  workers, clouds and object stores answer, wherever ticks fail and the scheduler restarts: keys are
  unique, a queued task belongs to nobody, a dispatched one has a worker and a start time, a running one
  an upstream task, a result key exactly when completed, a completion time exactly when finished; and at
  most \<open>target_per_worker\<close> tasks are on one worker.\<close>

theorem system_invariant:
  assumes "validate_settings cfg = Inr c" and "object_store st contents" and "reachable cfg st p"
  shows "tasks_ok (pr_db p) \<and> (\<forall>wid. int (compute_load (pr_db p) wid) \<le> target_per_worker (scaling cfg))"
  using reachable_ok [OF assms] by (simp add: system_ok_def)

theorem system_invariant_witness:
  "\<exists>p :: (unit, buckets, unit) process. reachable default_settings (S3ObjectStore memory_client ''b'') p
     \<and> task_view (pr_db p) ''t1'' = Some TASK_QUEUED \<and> tasks_ok (pr_db p)"
proof -
  let ?st = "S3ObjectStore memory_client ''b''"
  obtain s d where run: "system_step default_settings ?st example_start (at_state example_start s d)" "task_view d ''t1'' = Some TASK_QUEUED"
    by (rule example_request)
  have "reachable default_settings ?st example_start" by (rule reachable.start) (simp add: example_start_def)
  then have reach: "reachable default_settings ?st (at_state example_start s d)" using run(1) by (rule reachable.step)
  from system_invariant [OF example_valid memory.object_store_axioms reach] show ?thesis using reach run(2) by fastforce
qed

text \<open>C3: The system refines the task that clients see. Under every step of every reachable state, each
  task identifier behaves as the abstract task: it comes into being queued, or completed by a cache hit;
  it moves only along the lifecycle, so a finished status is final; and it disappears only when it is
  finished.\<close>

theorem system_refines_task_view:
  assumes "validate_settings cfg = Inr c" and "object_store st contents" and "reachable cfg st p"
    and "system_step cfg st p p'"
  shows "view_step (task_view (pr_db p) tid) (task_view (pr_db p') tid)
    \<and> (task_view (pr_db p) tid = Some a \<and> a \<in> TASK_STATUSES_TERMINAL \<longrightarrow> task_view (pr_db p') tid \<in> {Some a, None})"
proof -
  have step: "view_step (task_view (pr_db p) tid) (task_view (pr_db p') tid)"
    using system_step_good [OF assms(4,2) reachable_ok [OF assms(1-3)]] reachable_ok [OF assms(1-3)] by (simp add: good_step_def)
  moreover have "b = a" if "lifecycle\<^sup>*\<^sup>* a b" "a \<in> TASK_STATUSES_TERMINAL" for b
    using that by (induction rule: rtranclp_induct) (auto simp: TASK_STATUSES_TERMINAL_def elim: lifecycle.cases)
  ultimately show ?thesis by (auto simp: view_step_simps)
qed

theorem system_refines_task_view_witness:
  "\<exists>s d. system_step default_settings (S3ObjectStore memory_client ''b'') example_start (at_state example_start s d)
     \<and> task_view d ''t1'' = Some TASK_QUEUED \<and> view_step (task_view empty_db ''t1'') (task_view d ''t1'')"
proof -
  let ?st = "S3ObjectStore memory_client ''b''"
  obtain s d where run: "system_step default_settings ?st example_start (at_state example_start s d)" "task_view d ''t1'' = Some TASK_QUEUED"
    by (rule example_request)
  have "reachable default_settings ?st example_start" by (rule reachable.start) (simp add: example_start_def)
  from system_refines_task_view [OF example_valid memory.object_store_axioms this run(1), of "''t1''"]
  have "view_step (task_view (pr_db example_start) ''t1'') (task_view d ''t1'')" unfolding at_state_db by blast
  moreover have "pr_db example_start = empty_db" by (simp add: example_start_def)
  ultimately show ?thesis using run by metis
qed

text \<open>C4: The fleet stays within its bounds for ever. In every reachable state the deployment has at most
  one worker more than \<open>max_workers\<close> and at most one replacement under way, and whatever step comes next
  forgets no worker: every row is still there with its identity, a terminated worker stays terminated,
  and new rows are only added after the old ones.\<close>

theorem system_bounds_fleet:
  assumes "validate_settings cfg = Inr c" and "object_store st contents" and "reachable cfg st p"
    and "system_step cfg st p p'"
  shows "count_workers cfg (pr_db p) \<le> max_workers (scaling cfg) + 1 \<and> count_active_replacements cfg (pr_db p) \<le> 1
    \<and> (\<exists>rows new. db_workers (pr_db p') = rows @ new \<and> list_all2 worker_evolves (db_workers (pr_db p)) rows)"
proof -
  have "tasks_ok (pr_db p)" using reachable_ok [OF assms(1-3)] by (simp add: system_ok_def)
  from system_step_fleet [OF assms(4,2) this] show ?thesis
    using reachable_fleet [OF assms(1-3)] by (simp add: fleet_grows_def)
qed

theorem system_bounds_fleet_witness:
  "\<exists>(p :: (unit, buckets, unit) process) p'. reachable fleet_settings (S3ObjectStore memory_client ''b'') p
     \<and> system_step fleet_settings (S3ObjectStore memory_client ''b'') p p'
     \<and> map w_id (db_workers (pr_db p)) = [''cloud-2''] \<and> count_workers fleet_settings (pr_db p) \<le> 2
     \<and> (\<exists>rows new. db_workers (pr_db p') = rows @ new \<and> list_all2 worker_evolves (db_workers (pr_db p)) rows)"
proof -
  let ?st = "S3ObjectStore memory_client ''b''"
  let ?p = "snd (slow_tick fleet_settings fleet_inputs example_start)"
  let ?p' = "snd (slow_tick fleet_settings fleet_inputs ?p)"
  have tick: "system_step fleet_settings ?st q (snd (slow_tick fleet_settings fleet_inputs q))" for q
    by (rule system_step.reconcile_tick [OF surjective_pairing]) (simp_all add: fleet_inputs_def)
  have "reachable fleet_settings ?st example_start" by (rule reachable.start) (simp add: example_start_def)
  then have reach: "reachable fleet_settings ?st ?p" using tick by (rule reachable.step)
  have max: "max_workers (scaling fleet_settings) + 1 = 2" by code_simp
  note bounds = system_bounds_fleet [OF fleet_example(1) memory.object_store_axioms reach tick, unfolded max]
  show ?thesis
    by (rule exI [of _ ?p], rule exI [of _ ?p'], intro conjI)
      (rule reach tick fleet_example(2) conjunct1 [OF bounds] conjunct2 [OF conjunct2 [OF bounds]])+
qed

end
